(* ===== verification/Prelude.thy ===== *)
theory Prelude
  imports Main "HOL-Library.State_Monad"
begin

text \<open>
  What every component shares: a weakest-precondition calculus for the state monad of
  HOL-Library in which the Go code is written (a Go function that performs effects is a
  value of type \<^typ>\<open>('s, 'a) state\<close>), and histories: lists of events that only grow
  at the end, and the policies that relate each event to the events before it.

  Collections: \<open>wp_simps\<close> are equations that push a postcondition through a program,
  \<open>wp_intro\<close> are the same steps as introduction rules, for goals in which the effect of
  an external call is unknown.
\<close>

named_theorems wp_simps "equations of the weakest-precondition calculus"
named_theorems wp_intro "introduction rules of the weakest-precondition calculus"

abbreviation ret :: "'a \<Rightarrow> ('s, 'a) state" where
  "ret \<equiv> State_Monad.return"

subsection \<open>Weakest preconditions for the state monad\<close>

definition wp :: "('s, 'a) state \<Rightarrow> ('a \<Rightarrow> 's \<Rightarrow> bool) \<Rightarrow> 's \<Rightarrow> bool" where
  "wp m Q s = (case run_state m s of (a, s') \<Rightarrow> Q a s')"

lemma wp_return [wp_simps]: "wp (State_Monad.return x) Q = Q x"
  by (simp add: fun_eq_iff wp_def)

lemma wp_bind [wp_simps]: "wp (State_Monad.bind m f) Q = wp m (\<lambda>a. wp (f a) Q)"
  by (simp add: fun_eq_iff wp_def split: prod.splits)

lemma wp_returnI [wp_intro]: "Q x s \<Longrightarrow> wp (State_Monad.return x) Q s"
  by (simp add: wp_simps)

lemma wp_bindI [wp_intro]: "wp m (\<lambda>a. wp (f a) Q) s \<Longrightarrow> wp (State_Monad.bind m f) Q s"
  by (simp add: wp_simps)

lemma wp_ifI [wp_intro]:
  "\<lbrakk>b \<Longrightarrow> wp m Q s; \<not> b \<Longrightarrow> wp m' Q s\<rbrakk> \<Longrightarrow> wp (if b then m else m') Q s"
  by simp

lemma wp_case_sumI [wp_intro]:
  "\<lbrakk>\<And>e. r = Inl e \<Longrightarrow> wp (f e) Q s; \<And>x. r = Inr x \<Longrightarrow> wp (g x) Q s\<rbrakk>
   \<Longrightarrow> wp (case r of Inl e \<Rightarrow> f e | Inr x \<Rightarrow> g x) Q s"
  by (simp split: sum.splits)

lemma wp_case_optionI [wp_intro]:
  "\<lbrakk>r = None \<Longrightarrow> wp m Q s; \<And>x. r = Some x \<Longrightarrow> wp (g x) Q s\<rbrakk>
   \<Longrightarrow> wp (case r of None \<Rightarrow> m | Some x \<Rightarrow> g x) Q s"
  by (simp split: option.splits)

lemma wp_case_prodI [wp_intro]:
  "\<lbrakk>\<And>x y. r = (x, y) \<Longrightarrow> wp (g x y) Q s\<rbrakk> \<Longrightarrow> wp (case r of (x, y) \<Rightarrow> g x y) Q s"
  by (simp split: prod.splits)

lemma wp_LetI [wp_intro]: "wp (f x) Q s \<Longrightarrow> wp (let y = x in f y) Q s"
  by simp

lemma wp_conseq: "\<lbrakk>wp m P s; \<And>a s'. P a s' \<Longrightarrow> Q a s'\<rbrakk> \<Longrightarrow> wp m Q s"
  by (simp add: wp_def split: prod.splits)

lemma wp_conj: "\<lbrakk>wp m P s; wp m Q s\<rbrakk> \<Longrightarrow> wp m (\<lambda>a s'. P a s' \<and> Q a s') s"
  by (simp add: wp_def split: prod.splits)

lemma wp_runD: "\<lbrakk>wp m Q s; run_state m s = (a, s')\<rbrakk> \<Longrightarrow> Q a s'"
  by (simp add: wp_def)

subsection \<open>Histories and policies\<close>

text \<open>
  A policy \<open>ok h e\<close> says whether the event \<open>e\<close> may happen after the history \<open>h\<close>. A
  history conforms when each of its events was allowed by the events before it.
\<close>

fun conforms_from :: "('e list \<Rightarrow> 'e \<Rightarrow> bool) \<Rightarrow> 'e list \<Rightarrow> 'e list \<Rightarrow> bool" where
  "conforms_from ok h [] = True"
| "conforms_from ok h (e # es) = (ok h e \<and> conforms_from ok (h @ [e]) es)"

definition conforms :: "('e list \<Rightarrow> 'e \<Rightarrow> bool) \<Rightarrow> 'e list \<Rightarrow> bool" where
  "conforms ok es = conforms_from ok [] es"

lemma conforms_from_append:
  "conforms_from ok h (xs @ ys) = (conforms_from ok h xs \<and> conforms_from ok (h @ xs) ys)"
  by (induction xs arbitrary: h) auto

lemma conforms_Nil [simp]: "conforms ok []"
  by (simp add: conforms_def)

lemma conforms_append [simp]:
  "conforms ok (h @ es) = (conforms ok h \<and> conforms_from ok h es)"
  by (simp add: conforms_def conforms_from_append)

lemma conforms_from_mono:
  "\<lbrakk>conforms_from ok h es; \<And>h e. ok h e \<Longrightarrow> ok' h e\<rbrakk> \<Longrightarrow> conforms_from ok' h es"
  by (induction es arbitrary: h) auto

lemma conforms_mono:
  "\<lbrakk>conforms ok es; \<And>h e. ok h e \<Longrightarrow> ok' h e\<rbrakk> \<Longrightarrow> conforms ok' es"
  unfolding conforms_def by (rule conforms_from_mono)

text \<open>Read off one event of a conforming history.\<close>

lemma conforms_split: "conforms ok (xs @ e # ys) \<Longrightarrow> ok xs e"
  by simp

lemma conforms_nth:
  assumes "conforms ok es" and "i < length es"
  shows "ok (take i es) (es ! i)"
  using assms conforms_split [of ok "take i es" "es ! i" "drop (Suc i) es"]
  by (simp add: id_take_nth_drop [symmetric])

text \<open>
  A register is a value computed from a history event by event: what the last request of
  some kind returned, or the events since the last request of some kind.
\<close>

definition register :: "('e \<Rightarrow> 'r \<Rightarrow> 'r) \<Rightarrow> 'r \<Rightarrow> 'e list \<Rightarrow> 'r" where
  "register step r0 es = fold step es r0"

lemma register_Nil [simp]: "register step r0 [] = r0"
  by (simp add: register_def)

lemma register_append [simp]: "register step r0 (h @ es) = fold step es (register step r0 h)"
  by (simp add: register_def)

subsection \<open>Strings\<close>

lemma append_suffix_inject [simp]: "xs @ zs = ys @ zs \<longleftrightarrow> xs = ys"
  by simp

end
