(* ===== verification/GoRuntime.thy ===== *)
theory GoRuntime
  imports Prelude "HOL-Library.Word"
begin

text \<open>
  The part of the Go language and its standard library the operator uses: error values and
  their texts, \<^verbatim>\<open>time.Duration\<close> (a signed 64-bit count of nanoseconds), instants,
  and the formatting verbs that occur in messages, with the value of a text of digits. An instant is an \<^typ>\<open>int\<close>, the
  nanoseconds since the Unix epoch; the instants of \<^verbatim>\<open>time.Time\<close> reach 292 billion
  years, so only durations can overflow here and they are kept at their width.
\<close>

subsection \<open>Errors\<close>

text \<open>
  An error is an API status (its reason is what \<^verbatim>\<open>errors.IsNotFound\<close> inspects), a
  formatted error, a formatted error that wraps another (\<^verbatim>\<open>%w\<close>), or a run-time panic,
  which leaves the functions of this program on the same path as a returned error.
\<close>

datatype status_reason =
    StatusReasonNotFound
  | StatusReasonAlreadyExists
  | StatusReasonConflict
  | StatusReasonBadRequest
  | StatusReasonOther string

datatype gerror =
    StatusError status_reason string
  | FmtError string
  | FmtWrap string gerror
  | NilDereference

fun IsNotFound :: "gerror \<Rightarrow> bool" where
  "IsNotFound (StatusError r msg) = (r = StatusReasonNotFound)"
| "IsNotFound (FmtWrap pre e) = IsNotFound e"
| "IsNotFound (FmtError msg) = False"
| "IsNotFound NilDereference = False"

fun error_text :: "gerror \<Rightarrow> string" where
  "error_text (StatusError r msg) = msg"
| "error_text (FmtError msg) = msg"
| "error_text (FmtWrap pre e) = pre @ error_text e"
| "error_text NilDereference = ''runtime error: invalid memory address or nil pointer dereference''"

definition NewBadRequest :: "string \<Rightarrow> gerror" where
  "NewBadRequest msg = StatusError StatusReasonBadRequest msg"

definition IgnoreNotFound :: "gerror \<Rightarrow> gerror option" where
  "IgnoreNotFound e = (if IsNotFound e then None else Some e)"

subsection \<open>Formatting\<close>

text \<open>The verb \<^verbatim>\<open>%d\<close> for a natural number and \<^verbatim>\<open>%v\<close> for a slice of
  strings.\<close>

fun show_nat :: "nat \<Rightarrow> string" where
  "show_nat n = (if n < 10 then [''0123456789'' ! n]
     else show_nat (n div 10) @ [''0123456789'' ! (n mod 10)])"

declare show_nat.simps [simp del]

text \<open>The value of a text of digits; a number is read back from its text, so equal texts are texts
  of equal numbers.\<close>

definition digits_value :: "string \<Rightarrow> int" where
  "digits_value s = foldl (\<lambda>n c. 10 * n + (of_char c - 48)) 0 s"

lemma digit_value: "i < 10 \<Longrightarrow> of_char (''0123456789'' ! i) = (48 + int i)"
  using less_Suc_eq by (auto simp: numeral_eq_Suc less_Suc_eq)

lemma digits_value_snoc:
  "digits_value (s @ [c]) = 10 * digits_value s + (of_char c - 48)"
  by (simp add: digits_value_def)

lemma digits_value_show: "digits_value (show_nat n) = int n"
proof (induction n rule: show_nat.induct)
  case (1 n)
  show ?case
  proof (cases "n < 10")
    case True
    then show ?thesis
      by (subst show_nat.simps) (simp add: digits_value_def digit_value)
  next
    case False
    then have "digits_value (show_nat n) = 10 * int (n div 10) + int (n mod 10)"
      using 1 by (subst show_nat.simps) (simp add: digits_value_snoc digit_value)
    then show ?thesis by presburger
  qed
qed

lemma show_nat_eq [simp]: "show_nat m = show_nat n \<longleftrightarrow> m = n"
  by (metis digits_value_show of_nat_eq_iff)

fun join :: "string \<Rightarrow> string list \<Rightarrow> string" where
  "join sep [] = []"
| "join sep [x] = x"
| "join sep (x # y # ys) = x @ sep @ join sep (y # ys)"

definition show_strings :: "string list \<Rightarrow> string" where
  "show_strings xs = ''['' @ join '' '' xs @ '']''"

subsection \<open>Durations and instants\<close>

type_synonym int32 = "32 word"
type_synonym int64 = "64 word"
type_synonym duration = int64
type_synonym instant = int

definition Second :: duration where
  "Second = 1000000000"

definition duration_of_int32 :: "int32 \<Rightarrow> duration" where
  "duration_of_int32 x = word_of_int (sint x)"

definition time_add :: "instant \<Rightarrow> duration \<Rightarrow> instant" where
  "time_add t d = t + sint d"

definition time_after :: "instant \<Rightarrow> instant \<Rightarrow> bool" where
  "time_after t u = (u < t)"

text \<open>\<^verbatim>\<open>Time.Sub\<close> saturates at the ends of the 64-bit range.\<close>

definition time_sub :: "instant \<Rightarrow> instant \<Rightarrow> duration" where
  "time_sub t u = word_of_int (max (- (2 ^ 63)) (min (2 ^ 63 - 1) (t - u)))"

text \<open>The zero \<^verbatim>\<open>time.Time\<close> is January 1 of year 1, UTC.\<close>

definition zero_time :: instant where
  "zero_time = - 62135596800 * 1000000000"

text \<open>\<^verbatim>\<open>(*metav1.Time).IsZero\<close>: a nil pointer or the zero time.\<close>

definition time_is_zero :: "instant option \<Rightarrow> bool" where
  "time_is_zero t = (case t of None \<Rightarrow> True | Some x \<Rightarrow> x = zero_time)"

lemma sint_int64: "\<lbrakk>- (2 ^ 63) \<le> i; i < 2 ^ 63\<rbrakk> \<Longrightarrow> sint (word_of_int i :: int64) = i"
  by (simp add: sint_sbintrunc' signed_take_bit_int_eq_self)

lemma sint_int32_bounds: "- (2 ^ 31) \<le> sint (x :: int32)" "sint (x :: int32) < 2 ^ 31"
  using sint_ge [of x] sint_lt [of x] by simp_all

lemma sint_duration_of_int32: "sint (duration_of_int32 x) = sint x"
  unfolding duration_of_int32_def
  by (rule sint_int64) (use sint_int32_bounds [of x] in simp_all)

text \<open>
  A count of seconds held in 32 bits, as a duration plus a few seconds, stays far below the
  64-bit bound: the product and the sum of the source do not wrap.
\<close>

lemma seconds_as_word:
  "duration_of_int32 x * Second + word_of_int k = word_of_int (sint x * 1000000000 + k)"
  by (simp add: duration_of_int32_def Second_def)

lemma sint_seconds:
  assumes "0 \<le> k" "k \<le> 2 ^ 40"
  shows "sint (duration_of_int32 x * Second + word_of_int k) = sint x * 1000000000 + k"
  unfolding seconds_as_word
  by (rule sint_int64) (use sint_int32_bounds [of x] assms in simp_all)

lemma sint_seconds_0: "sint (duration_of_int32 x * Second) = sint x * 1000000000"
  using sint_seconds [of 0 x] by simp

lemma time_sub_exact:
  "\<lbrakk>- (2 ^ 63) \<le> t - u; t - u < 2 ^ 63\<rbrakk> \<Longrightarrow> sint (time_sub t u) = t - u"
  unfolding time_sub_def by (subst sint_int64) auto

lemma sint_time_sub:
  "sint (time_sub t u) = max (- (2 ^ 63)) (min (2 ^ 63 - 1) (t - u))"
  unfolding time_sub_def by (rule sint_int64) auto

end
