(* ===== verification/KubeObjects.thy ===== *)
theory KubeObjects
  imports GoRuntime
begin

text \<open>
  The Kubernetes API objects the operator reads and writes, each with the fields the
  operator uses: object metadata, pods, config maps, network policies and the unstructured
  Sandbox object. These types belong to k8s.io/api and k8s.io/apimachinery; the records
  hold data only. A Go map is a partial map, a pointer field an option.
\<close>

datatype NamespacedName = NamespacedName (nn_Namespace: string) (nn_Name: string)

record GroupVersionKind =
  gvk_Group :: string
  gvk_Version :: string
  gvk_Kind :: string

record OwnerReference =
  or_APIVersion :: string
  or_Kind :: string
  or_Name :: string
  or_UID :: string
  or_Controller :: "bool option"
  or_BlockOwnerDeletion :: "bool option"

record ObjectMeta =
  om_Name :: string
  om_GenerateName :: string
  om_Namespace :: string
  om_UID :: string
  om_ResourceVersion :: string
  om_Labels :: "string \<rightharpoonup> string"
  om_Annotations :: "string \<rightharpoonup> string"
  om_Finalizers :: "string list"
  om_OwnerReferences :: "OwnerReference list"
  om_CreationTimestamp :: instant
  om_DeletionTimestamp :: "instant option"

text \<open>The zero value of the struct, from which composite literals start.\<close>

definition empty_meta :: ObjectMeta where
  "empty_meta = \<lparr>om_Name = '''', om_GenerateName = '''', om_Namespace = '''', om_UID = '''',
     om_ResourceVersion = '''', om_Labels = Map.empty, om_Annotations = Map.empty, om_Finalizers = [],
     om_OwnerReferences = [], om_CreationTimestamp = zero_time, om_DeletionTimestamp = None\<rparr>"

definition object_key :: "ObjectMeta \<Rightarrow> NamespacedName" where
  "object_key m = NamespacedName (om_Namespace m) (om_Name m)"

record ObjectReference =
  ref_Kind :: string
  ref_Name :: string
  ref_Namespace :: string

record ResourceRequirements =
  rr_Limits :: "string \<rightharpoonup> string"
  rr_Requests :: "string \<rightharpoonup> string"

subsection \<open>Pods\<close>

record PodSecurityContext =
  psc_RunAsNonRoot :: "bool option"
  psc_RunAsUser :: "int64 option"
  psc_SeccompProfile :: "string option"

record SecurityContext =
  sc_AllowPrivilegeEscalation :: "bool option"
  sc_ReadOnlyRootFilesystem :: "bool option"
  sc_Capabilities_Drop :: "string list option"

record EnvVar =
  ev_Name :: string
  ev_Value :: string

record VolumeMount =
  vm_Name :: string
  vm_MountPath :: string
  vm_ReadOnly :: bool

record Container =
  c_Name :: string
  c_Image :: string
  c_Command :: "string list"
  c_Env :: "EnvVar list"
  c_TerminationMessagePath :: string
  c_TerminationMessagePolicy :: string
  c_SecurityContext :: "SecurityContext option"
  c_VolumeMounts :: "VolumeMount list"
  c_Resources :: ResourceRequirements

definition empty_container :: Container where
  "empty_container = \<lparr>c_Name = '''', c_Image = '''', c_Command = [], c_Env = [],
     c_TerminationMessagePath = '''', c_TerminationMessagePolicy = '''',
     c_SecurityContext = None, c_VolumeMounts = [],
     c_Resources = \<lparr>rr_Limits = Map.empty, rr_Requests = Map.empty\<rparr>\<rparr>"

text \<open>The two volume sources in use; an empty directory may have a size limit in bytes.\<close>

datatype VolumeSource = ConfigMapVolume string | EmptyDirVolume "int64 option"

record Volume =
  vol_Name :: string
  vol_Source :: VolumeSource

record PodSpec =
  ps_RestartPolicy :: string
  ps_SecurityContext :: "PodSecurityContext option"
  ps_Containers :: "Container list"
  ps_Volumes :: "Volume list"

record ContainerStateWaiting =
  csw_Reason :: string
  csw_Message :: string

record ContainerStateTerminated =
  cst_ExitCode :: int32
  cst_Reason :: string
  cst_Message :: string

record ContainerStatus =
  cs_Name :: string
  cs_Image :: string
  cs_Waiting :: "ContainerStateWaiting option"
  cs_Terminated :: "ContainerStateTerminated option"

record PodStatus =
  pst_Phase :: string
  pst_ContainerStatuses :: "ContainerStatus list"

record Pod =
  pod_Meta :: ObjectMeta
  pod_Spec :: PodSpec
  pod_Status :: PodStatus

text \<open>Constants of corev1 the code compares with or sets.\<close>

definition PodPending :: string where "PodPending = ''Pending''"
definition PodRunning :: string where "PodRunning = ''Running''"
definition PodSucceeded :: string where "PodSucceeded = ''Succeeded''"
definition PodFailed :: string where "PodFailed = ''Failed''"

lemmas pod_phase_defs = PodPending_def PodRunning_def PodSucceeded_def PodFailed_def

lemma pod_phase_distinct [simp]:
  "PodPending \<noteq> PodRunning" "PodRunning \<noteq> PodPending"
  "PodPending \<noteq> PodSucceeded" "PodSucceeded \<noteq> PodPending"
  "PodPending \<noteq> PodFailed" "PodFailed \<noteq> PodPending"
  "PodRunning \<noteq> PodSucceeded" "PodSucceeded \<noteq> PodRunning"
  "PodRunning \<noteq> PodFailed" "PodFailed \<noteq> PodRunning"
  "PodSucceeded \<noteq> PodFailed" "PodFailed \<noteq> PodSucceeded"
  by (simp_all add: pod_phase_defs)

subsection \<open>Config maps, network policies, sandboxes\<close>

record ConfigMap =
  cm_Meta :: ObjectMeta
  cm_Data :: "string \<rightharpoonup> string"

datatype PolicyType = PolicyTypeIngress | PolicyTypeEgress

text \<open>A rule lists the peers it admits; the operator only writes empty rule lists.\<close>

datatype NetworkPolicyRule = AllowPeers "string list"

record NetworkPolicy =
  np_Meta :: ObjectMeta
  np_PodSelector :: "string \<rightharpoonup> string"
  np_PolicyTypes :: "PolicyType list"
  np_Ingress :: "NetworkPolicyRule list"
  np_Egress :: "NetworkPolicyRule list"

record Sandbox =
  sb_GVK :: GroupVersionKind
  sb_Meta :: ObjectMeta
  sb_image :: string
  sb_command :: "string list"

text \<open>
  What a network policy means for a pod: it selects the pods of its namespace that carry
  every selector label, and a direction it lists is denied where it has no rule for it.
\<close>

definition np_selects :: "NetworkPolicy \<Rightarrow> ObjectMeta \<Rightarrow> bool" where
  "np_selects np m \<longleftrightarrow> om_Namespace (np_Meta np) = om_Namespace m
     \<and> np_PodSelector np \<subseteq>\<^sub>m om_Labels m"

definition np_denies_all :: "NetworkPolicy \<Rightarrow> bool" where
  "np_denies_all np \<longleftrightarrow> PolicyTypeIngress \<in> set (np_PolicyTypes np) \<and> np_Ingress np = []
     \<and> PolicyTypeEgress \<in> set (np_PolicyTypes np) \<and> np_Egress np = []"

end
