(* ===== verification/AgentTaskTypes.thy ===== *)
theory AgentTaskTypes
  imports KubeObjects
begin

text \<open>
  The AgentTask custom resource of api/v1alpha1: the structs of agenttask_types.go as
  records with the same fields, the phase and reason constants as strings, and the group
  version of groupversion_info.go. Two shorthands read and classify the phase.
\<close>

record ConfigMapKeySelector =
  cmks_Name :: string
  cmks_Key :: string
  cmks_Optional :: "bool option"

record CodeSource =
  code_Source :: string
  code_ConfigMapRef :: "ConfigMapKeySelector option"

record AgentTaskSpec =
  spec_RuntimeProfile :: string
  spec_Code :: CodeSource
  spec_Resources :: ResourceRequirements
  spec_TimeoutSeconds :: int32
  spec_Backend :: string
  spec_Tenant :: string
  spec_Canceled :: bool
  spec_TTLSecondsAfterFinished :: "int32 option"

record ExecutionResult =
  er_JSON :: string

record Condition =
  cond_Type :: string
  cond_Status :: string
  cond_Reason :: string
  cond_Message :: string

record AgentTaskStatus =
  status_Phase :: string
  status_PodRef :: ObjectReference
  status_Result :: "ExecutionResult option"
  status_Conditions :: "Condition list"
  status_ExitCode :: int32
  status_Reason :: string
  status_Message :: string
  status_StartTime :: "instant option"
  status_CompletionTime :: "instant option"

record AgentTask =
  task_Meta :: ObjectMeta
  task_Spec :: AgentTaskSpec
  task_Status :: AgentTaskStatus

record AgentTaskList =
  list_Items :: "AgentTask list"

text \<open>The zero values of the spec and status structs.\<close>

definition empty_ref :: ObjectReference where
  "empty_ref = \<lparr>ref_Kind = '''', ref_Name = '''', ref_Namespace = ''''\<rparr>"

definition empty_spec :: AgentTaskSpec where
  "empty_spec = \<lparr>spec_RuntimeProfile = '''',
     spec_Code = \<lparr>code_Source = '''', code_ConfigMapRef = None\<rparr>,
     spec_Resources = \<lparr>rr_Limits = Map.empty, rr_Requests = Map.empty\<rparr>,
     spec_TimeoutSeconds = 0, spec_Backend = '''', spec_Tenant = '''', spec_Canceled = False,
     spec_TTLSecondsAfterFinished = None\<rparr>"

definition empty_status :: AgentTaskStatus where
  "empty_status = \<lparr>status_Phase = '''', status_PodRef = empty_ref, status_Result = None,
     status_Conditions = [], status_ExitCode = 0, status_Reason = '''', status_Message = '''',
     status_StartTime = None, status_CompletionTime = None\<rparr>"

subsection \<open>Phases\<close>

definition AgentTaskPhasePending :: string where "AgentTaskPhasePending = ''Pending''"
definition AgentTaskPhaseScheduled :: string where "AgentTaskPhaseScheduled = ''Scheduled''"
definition AgentTaskPhaseRunning :: string where "AgentTaskPhaseRunning = ''Running''"
definition AgentTaskPhaseSucceeded :: string where "AgentTaskPhaseSucceeded = ''Succeeded''"
definition AgentTaskPhaseFailed :: string where "AgentTaskPhaseFailed = ''Failed''"
definition AgentTaskPhaseTimeout :: string where "AgentTaskPhaseTimeout = ''Timeout''"
definition AgentTaskPhaseCanceled :: string where "AgentTaskPhaseCanceled = ''Canceled''"

lemmas phase_defs = AgentTaskPhasePending_def AgentTaskPhaseScheduled_def
  AgentTaskPhaseRunning_def AgentTaskPhaseSucceeded_def AgentTaskPhaseFailed_def
  AgentTaskPhaseTimeout_def AgentTaskPhaseCanceled_def

text \<open>The seven phases and the empty one, in the order of the constants.\<close>

definition all_phases :: "string list" where
  "all_phases = ['''', AgentTaskPhasePending, AgentTaskPhaseScheduled, AgentTaskPhaseRunning,
     AgentTaskPhaseSucceeded, AgentTaskPhaseFailed, AgentTaskPhaseTimeout, AgentTaskPhaseCanceled]"

lemma distinct_all_phases: "distinct all_phases"
  by (simp add: all_phases_def phase_defs)

lemma phase_distinct [simp]:
  "AgentTaskPhasePending \<noteq> ''''" "'''' \<noteq> AgentTaskPhasePending"
  "AgentTaskPhaseScheduled \<noteq> ''''" "'''' \<noteq> AgentTaskPhaseScheduled"
  "AgentTaskPhaseRunning \<noteq> ''''" "'''' \<noteq> AgentTaskPhaseRunning"
  "AgentTaskPhaseSucceeded \<noteq> ''''" "'''' \<noteq> AgentTaskPhaseSucceeded"
  "AgentTaskPhaseFailed \<noteq> ''''" "'''' \<noteq> AgentTaskPhaseFailed"
  "AgentTaskPhaseTimeout \<noteq> ''''" "'''' \<noteq> AgentTaskPhaseTimeout"
  "AgentTaskPhaseCanceled \<noteq> ''''" "'''' \<noteq> AgentTaskPhaseCanceled"
  "AgentTaskPhasePending \<noteq> AgentTaskPhaseScheduled"
  "AgentTaskPhaseScheduled \<noteq> AgentTaskPhasePending"
  "AgentTaskPhasePending \<noteq> AgentTaskPhaseRunning"
  "AgentTaskPhaseRunning \<noteq> AgentTaskPhasePending"
  "AgentTaskPhasePending \<noteq> AgentTaskPhaseSucceeded"
  "AgentTaskPhaseSucceeded \<noteq> AgentTaskPhasePending"
  "AgentTaskPhasePending \<noteq> AgentTaskPhaseFailed"
  "AgentTaskPhaseFailed \<noteq> AgentTaskPhasePending"
  "AgentTaskPhasePending \<noteq> AgentTaskPhaseTimeout"
  "AgentTaskPhaseTimeout \<noteq> AgentTaskPhasePending"
  "AgentTaskPhasePending \<noteq> AgentTaskPhaseCanceled"
  "AgentTaskPhaseCanceled \<noteq> AgentTaskPhasePending"
  "AgentTaskPhaseScheduled \<noteq> AgentTaskPhaseRunning"
  "AgentTaskPhaseRunning \<noteq> AgentTaskPhaseScheduled"
  "AgentTaskPhaseScheduled \<noteq> AgentTaskPhaseSucceeded"
  "AgentTaskPhaseSucceeded \<noteq> AgentTaskPhaseScheduled"
  "AgentTaskPhaseScheduled \<noteq> AgentTaskPhaseFailed"
  "AgentTaskPhaseFailed \<noteq> AgentTaskPhaseScheduled"
  "AgentTaskPhaseScheduled \<noteq> AgentTaskPhaseTimeout"
  "AgentTaskPhaseTimeout \<noteq> AgentTaskPhaseScheduled"
  "AgentTaskPhaseScheduled \<noteq> AgentTaskPhaseCanceled"
  "AgentTaskPhaseCanceled \<noteq> AgentTaskPhaseScheduled"
  "AgentTaskPhaseRunning \<noteq> AgentTaskPhaseSucceeded"
  "AgentTaskPhaseSucceeded \<noteq> AgentTaskPhaseRunning"
  "AgentTaskPhaseRunning \<noteq> AgentTaskPhaseFailed"
  "AgentTaskPhaseFailed \<noteq> AgentTaskPhaseRunning"
  "AgentTaskPhaseRunning \<noteq> AgentTaskPhaseTimeout"
  "AgentTaskPhaseTimeout \<noteq> AgentTaskPhaseRunning"
  "AgentTaskPhaseRunning \<noteq> AgentTaskPhaseCanceled"
  "AgentTaskPhaseCanceled \<noteq> AgentTaskPhaseRunning"
  "AgentTaskPhaseSucceeded \<noteq> AgentTaskPhaseFailed"
  "AgentTaskPhaseFailed \<noteq> AgentTaskPhaseSucceeded"
  "AgentTaskPhaseSucceeded \<noteq> AgentTaskPhaseTimeout"
  "AgentTaskPhaseTimeout \<noteq> AgentTaskPhaseSucceeded"
  "AgentTaskPhaseSucceeded \<noteq> AgentTaskPhaseCanceled"
  "AgentTaskPhaseCanceled \<noteq> AgentTaskPhaseSucceeded"
  "AgentTaskPhaseFailed \<noteq> AgentTaskPhaseTimeout"
  "AgentTaskPhaseTimeout \<noteq> AgentTaskPhaseFailed"
  "AgentTaskPhaseFailed \<noteq> AgentTaskPhaseCanceled"
  "AgentTaskPhaseCanceled \<noteq> AgentTaskPhaseFailed"
  "AgentTaskPhaseTimeout \<noteq> AgentTaskPhaseCanceled"
  "AgentTaskPhaseCanceled \<noteq> AgentTaskPhaseTimeout"
  using distinct_all_phases by (auto simp: all_phases_def)

abbreviation task_Name :: "AgentTask \<Rightarrow> string" where
  "task_Name t \<equiv> om_Name (task_Meta t)"

abbreviation task_Namespace :: "AgentTask \<Rightarrow> string" where
  "task_Namespace t \<equiv> om_Namespace (task_Meta t)"

abbreviation task_Phase :: "AgentTask \<Rightarrow> string" where
  "task_Phase t \<equiv> status_Phase (task_Status t)"

text \<open>The documented terminal phases (docs/architecture.md, CRD State Machine).\<close>

definition terminal_phases :: "string set" where
  "terminal_phases = {AgentTaskPhaseSucceeded, AgentTaskPhaseFailed, AgentTaskPhaseTimeout,
     AgentTaskPhaseCanceled}"

subsection \<open>Reasons\<close>

definition AgentTaskReasonPodFailed :: string where
  "AgentTaskReasonPodFailed = ''PodFailed''"
definition AgentTaskReasonTimeout :: string where
  "AgentTaskReasonTimeout = ''Timeout''"
definition AgentTaskReasonCanceled :: string where
  "AgentTaskReasonCanceled = ''Canceled''"
definition AgentTaskReasonPodMissing :: string where
  "AgentTaskReasonPodMissing = ''PodMissing''"
definition AgentTaskReasonImagePullFailed :: string where
  "AgentTaskReasonImagePullFailed = ''ImagePullFailed''"
definition AgentTaskReasonProfileResolutionFailed :: string where
  "AgentTaskReasonProfileResolutionFailed = ''ProfileResolutionFailed''"
definition AgentTaskReasonBackendSelectionFailed :: string where
  "AgentTaskReasonBackendSelectionFailed = ''BackendSelectionFailed''"
definition AgentTaskReasonValidationFailed :: string where
  "AgentTaskReasonValidationFailed = ''ValidationFailed''"

subsection \<open>Group version\<close>

definition GroupVersion :: "string \<times> string" where
  "GroupVersion = (''execution.agenttask.io'', ''v1alpha1'')"

definition WithKind :: "string \<times> string \<Rightarrow> string \<Rightarrow> GroupVersionKind" where
  "WithKind gv kind = \<lparr>gvk_Group = fst gv, gvk_Version = snd gv, gvk_Kind = kind\<rparr>"

end
