(* ===== verification/ClientEnv.thy ===== *)
theory ClientEnv
  imports AgentTaskTypes
begin

text \<open>
  Everything the operator calls that is not its own code is a field of the record
  \<open>env\<close>, a parameter of every definition that uses it: the controller-runtime client
  (one field per request and object kind), the clock, the three controllerutil functions on
  finalizers and \<^verbatim>\<open>metav1.NewControllerRef\<close>. A request takes the world \<^typ>\<open>'w\<close> and
  returns the client's answer with the next world; nothing is assumed of it, so the world may
  hold the API server, its caches and the other actors of the cluster, which may act between
  any two requests. A request that decodes the server's answer into its argument returns the
  decoded object.

  The state of the code is the world together with the history of its effects: each
  request with its answer, each reading of the clock, each update of a Prometheus
  collector. The history is only written, never read, by the code.
\<close>

record 'w env =
  env_GetTask :: "NamespacedName \<Rightarrow> 'w \<Rightarrow> (gerror + AgentTask) \<times> 'w"
  env_ListTasks :: "string \<Rightarrow> 'w \<Rightarrow> (gerror + AgentTaskList) \<times> 'w"
  env_CreateTask :: "AgentTask \<Rightarrow> 'w \<Rightarrow> (gerror + AgentTask) \<times> 'w"
  env_UpdateTask :: "AgentTask \<Rightarrow> 'w \<Rightarrow> (gerror + AgentTask) \<times> 'w"
  env_UpdateTaskStatus :: "AgentTask \<Rightarrow> 'w \<Rightarrow> (gerror + AgentTask) \<times> 'w"
  env_DeleteTask :: "AgentTask \<Rightarrow> 'w \<Rightarrow> gerror option \<times> 'w"
  env_GetPod :: "NamespacedName \<Rightarrow> 'w \<Rightarrow> (gerror + Pod) \<times> 'w"
  env_CreatePod :: "Pod \<Rightarrow> 'w \<Rightarrow> (gerror + Pod) \<times> 'w"
  env_DeletePod :: "Pod \<Rightarrow> 'w \<Rightarrow> gerror option \<times> 'w"
  env_GetConfigMap :: "NamespacedName \<Rightarrow> 'w \<Rightarrow> (gerror + ConfigMap) \<times> 'w"
  env_CreateConfigMap :: "ConfigMap \<Rightarrow> 'w \<Rightarrow> (gerror + ConfigMap) \<times> 'w"
  env_GetNetworkPolicy :: "NamespacedName \<Rightarrow> 'w \<Rightarrow> (gerror + NetworkPolicy) \<times> 'w"
  env_CreateNetworkPolicy :: "NetworkPolicy \<Rightarrow> 'w \<Rightarrow> (gerror + NetworkPolicy) \<times> 'w"
  env_GetCRD :: "GroupVersionKind \<Rightarrow> string \<Rightarrow> 'w \<Rightarrow> gerror option \<times> 'w"
  env_GetSandbox :: "NamespacedName \<Rightarrow> 'w \<Rightarrow> (gerror + Sandbox) \<times> 'w"
  env_CreateSandbox :: "Sandbox \<Rightarrow> 'w \<Rightarrow> (gerror + Sandbox) \<times> 'w"
  env_Now :: "'w \<Rightarrow> instant \<times> 'w"
  env_ContainsFinalizer :: "AgentTask \<Rightarrow> string \<Rightarrow> bool"
  env_AddFinalizer :: "AgentTask \<Rightarrow> string \<Rightarrow> AgentTask"
  env_RemoveFinalizer :: "AgentTask \<Rightarrow> string \<Rightarrow> AgentTask"
  env_NewControllerRef :: "ObjectMeta \<Rightarrow> GroupVersionKind \<Rightarrow> OwnerReference"

datatype event =
    Get_Task NamespacedName "gerror + AgentTask"
  | List_Tasks string "gerror + AgentTaskList"
  | Create_Task AgentTask "gerror + AgentTask"
  | Update_Task AgentTask "gerror + AgentTask"
  | Update_Status AgentTask "gerror + AgentTask"
  | Delete_Task AgentTask "gerror option"
  | Get_Pod NamespacedName "gerror + Pod"
  | Create_Pod Pod "gerror + Pod"
  | Delete_Pod Pod "gerror option"
  | Get_ConfigMap NamespacedName "gerror + ConfigMap"
  | Create_ConfigMap ConfigMap "gerror + ConfigMap"
  | Get_NetworkPolicy NamespacedName "gerror + NetworkPolicy"
  | Create_NetworkPolicy NetworkPolicy "gerror + NetworkPolicy"
  | Get_CRD GroupVersionKind string "gerror option"
  | Get_Sandbox NamespacedName "gerror + Sandbox"
  | Create_Sandbox Sandbox "gerror + Sandbox"
  | Read_Clock instant
  | Counter_Inc string string
  | Histogram_Observe string duration

record 'w st =
  st_world :: 'w
  st_log :: "event list"

type_synonym ('w, 'a) act = "('w st, 'a) state"

definition start :: "'w \<Rightarrow> 'w st" where
  "start w = \<lparr>st_world = w, st_log = []\<rparr>"

lemma start_simps [simp]: "st_world (start w) = w" "st_log (start w) = []"
  by (simp_all add: start_def)

subsection \<open>Requests\<close>

definition call :: "('w \<Rightarrow> 'a \<times> 'w) \<Rightarrow> ('a \<Rightarrow> event) \<Rightarrow> ('w, 'a) act" where
  "call f ev = State (\<lambda>s. case f (st_world s) of
     (r, w) \<Rightarrow> (r, \<lparr>st_world = w, st_log = st_log s @ [ev r]\<rparr>))"

definition emit :: "event \<Rightarrow> ('w, unit) act" where
  "emit e = State (\<lambda>s. ((), s\<lparr>st_log := st_log s @ [e]\<rparr>))"

definition GetTask :: "'w env \<Rightarrow> NamespacedName \<Rightarrow> ('w, gerror + AgentTask) act" where
  "GetTask E k = call (env_GetTask E k) (Get_Task k)"

definition ListTasks :: "'w env \<Rightarrow> string \<Rightarrow> ('w, gerror + AgentTaskList) act" where
  "ListTasks E ns = call (env_ListTasks E ns) (List_Tasks ns)"

definition CreateTask :: "'w env \<Rightarrow> AgentTask \<Rightarrow> ('w, gerror + AgentTask) act" where
  "CreateTask E t = call (env_CreateTask E t) (Create_Task t)"

definition UpdateTask :: "'w env \<Rightarrow> AgentTask \<Rightarrow> ('w, gerror + AgentTask) act" where
  "UpdateTask E t = call (env_UpdateTask E t) (Update_Task t)"

definition UpdateTaskStatus :: "'w env \<Rightarrow> AgentTask \<Rightarrow> ('w, gerror + AgentTask) act" where
  "UpdateTaskStatus E t = call (env_UpdateTaskStatus E t) (Update_Status t)"

definition DeleteTask :: "'w env \<Rightarrow> AgentTask \<Rightarrow> ('w, gerror option) act" where
  "DeleteTask E t = call (env_DeleteTask E t) (Delete_Task t)"

definition GetPod :: "'w env \<Rightarrow> NamespacedName \<Rightarrow> ('w, gerror + Pod) act" where
  "GetPod E k = call (env_GetPod E k) (Get_Pod k)"

definition CreatePod :: "'w env \<Rightarrow> Pod \<Rightarrow> ('w, gerror + Pod) act" where
  "CreatePod E p = call (env_CreatePod E p) (Create_Pod p)"

definition DeletePod :: "'w env \<Rightarrow> Pod \<Rightarrow> ('w, gerror option) act" where
  "DeletePod E p = call (env_DeletePod E p) (Delete_Pod p)"

definition GetConfigMap :: "'w env \<Rightarrow> NamespacedName \<Rightarrow> ('w, gerror + ConfigMap) act" where
  "GetConfigMap E k = call (env_GetConfigMap E k) (Get_ConfigMap k)"

definition CreateConfigMap :: "'w env \<Rightarrow> ConfigMap \<Rightarrow> ('w, gerror + ConfigMap) act" where
  "CreateConfigMap E c = call (env_CreateConfigMap E c) (Create_ConfigMap c)"

definition GetNetworkPolicy :: "'w env \<Rightarrow> NamespacedName \<Rightarrow> ('w, gerror + NetworkPolicy) act" where
  "GetNetworkPolicy E k = call (env_GetNetworkPolicy E k) (Get_NetworkPolicy k)"

definition CreateNetworkPolicy :: "'w env \<Rightarrow> NetworkPolicy \<Rightarrow> ('w, gerror + NetworkPolicy) act" where
  "CreateNetworkPolicy E p = call (env_CreateNetworkPolicy E p) (Create_NetworkPolicy p)"

definition GetCRD :: "'w env \<Rightarrow> GroupVersionKind \<Rightarrow> string \<Rightarrow> ('w, gerror option) act" where
  "GetCRD E gvk name = call (env_GetCRD E gvk name) (Get_CRD gvk name)"

definition GetSandbox :: "'w env \<Rightarrow> NamespacedName \<Rightarrow> ('w, gerror + Sandbox) act" where
  "GetSandbox E k = call (env_GetSandbox E k) (Get_Sandbox k)"

definition CreateSandbox :: "'w env \<Rightarrow> Sandbox \<Rightarrow> ('w, gerror + Sandbox) act" where
  "CreateSandbox E b = call (env_CreateSandbox E b) (Create_Sandbox b)"

definition Now :: "'w env \<Rightarrow> ('w, instant) act" where
  "Now E = call (env_Now E) Read_Clock"

lemmas request_defs = GetTask_def ListTasks_def CreateTask_def UpdateTask_def
  UpdateTaskStatus_def DeleteTask_def GetPod_def CreatePod_def DeletePod_def GetConfigMap_def
  CreateConfigMap_def GetNetworkPolicy_def CreateNetworkPolicy_def GetCRD_def GetSandbox_def
  CreateSandbox_def Now_def

text \<open>\<^verbatim>\<open>tasksTotal.WithLabelValues(phase, reason).Inc()\<close> and
  \<^verbatim>\<open>taskDuration.WithLabelValues(phase).Observe(d)\<close>.\<close>

definition tasksTotal_Inc :: "string \<Rightarrow> string \<Rightarrow> ('w, unit) act" where
  "tasksTotal_Inc phase reason = emit (Counter_Inc phase reason)"

definition taskDuration_Observe :: "string \<Rightarrow> duration \<Rightarrow> ('w, unit) act" where
  "taskDuration_Observe phase d = emit (Histogram_Observe phase d)"

subsection \<open>The calculus for requests\<close>

lemma run_call:
  "run_state (call f ev) s = (case f (st_world s) of
     (r, w) \<Rightarrow> (r, \<lparr>st_world = w, st_log = st_log s @ [ev r]\<rparr>))"
  by (simp add: call_def)

lemma run_emit [simp]: "run_state (emit e) s = ((), s\<lparr>st_log := st_log s @ [e]\<rparr>)"
  by (simp add: emit_def)

lemma wp_call [wp_simps]:
  "wp (call f ev) Q s = (case f (st_world s) of
     (r, w) \<Rightarrow> Q r \<lparr>st_world = w, st_log = st_log s @ [ev r]\<rparr>)"
  by (simp add: wp_def run_call split: prod.splits)

lemma wp_emit [wp_simps]: "wp (emit e) Q s = Q () (s\<lparr>st_log := st_log s @ [e]\<rparr>)"
  by (simp add: wp_def)

text \<open>For a goal that holds whatever the environment answers.\<close>

lemma wp_callI [wp_intro]:
  "(\<And>r w. Q r \<lparr>st_world = w, st_log = st_log s @ [ev r]\<rparr>) \<Longrightarrow> wp (call f ev) Q s"
  by (simp add: wp_call split: prod.splits)

lemma wp_emitI [wp_intro]: "Q () (s\<lparr>st_log := st_log s @ [e]\<rparr>) \<Longrightarrow> wp (emit e) Q s"
  by (simp add: wp_emit)

lemmas metric_defs = tasksTotal_Inc_def taskDuration_Observe_def

lemmas effect_defs = request_defs metric_defs

subsection \<open>What a reconcile knows from its history\<close>

text \<open>
  \<open>fetched\<close> is the task the last successful task read returned (nothing after a failed
  one); \<open>recent\<close> are the events since the last task read; \<open>clock\<close> is the last reading of
  the clock.
\<close>

fun fetched_step :: "event \<Rightarrow> AgentTask option \<Rightarrow> AgentTask option" where
  "fetched_step (Get_Task k (Inr t)) r = Some t"
| "fetched_step (Get_Task k (Inl e)) r = None"
| "fetched_step e r = r"

fun recent_step :: "event \<Rightarrow> event list \<Rightarrow> event list" where
  "recent_step (Get_Task k r) es = []"
| "recent_step e es = es @ [e]"

fun clock_step :: "event \<Rightarrow> instant option \<Rightarrow> instant option" where
  "clock_step (Read_Clock t) r = Some t"
| "clock_step e r = r"

definition fetched :: "event list \<Rightarrow> AgentTask option" where
  "fetched = register fetched_step None"

definition recent :: "event list \<Rightarrow> event list" where
  "recent = register recent_step []"

definition clock :: "event list \<Rightarrow> instant option" where
  "clock = register clock_step None"

lemma registers_append [simp]:
  "fetched (h @ es) = fold fetched_step es (fetched h)"
  "recent (h @ es) = fold recent_step es (recent h)"
  "clock (h @ es) = fold clock_step es (clock h)"
  by (simp_all add: fetched_def recent_def clock_def)

lemma registers_Nil [simp]: "fetched [] = None" "recent [] = []" "clock [] = None"
  by (simp_all add: fetched_def recent_def clock_def)

end
