(* ===== verification/TaskResources.thy ===== *)
theory TaskResources
  imports ClientEnv
begin

text \<open>
  The objects a task owns and the three operations of agenttask_controller.go that make sure
  they exist: the config map with the code, the default-deny network policy and the pod.
  Each operation reads the object first and creates it only when the read says it is absent.
\<close>

definition containerTaskName :: string where
  "containerTaskName = ''task''"

definition task_owner :: "'w env \<Rightarrow> AgentTask \<Rightarrow> OwnerReference" where
  "task_owner E task = env_NewControllerRef E (task_Meta task) (WithKind GroupVersion ''AgentTask'')"

subsection \<open>The config map with the code\<close>

definition code_config_map :: "'w env \<Rightarrow> AgentTask \<Rightarrow> ConfigMap" where
  "code_config_map E task = \<lparr>
     cm_Meta = empty_meta\<lparr>om_Name := task_Name task @ ''-code'',
       om_Namespace := task_Namespace task, om_OwnerReferences := [task_owner E task]\<rparr>,
     cm_Data = [''entrypoint.py'' \<mapsto> code_Source (spec_Code (task_Spec task))]\<rparr>"

definition ensureCodeConfigMap :: "'w env \<Rightarrow> AgentTask \<Rightarrow> ('w, gerror + string) act" where
  "ensureCodeConfigMap E task =
     (case code_ConfigMapRef (spec_Code (task_Spec task)) of
        Some r \<Rightarrow> ret (Inr (cmks_Name r))
      | None \<Rightarrow>
          (if code_Source (spec_Code (task_Spec task)) \<noteq> '''' then do {
             let cmName = task_Name task @ ''-code'';
             r \<leftarrow> GetConfigMap E (NamespacedName (task_Namespace task) cmName);
             (case r of
                Inl err \<Rightarrow>
                  (if IsNotFound err then do {
                     c \<leftarrow> CreateConfigMap E (code_config_map E task);
                     (case c of Inl err \<Rightarrow> ret (Inl err) | Inr cm \<Rightarrow> ret (Inr cmName))
                   } else ret (Inl err))
              | Inr cm \<Rightarrow> ret (Inr cmName))
           } else ret (Inr '''')))"

subsection \<open>The network policy\<close>

definition task_network_policy :: "'w env \<Rightarrow> AgentTask \<Rightarrow> NetworkPolicy" where
  "task_network_policy E task = \<lparr>
     np_Meta = empty_meta\<lparr>om_Name := task_Name task @ ''-netpol'',
       om_Namespace := task_Namespace task, om_OwnerReferences := [task_owner E task]\<rparr>,
     np_PodSelector = [''agenttask.io/task'' \<mapsto> task_Name task],
     np_PolicyTypes = [PolicyTypeIngress, PolicyTypeEgress],
     np_Ingress = [],
     np_Egress = []\<rparr>"

definition ensureNetworkPolicy :: "'w env \<Rightarrow> AgentTask \<Rightarrow> ('w, gerror option) act" where
  "ensureNetworkPolicy E task = do {
     let npName = task_Name task @ ''-netpol'';
     r \<leftarrow> GetNetworkPolicy E (NamespacedName (task_Namespace task) npName);
     (case r of
        Inl err \<Rightarrow>
          (if IsNotFound err then do {
             c \<leftarrow> CreateNetworkPolicy E (task_network_policy E task);
             (case c of Inl err \<Rightarrow> ret (Some err) | Inr np \<Rightarrow> ret None)
           } else ret (Some err))
      | Inr np \<Rightarrow> ret None)
   }"

subsection \<open>The pod\<close>

definition task_labels :: "AgentTask \<Rightarrow> (string \<rightharpoonup> string)" where
  "task_labels task =
     (let labels = [''agenttask.io/task'' \<mapsto> task_Name task]
      in if spec_Tenant (task_Spec task) \<noteq> ''''
         then labels(''agenttask.io/tenant'' \<mapsto> spec_Tenant (task_Spec task)) else labels)"

definition task_container :: "AgentTask \<Rightarrow> string \<Rightarrow> Container" where
  "task_container task img = \<lparr>
     c_Name = containerTaskName,
     c_Image = img,
     c_Command = [''python'', ''/workspace/entrypoint.py''],
     c_Env = [\<lparr>ev_Name = ''PYTHONDONTWRITEBYTECODE'', ev_Value = ''1''\<rparr>,
              \<lparr>ev_Name = ''PYTHONUNBUFFERED'', ev_Value = ''1''\<rparr>],
     c_TerminationMessagePath = ''/workspace/artifacts/result.json'',
     c_TerminationMessagePolicy = ''File'',
     c_SecurityContext = Some \<lparr>sc_AllowPrivilegeEscalation = Some False,
       sc_ReadOnlyRootFilesystem = Some True, sc_Capabilities_Drop = Some [''ALL'']\<rparr>,
     c_VolumeMounts =
       [\<lparr>vm_Name = ''code'', vm_MountPath = ''/workspace'', vm_ReadOnly = True\<rparr>,
        \<lparr>vm_Name = ''tmp'', vm_MountPath = ''/tmp'', vm_ReadOnly = False\<rparr>,
        \<lparr>vm_Name = ''artifacts'', vm_MountPath = ''/workspace/artifacts'', vm_ReadOnly = False\<rparr>],
     c_Resources = spec_Resources (task_Spec task)\<rparr>"

definition collector_container :: Container where
  \<open>collector_container = empty_container\<lparr>
     c_Name := ''artifacts-collector'',
     c_Image := ''alpine:latest'',
     c_Command := [''/bin/sh'', ''-c'',
       ''while true; do if [ -d /workspace/artifacts ]; then for f in /workspace/artifacts/*; do if [ -f "$f" ]; then echo "Uploading artifact: $(basename $f)"; fi; done; fi; sleep 5; done''],
     c_VolumeMounts :=
       [\<lparr>vm_Name = ''artifacts'', vm_MountPath = ''/workspace/artifacts'', vm_ReadOnly = True\<rparr>]\<rparr>\<close>

definition task_pod :: "'w env \<Rightarrow> AgentTask \<Rightarrow> string \<Rightarrow> string \<Rightarrow> Pod" where
  "task_pod E task cmName img = \<lparr>
     pod_Meta = empty_meta\<lparr>om_Name := task_Name task @ ''-pod'',
       om_Namespace := task_Namespace task, om_Labels := task_labels task,
       om_OwnerReferences := [task_owner E task]\<rparr>,
     pod_Spec = \<lparr>
       ps_RestartPolicy = ''Never'',
       ps_SecurityContext = Some \<lparr>psc_RunAsNonRoot = Some True, psc_RunAsUser = Some 1000,
         psc_SeccompProfile = Some ''RuntimeDefault''\<rparr>,
       ps_Containers = [task_container task img, collector_container],
       ps_Volumes =
         [\<lparr>vol_Name = ''code'', vol_Source = ConfigMapVolume cmName\<rparr>,
          \<lparr>vol_Name = ''tmp'', vol_Source = EmptyDirVolume None\<rparr>,
          \<lparr>vol_Name = ''artifacts'', vol_Source = EmptyDirVolume (Some (100 * 1024 * 1024))\<rparr>]\<rparr>,
     pod_Status = \<lparr>pst_Phase = '''', pst_ContainerStatuses = []\<rparr>\<rparr>"

definition set_PodRef :: "ObjectReference \<Rightarrow> AgentTask \<Rightarrow> AgentTask" where
  "set_PodRef ref task = task\<lparr>task_Status := (task_Status task)\<lparr>status_PodRef := ref\<rparr>\<rparr>"

definition pod_ref :: "Pod \<Rightarrow> ObjectReference" where
  "pod_ref pod = \<lparr>ref_Kind = ''Pod'', ref_Name = om_Name (pod_Meta pod),
     ref_Namespace = om_Namespace (pod_Meta pod)\<rparr>"

definition ensurePod :: "'w env \<Rightarrow> AgentTask \<Rightarrow> string \<Rightarrow> string \<Rightarrow> ('w, gerror + AgentTask) act" where
  "ensurePod E task cmName img = do {
     let podName = task_Name task @ ''-pod'';
     r \<leftarrow> GetPod E (NamespacedName (task_Namespace task) podName);
     (case r of
        Inl err \<Rightarrow>
          (if IsNotFound err then do {
             c \<leftarrow> CreatePod E (task_pod E task cmName img);
             (case c of
                Inl err \<Rightarrow> ret (Inl err)
              | Inr pod \<Rightarrow> ret (Inr (set_PodRef (pod_ref pod) task)))
           } else ret (Inl err))
      | Inr pod \<Rightarrow> ret (Inr (set_PodRef (pod_ref pod) task)))
   }"

lemma set_PodRef_simps [simp]:
  "task_Meta (set_PodRef r t) = task_Meta t"
  "task_Spec (set_PodRef r t) = task_Spec t"
  "task_Phase (set_PodRef r t) = task_Phase t"
  "status_PodRef (task_Status (set_PodRef r t)) = r"
  "status_StartTime (task_Status (set_PodRef r t)) = status_StartTime (task_Status t)"
  "status_CompletionTime (task_Status (set_PodRef r t)) = status_CompletionTime (task_Status t)"
  by (simp_all add: set_PodRef_def)

subsection \<open>What the objects promise\<close>

text \<open>
  The pod contract of the README and the project brief: non-root user 1000, the runtime's
  seccomp profile, no restart; the task container without privilege escalation, without
  capabilities, on a read-only root file system.
\<close>

definition container_hardened :: "Container \<Rightarrow> bool" where
  "container_hardened c = (case c_SecurityContext c of
     None \<Rightarrow> False
   | Some sc \<Rightarrow> sc_AllowPrivilegeEscalation sc = Some False
       \<and> sc_ReadOnlyRootFilesystem sc = Some True \<and> sc_Capabilities_Drop sc = Some [''ALL''])"

definition pod_hardened :: "Pod \<Rightarrow> bool" where
  "pod_hardened p \<longleftrightarrow>
     ps_RestartPolicy (pod_Spec p) = ''Never''
   \<and> ps_SecurityContext (pod_Spec p) = Some \<lparr>psc_RunAsNonRoot = Some True,
       psc_RunAsUser = Some 1000, psc_SeccompProfile = Some ''RuntimeDefault''\<rparr>
   \<and> (\<exists>c \<in> set (ps_Containers (pod_Spec p)). c_Name c = containerTaskName)
   \<and> (\<forall>c \<in> set (ps_Containers (pod_Spec p)). c_Name c = containerTaskName \<longrightarrow> container_hardened c)"

text \<open>Every mount of a container names a volume of the pod.\<close>

definition mounts_resolve :: "Pod \<Rightarrow> bool" where
  "mounts_resolve p = (\<forall>c \<in> set (ps_Containers (pod_Spec p)). \<forall>m \<in> set (c_VolumeMounts c).
     vm_Name m \<in> vol_Name ` set (ps_Volumes (pod_Spec p)))"

lemma task_pod_hardened: "pod_hardened (task_pod E task cmName img)"
  by (simp add: pod_hardened_def task_pod_def task_container_def collector_container_def
      container_hardened_def containerTaskName_def)

lemma task_pod_mounts: "mounts_resolve (task_pod E task cmName img)"
  by (simp add: mounts_resolve_def task_pod_def task_container_def collector_container_def)

lemma task_network_policy_denies: "np_denies_all (task_network_policy E task)"
  by (simp add: np_denies_all_def task_network_policy_def)

lemma task_labels_task: "task_labels task ''agenttask.io/task'' = Some (task_Name task)"
  by (simp add: task_labels_def Let_def)

text \<open>The selector of a task's policy picks exactly the pods labelled with the task's name.\<close>

lemma task_network_policy_selects_iff:
  "np_selects (task_network_policy E task) m \<longleftrightarrow>
     om_Namespace m = task_Namespace task \<and> om_Labels m ''agenttask.io/task'' = Some (task_Name task)"
  by (auto simp: np_selects_def task_network_policy_def map_le_def)

lemma task_network_policy_selects_pod:
  "np_selects (task_network_policy E task) (pod_Meta (task_pod E task cmName img))"
  by (simp add: task_network_policy_selects_iff task_pod_def task_labels_task)

end
