(* ===== verification/TaskCompletion.thy ===== *)
theory TaskCompletion
  imports TaskResources
begin

text \<open>
  How a task becomes Failed or Succeeded (agenttask_controller.go, updatePhaseFailure,
  handlePodFailure, handlePodSuccess): the status the pod's container statuses give, the
  status write, the deletion of the pod, and the metrics around them.
\<close>

definition set_status :: "(AgentTaskStatus \<Rightarrow> AgentTaskStatus) \<Rightarrow> AgentTask \<Rightarrow> AgentTask" where
  "set_status f task = task\<lparr>task_Status := f (task_Status task)\<rparr>"

lemma set_status_simps [simp]:
  "task_Meta (set_status f t) = task_Meta t"
  "task_Spec (set_status f t) = task_Spec t"
  "task_Status (set_status f t) = f (task_Status t)"
  by (simp_all add: set_status_def)

definition update_error :: "gerror + AgentTask \<Rightarrow> gerror option" where
  "update_error r = (case r of Inl err \<Rightarrow> Some err | Inr t \<Rightarrow> None)"

text \<open>
  \<^verbatim>\<open>if task.Status.StartTime != nil { taskDuration...Observe(CompletionTime.Time.Sub(StartTime.Time)) }\<close>:
  reading the completion time through a nil pointer panics.
\<close>

definition observe_duration :: "string \<Rightarrow> AgentTask \<Rightarrow> ('w, gerror option) act" where
  "observe_duration phase task =
     (case status_StartTime (task_Status task) of
        None \<Rightarrow> ret None
      | Some start_time \<Rightarrow>
          (case status_CompletionTime (task_Status task) of
             None \<Rightarrow> ret (Some NilDereference)
           | Some completion \<Rightarrow> do {
               taskDuration_Observe phase (time_sub completion start_time);
               ret None
             }))"

definition updatePhaseFailure ::
  "'w env \<Rightarrow> AgentTask \<Rightarrow> string \<Rightarrow> string \<Rightarrow> ('w, gerror option) act" where
  "updatePhaseFailure E task reason message = do {
     now \<leftarrow> Now E;
     let task = set_status (\<lambda>st. st\<lparr>status_Phase := AgentTaskPhaseFailed,
       status_Reason := reason, status_Message := message,
       status_CompletionTime := Some now\<rparr>) task;
     tasksTotal_Inc ''Failed'' reason;
     p \<leftarrow> observe_duration ''Failed'' task;
     (case p of
        Some err \<Rightarrow> ret (Some err)
      | None \<Rightarrow> do {
          r \<leftarrow> UpdateTaskStatus E task;
          ret (update_error r)
        })
   }"

subsection \<open>Container statuses\<close>

definition image_pull_reason :: "ContainerStateWaiting \<Rightarrow> bool" where
  "image_pull_reason w \<longleftrightarrow> csw_Reason w = ''ImagePullBackOff'' \<or> csw_Reason w = ''ErrImagePull''"

definition image_pull_message :: "ContainerStatus \<Rightarrow> ContainerStateWaiting \<Rightarrow> string" where
  "image_pull_message cs w = ''Failed to pull image '' @ cs_Image cs @ '': '' @ csw_Message w"

text \<open>The waiting state of a container status that is stuck pulling its image.\<close>

definition image_pull_stuck :: "ContainerStatus \<Rightarrow> ContainerStateWaiting option" where
  "image_pull_stuck cs = (case cs_Waiting cs of
     None \<Rightarrow> None
   | Some w \<Rightarrow> (if image_pull_reason w then Some w else None))"

text \<open>The loop of \<^verbatim>\<open>handlePodFailure\<close> over the container statuses.\<close>

fun failure_from_statuses :: "ContainerStatus list \<Rightarrow> AgentTaskStatus \<Rightarrow> AgentTaskStatus" where
  "failure_from_statuses [] st = st"
| "failure_from_statuses (cs # css) st =
     (let st = (case image_pull_stuck cs of
                  None \<Rightarrow> st
                | Some w \<Rightarrow> st\<lparr>status_Reason := AgentTaskReasonImagePullFailed,
                    status_Message := image_pull_message cs w\<rparr>)
      in (case cs_Terminated cs of
            Some t \<Rightarrow>
              (if cs_Name cs = containerTaskName then
                 st\<lparr>status_ExitCode := cst_ExitCode t,
                    status_Message := (if cst_Message t \<noteq> '''' then cst_Message t
                                       else status_Message st),
                    status_Reason := cst_Reason t\<rparr>
               else failure_from_statuses css st)
          | None \<Rightarrow> failure_from_statuses css st))"

text \<open>The loop of \<^verbatim>\<open>handlePodSuccess\<close>.\<close>

fun success_from_statuses :: "ContainerStatus list \<Rightarrow> AgentTaskStatus \<Rightarrow> AgentTaskStatus" where
  "success_from_statuses [] st = st"
| "success_from_statuses (cs # css) st =
     (case cs_Terminated cs of
        Some t \<Rightarrow>
          (if cs_Name cs = containerTaskName then
             (let st = (if cst_Message t \<noteq> ''''
                        then st\<lparr>status_Result := Some \<lparr>er_JSON = cst_Message t\<rparr>\<rparr> else st)
              in st\<lparr>status_ExitCode := cst_ExitCode t\<rparr>)
           else success_from_statuses css st)
      | None \<Rightarrow> success_from_statuses css st)"

definition handlePodFailure :: "'w env \<Rightarrow> AgentTask \<Rightarrow> Pod \<Rightarrow> ('w, gerror option) act" where
  "handlePodFailure E task pod = do {
     now \<leftarrow> Now E;
     let task = set_status (\<lambda>st. st\<lparr>status_Phase := AgentTaskPhaseFailed,
       status_CompletionTime := Some now, status_Reason := AgentTaskReasonPodFailed,
       status_Message := ''The execution pod failed.''\<rparr>) task;
     tasksTotal_Inc ''Failed'' ''PodFailed'';
     p \<leftarrow> observe_duration ''Failed'' task;
     (case p of
        Some err \<Rightarrow> ret (Some err)
      | None \<Rightarrow> do {
          let task = set_status (failure_from_statuses (pst_ContainerStatuses (pod_Status pod))) task;
          r \<leftarrow> UpdateTaskStatus E task;
          (case r of
             Inl err \<Rightarrow> ret (Some err)
           | Inr task \<Rightarrow> do {
               d \<leftarrow> DeletePod E pod;
               (case d of
                  Some err \<Rightarrow>
                    (if \<not> IsNotFound err then ret (Some err)
                     else do {
                       tasksTotal_Inc ''Failed'' (status_Reason (task_Status task));
                       observe_duration ''Failed'' task
                     })
                | None \<Rightarrow> do {
                    tasksTotal_Inc ''Failed'' (status_Reason (task_Status task));
                    observe_duration ''Failed'' task
                  })
             })
        })
   }"

definition handlePodSuccess :: "'w env \<Rightarrow> AgentTask \<Rightarrow> Pod \<Rightarrow> ('w, gerror option) act" where
  "handlePodSuccess E task pod = do {
     now \<leftarrow> Now E;
     let task = set_status (\<lambda>st. st\<lparr>status_Phase := AgentTaskPhaseSucceeded,
       status_CompletionTime := Some now\<rparr>) task;
     let task = set_status (success_from_statuses (pst_ContainerStatuses (pod_Status pod))) task;
     r \<leftarrow> UpdateTaskStatus E task;
     (case r of
        Inl err \<Rightarrow> ret (Some err)
      | Inr task \<Rightarrow> do {
          d \<leftarrow> DeletePod E pod;
          (case d of
             Some err \<Rightarrow>
               (if \<not> IsNotFound err then ret (Some err)
                else do {
                  tasksTotal_Inc ''Succeeded'' ''PodSucceeded'';
                  observe_duration ''Succeeded'' task
                })
           | None \<Rightarrow> do {
               tasksTotal_Inc ''Succeeded'' ''PodSucceeded'';
               observe_duration ''Succeeded'' task
             })
        })
   }"

subsection \<open>What the loops compute\<close>

text \<open>
  The declarative reading of the two loops: the first terminated status of the task
  container decides; a failure without one reports the last container stuck on its image.
\<close>

definition terminated_task :: "ContainerStatus \<Rightarrow> bool" where
  "terminated_task cs \<longleftrightarrow> cs_Name cs = containerTaskName \<and> cs_Terminated cs \<noteq> None"

definition before_terminated :: "ContainerStatus list \<Rightarrow> ContainerStatus list" where
  "before_terminated css = takeWhile (\<lambda>cs. \<not> terminated_task cs) css"

definition with_image_pull :: "ContainerStatus \<Rightarrow> AgentTaskStatus \<Rightarrow> AgentTaskStatus" where
  "with_image_pull cs st = (case image_pull_stuck cs of
     None \<Rightarrow> st
   | Some w \<Rightarrow> st\<lparr>status_Reason := AgentTaskReasonImagePullFailed,
       status_Message := image_pull_message cs w\<rparr>)"

definition with_exit :: "ContainerStateTerminated \<Rightarrow> AgentTaskStatus \<Rightarrow> AgentTaskStatus" where
  "with_exit t st = st\<lparr>status_ExitCode := cst_ExitCode t,
     status_Message := (if cst_Message t \<noteq> '''' then cst_Message t else status_Message st),
     status_Reason := cst_Reason t\<rparr>"

lemma failure_from_statuses_Cons:
  "failure_from_statuses (cs # css) st =
     (if terminated_task cs then with_exit (the (cs_Terminated cs)) (with_image_pull cs st)
      else failure_from_statuses css (with_image_pull cs st))"
  by (auto simp: with_image_pull_def with_exit_def terminated_task_def Let_def
      split: option.splits)

declare failure_from_statuses.simps(2) [simp del]

lemma success_from_statuses_Cons:
  "success_from_statuses (cs # css) st =
     (if terminated_task cs then
        st\<lparr>status_ExitCode := cst_ExitCode (the (cs_Terminated cs)),
           status_Result := (if cst_Message (the (cs_Terminated cs)) \<noteq> ''''
             then Some \<lparr>er_JSON = cst_Message (the (cs_Terminated cs))\<rparr> else status_Result st)\<rparr>
      else success_from_statuses css st)"
  by (auto simp: terminated_task_def Let_def split: option.splits)

declare success_from_statuses.simps(2) [simp del]

text \<open>The loops only touch the outcome fields of the status.\<close>

lemma with_image_pull_frame [simp]:
  "status_Phase (with_image_pull cs st) = status_Phase st"
  "status_StartTime (with_image_pull cs st) = status_StartTime st"
  "status_CompletionTime (with_image_pull cs st) = status_CompletionTime st"
  "status_PodRef (with_image_pull cs st) = status_PodRef st"
  "status_ExitCode (with_image_pull cs st) = status_ExitCode st"
  by (auto simp: with_image_pull_def split: option.splits)

lemma with_exit_frame [simp]:
  "status_Phase (with_exit t st) = status_Phase st"
  "status_StartTime (with_exit t st) = status_StartTime st"
  "status_CompletionTime (with_exit t st) = status_CompletionTime st"
  "status_PodRef (with_exit t st) = status_PodRef st"
  by (simp_all add: with_exit_def)

lemma failure_from_statuses_frame [simp]:
  "status_Phase (failure_from_statuses css st) = status_Phase st"
  "status_StartTime (failure_from_statuses css st) = status_StartTime st"
  "status_CompletionTime (failure_from_statuses css st) = status_CompletionTime st"
  "status_PodRef (failure_from_statuses css st) = status_PodRef st"
  by (induction css arbitrary: st) (auto simp: failure_from_statuses_Cons)

lemma success_from_statuses_frame [simp]:
  "status_Phase (success_from_statuses css st) = status_Phase st"
  "status_StartTime (success_from_statuses css st) = status_StartTime st"
  "status_CompletionTime (success_from_statuses css st) = status_CompletionTime st"
  "status_PodRef (success_from_statuses css st) = status_PodRef st"
  by (induction css arbitrary: st) (auto simp: success_from_statuses_Cons)

lemma failure_from_statuses_spec:
  "failure_from_statuses css st =
     (case find terminated_task css of
        None \<Rightarrow> fold with_image_pull css st
      | Some cs \<Rightarrow> with_exit (the (cs_Terminated cs))
          (with_image_pull cs (fold with_image_pull (before_terminated css) st)))"
  by (induction css arbitrary: st)
     (auto simp: failure_from_statuses_Cons before_terminated_def split: option.split)

lemma success_from_statuses_spec:
  "success_from_statuses css st =
     (case find terminated_task css of
        None \<Rightarrow> st
      | Some cs \<Rightarrow> st\<lparr>status_ExitCode := cst_ExitCode (the (cs_Terminated cs)),
           status_Result := (if cst_Message (the (cs_Terminated cs)) \<noteq> ''''
             then Some \<lparr>er_JSON = cst_Message (the (cs_Terminated cs))\<rparr> else status_Result st)\<rparr>)"
  by (induction css arbitrary: st) (auto simp: success_from_statuses_Cons)

end
