(* ===== verification/SandboxManager.thy ===== *)
theory SandboxManager
  imports TaskResources
begin

text \<open>
  The sandbox manager (internal/platform/sandbox/manager.go): the Sandbox object of a task
  and the operation that returns a reference to it, creating it when it is absent.
\<close>

definition SandboxGVK :: GroupVersionKind where
  "SandboxGVK = \<lparr>gvk_Group = ''execution.agenttask.io'', gvk_Version = ''v1alpha1'',
     gvk_Kind = ''Sandbox''\<rparr>"

definition task_sandbox :: "'w env \<Rightarrow> AgentTask \<Rightarrow> string \<Rightarrow> Sandbox" where
  "task_sandbox E task img = \<lparr>
     sb_GVK = SandboxGVK,
     sb_Meta = empty_meta\<lparr>om_Name := task_Name task @ ''-sandbox'',
       om_Namespace := task_Namespace task, om_OwnerReferences := [task_owner E task]\<rparr>,
     sb_image = img,
     sb_command = [''python'', ''/workspace/entrypoint.py'']\<rparr>"

definition sandbox_ref :: "Sandbox \<Rightarrow> ObjectReference" where
  "sandbox_ref sb = \<lparr>ref_Kind = gvk_Kind SandboxGVK, ref_Name = om_Name (sb_Meta sb),
     ref_Namespace = om_Namespace (sb_Meta sb)\<rparr>"

definition EnsureSandbox ::
  "'w env \<Rightarrow> AgentTask \<Rightarrow> string \<Rightarrow> string \<Rightarrow> ('w, gerror + ObjectReference) act" where
  "EnsureSandbox E task cmName img = do {
     let sandboxName = task_Name task @ ''-sandbox'';
     r \<leftarrow> GetSandbox E (NamespacedName (task_Namespace task) sandboxName);
     (case r of
        Inr sandbox \<Rightarrow> ret (Inr (sandbox_ref sandbox))
      | Inl err \<Rightarrow>
          (if IgnoreNotFound err \<noteq> None then ret (Inl err)
           else do {
             c \<leftarrow> CreateSandbox E (task_sandbox E task img);
             (case c of
                Inl err \<Rightarrow> ret (Inl (FmtWrap ''failed to create sandbox: '' err))
              | Inr sandbox \<Rightarrow> ret (Inr (sandbox_ref sandbox)))
           }))
   }"

end
