(* ===== verification/BackendSelection.thy ===== *)
theory BackendSelection
  imports ClientEnv
begin

text \<open>
  Which backend runs a task and with which image (agenttask_controller.go, selectBackend,
  checkSandboxAvailability, resolveRuntimeProfile).
\<close>

definition backendAuto :: string where "backendAuto = ''auto''"
definition backendPod :: string where "backendPod = ''pod''"
definition backendSandbox :: string where "backendSandbox = ''sandbox''"

lemma backend_distinct [simp]:
  "backendAuto \<noteq> backendPod" "backendPod \<noteq> backendAuto"
  "backendAuto \<noteq> backendSandbox" "backendSandbox \<noteq> backendAuto"
  "backendPod \<noteq> backendSandbox" "backendSandbox \<noteq> backendPod"
  "backendAuto \<noteq> ''''" "backendPod \<noteq> ''''" "backendSandbox \<noteq> ''''"
  by (simp_all add: backendAuto_def backendPod_def backendSandbox_def)

text \<open>The answer is availability and the error, which the caller logs.\<close>

definition checkSandboxAvailability :: "'w env \<Rightarrow> ('w, bool \<times> gerror option) act" where
  "checkSandboxAvailability E = do {
     let crdName = ''sandboxes.execution.agenttask.io'';
     err \<leftarrow> GetCRD E \<lparr>gvk_Group = ''apiextensions.k8s.io'', gvk_Version = ''v1'',
       gvk_Kind = ''CustomResourceDefinition''\<rparr> crdName;
     (case err of
        Some e \<Rightarrow> (if IsNotFound e then ret (False, None) else ret (False, Some e))
      | None \<Rightarrow> ret (True, None))
   }"

definition selectBackend :: "'w env \<Rightarrow> AgentTask \<Rightarrow> ('w, gerror + string) act" where
  "selectBackend E task = do {
     let requested = (if spec_Backend (task_Spec task) = '''' then backendAuto
                      else spec_Backend (task_Spec task));
     avail \<leftarrow> checkSandboxAvailability E;
     let sandboxAvailable = (case avail of (b, Some err) \<Rightarrow> False | (b, None) \<Rightarrow> b);
     (if requested = backendSandbox then
        (if \<not> sandboxAvailable
         then ret (Inl (NewBadRequest ''sandbox backend requested but not available''))
         else ret (Inr backendSandbox))
      else if requested = backendAuto then
        (if sandboxAvailable then ret (Inr backendSandbox) else ret (Inr backendPod))
      else ret (Inr backendPod))
   }"

text \<open>The hard-coded profiles, and the lookup that the profile config map overrides.\<close>

definition default_profile_image :: "string \<Rightarrow> string \<Rightarrow> gerror + string" where
  "default_profile_image profile backend =
     (if profile = ''python3.11'' \<or> profile = ''python3.10'' then
        (if backend = backendSandbox then Inr ''agent-sandbox-python:3.11''
         else Inr ''python:3.11-slim'')
      else Inl (FmtError (''unknown runtime profile: '' @ profile)))"

definition profile_key :: "string \<Rightarrow> string \<Rightarrow> string" where
  "profile_key profile backend =
     (if backend = backendSandbox then profile @ ''-sandbox'' else profile)"

definition resolveRuntimeProfile ::
  "'w env \<Rightarrow> string \<Rightarrow> string \<Rightarrow> string \<Rightarrow> ('w, gerror + string) act" where
  "resolveRuntimeProfile E profile backend namespace = do {
     r \<leftarrow> GetConfigMap E (NamespacedName namespace ''agenttask-runtime-profiles'');
     (case r of
        Inr cm \<Rightarrow>
          (case cm_Data cm (profile_key profile backend) of
             Some val \<Rightarrow> ret (Inr val)
           | None \<Rightarrow> ret (default_profile_image profile backend))
      | Inl err \<Rightarrow> ret (default_profile_image profile backend))
   }"

subsection \<open>Reference functions\<close>

text \<open>
  The same decisions as pure functions of what the environment answered: the backend as a
  function of the request and of availability, the image as a function of the overrides.
\<close>

definition backend_choice :: "string \<Rightarrow> bool \<Rightarrow> string option" where
  "backend_choice requested available =
     (if requested = backendSandbox then (if available then Some backendSandbox else None)
      else if requested \<in> {'''', backendAuto} \<and> available then Some backendSandbox
      else Some backendPod)"

definition image_choice :: "(string \<rightharpoonup> string) \<Rightarrow> string \<Rightarrow> string \<Rightarrow> string option" where
  "image_choice overrides profile backend =
     (case overrides (profile_key profile backend) of
        Some img \<Rightarrow> Some img
      | None \<Rightarrow>
          (if profile \<in> {''python3.10'', ''python3.11''} then
             Some (if backend = backendSandbox then ''agent-sandbox-python:3.11''
                   else ''python:3.11-slim'')
           else None))"

lemma run_checkSandboxAvailability:
  "fst (run_state (checkSandboxAvailability E) s) =
     (case fst (env_GetCRD E \<lparr>gvk_Group = ''apiextensions.k8s.io'', gvk_Version = ''v1'',
         gvk_Kind = ''CustomResourceDefinition''\<rparr> ''sandboxes.execution.agenttask.io''
         (st_world s)) of
        None \<Rightarrow> (True, None)
      | Some e \<Rightarrow> (False, IgnoreNotFound e))"
  by (auto simp: checkSandboxAvailability_def Let_def GetCRD_def run_call IgnoreNotFound_def
      split: prod.splits option.splits)

text \<open>Whether the Sandbox CRD can be read, in the world the selection starts in.\<close>

definition sandbox_crd_readable :: "'w env \<Rightarrow> 'w \<Rightarrow> bool" where
  "sandbox_crd_readable E w \<longleftrightarrow>
     fst (env_GetCRD E \<lparr>gvk_Group = ''apiextensions.k8s.io'', gvk_Version = ''v1'',
       gvk_Kind = ''CustomResourceDefinition''\<rparr> ''sandboxes.execution.agenttask.io'' w) = None"

text \<open>The backend of a task is decided by the requested backend and by whether the Sandbox
  CRD can be read: the empty request and \<open>auto\<close> prefer the sandbox and fall back to a pod,
  \<open>sandbox\<close> is refused when it is not available (any error of the lookup counts as not
  available), every other request gets a pod.\<close>

theorem selectBackend_decides:
  "fst (run_state (selectBackend E t) s) =
     (case backend_choice (spec_Backend (task_Spec t)) (sandbox_crd_readable E (st_world s)) of
        None \<Rightarrow> Inl (NewBadRequest ''sandbox backend requested but not available'')
      | Some b \<Rightarrow> Inr b)"
proof -
  obtain r s' where run: "run_state (checkSandboxAvailability E) s = (r, s')"
    by fastforce
  with run_checkSandboxAvailability [of E s] show ?thesis
    by (auto simp: selectBackend_def Let_def sandbox_crd_readable_def backend_choice_def
        split: option.splits prod.splits)
qed

text \<open>The image of a task is the override of the profile config map of its namespace, under
  the profile's key or, for the sandbox backend, the key with the suffix \<open>-sandbox\<close>; without
  one (also when the config map cannot be read) it is the built-in image, which only the two
  Python profiles have; every other profile fails with an error that names it.\<close>

theorem resolveRuntimeProfile_decides:
  "fst (run_state (resolveRuntimeProfile E profile backend ns) s) =
     (case image_choice
         (case fst (env_GetConfigMap E (NamespacedName ns ''agenttask-runtime-profiles'') (st_world s))
          of Inr cm \<Rightarrow> cm_Data cm | Inl err \<Rightarrow> Map.empty) profile backend of
        Some img \<Rightarrow> Inr img
      | None \<Rightarrow> Inl (FmtError (''unknown runtime profile: '' @ profile)))"
  by (auto simp: resolveRuntimeProfile_def GetConfigMap_def run_call image_choice_def
      default_profile_image_def split: prod.splits sum.splits option.splits)

end
