(* ===== verification/PhaseHandlers.thy ===== *)
theory PhaseHandlers
  imports TaskCompletion SandboxManager BackendSelection
begin

text \<open>
  One handler per phase of the task's state machine (agenttask_controller.go,
  reconcilePending to reconcileTimeout, checkTimeout, finalizeAgentTask), each with every
  early return of the source.
\<close>

definition set_Phase :: "string \<Rightarrow> AgentTask \<Rightarrow> AgentTask" where
  "set_Phase phase = set_status (\<lambda>st. st\<lparr>status_Phase := phase\<rparr>)"

lemma set_Phase_simps [simp]:
  "task_Meta (set_Phase p t) = task_Meta t"
  "task_Spec (set_Phase p t) = task_Spec t"
  "task_Status (set_Phase p t) = (task_Status t)\<lparr>status_Phase := p\<rparr>"
  by (simp_all add: set_Phase_def)

definition pod_key :: "AgentTask \<Rightarrow> NamespacedName" where
  "pod_key task = NamespacedName (ref_Namespace (status_PodRef (task_Status task)))
     (ref_Name (status_PodRef (task_Status task)))"

subsection \<open>Pending\<close>

text \<open>The dispatch of \<^verbatim>\<open>reconcilePending\<close>: the backend object exists and is referenced.\<close>

definition dispatch ::
  "'w env \<Rightarrow> AgentTask \<Rightarrow> string \<Rightarrow> string \<Rightarrow> string \<Rightarrow> ('w, gerror + AgentTask) act" where
  "dispatch E task backend cmName img =
     (if backend = backendSandbox then do {
        r \<leftarrow> EnsureSandbox E task cmName img;
        (case r of
           Inl err \<Rightarrow> ret (Inl err)
         | Inr objRef \<Rightarrow> ret (Inr (set_PodRef objRef task)))
      } else ensurePod E task cmName img)"

definition reconcilePending :: "'w env \<Rightarrow> AgentTask \<Rightarrow> ('w, gerror option) act" where
  "reconcilePending E task = do {
     c \<leftarrow> ensureCodeConfigMap E task;
     (case c of
        Inl err \<Rightarrow> ret (Some err)
      | Inr cmName \<Rightarrow> do {
          n \<leftarrow> ensureNetworkPolicy E task;
          (case n of
             Some err \<Rightarrow> ret (Some err)
           | None \<Rightarrow> do {
               b \<leftarrow> selectBackend E task;
               (case b of
                  Inl err \<Rightarrow> updatePhaseFailure E task AgentTaskReasonBackendSelectionFailed
                    (error_text err)
                | Inr backend \<Rightarrow> do {
                    i \<leftarrow> resolveRuntimeProfile E (spec_RuntimeProfile (task_Spec task)) backend
                      (task_Namespace task);
                    (case i of
                       Inl err \<Rightarrow> updatePhaseFailure E task AgentTaskReasonProfileResolutionFailed
                         (error_text err)
                     | Inr img \<Rightarrow> do {
                         d \<leftarrow> dispatch E task backend cmName img;
                         (case d of
                            Inl err \<Rightarrow> ret (Some err)
                          | Inr task \<Rightarrow> do {
                              r \<leftarrow> UpdateTaskStatus E (set_Phase AgentTaskPhaseScheduled task);
                              ret (update_error r)
                            })
                       })
                  })
             })
        })
   }"

subsection \<open>Scheduled\<close>

text \<open>The first container status stuck on its image, with its waiting state.\<close>

fun first_image_pull :: "ContainerStatus list \<Rightarrow> (ContainerStatus \<times> ContainerStateWaiting) option" where
  "first_image_pull [] = None"
| "first_image_pull (cs # css) =
     (case image_pull_stuck cs of
        Some w \<Rightarrow> Some (cs, w)
      | None \<Rightarrow> first_image_pull css)"

definition reconcileScheduled :: "'w env \<Rightarrow> AgentTask \<Rightarrow> ('w, gerror option) act" where
  "reconcileScheduled E task =
     (if ref_Kind (status_PodRef (task_Status task)) = ''Sandbox'' then do {
        r \<leftarrow> UpdateTaskStatus E (set_Phase AgentTaskPhaseRunning task);
        ret (update_error r)
      } else do {
        r \<leftarrow> GetPod E (pod_key task);
        (case r of
           Inl err \<Rightarrow>
             (if IsNotFound err then
                updatePhaseFailure E task AgentTaskReasonPodMissing
                  ''The execution pod was deleted unexpectedly.''
              else ret (Some err))
         | Inr pod \<Rightarrow>
             (if pst_Phase (pod_Status pod) = PodPending then
                (case first_image_pull (pst_ContainerStatuses (pod_Status pod)) of
                   Some (cs, w) \<Rightarrow>
                     updatePhaseFailure E task AgentTaskReasonImagePullFailed
                       (image_pull_message cs w)
                 | None \<Rightarrow> ret None)
              else if pst_Phase (pod_Status pod) = PodRunning then do {
                r \<leftarrow> UpdateTaskStatus E (set_Phase AgentTaskPhaseRunning task);
                ret (update_error r)
              }
              else if pst_Phase (pod_Status pod) = PodSucceeded then handlePodSuccess E task pod
              else if pst_Phase (pod_Status pod) = PodFailed then handlePodFailure E task pod
              else ret None))
      })"

subsection \<open>Running\<close>

text \<open>The exit code of the first terminated status of the task container.\<close>

fun task_exit :: "ContainerStatus list \<Rightarrow> int32 option" where
  "task_exit [] = None"
| "task_exit (cs # css) =
     (case cs_Terminated cs of
        Some t \<Rightarrow> (if cs_Name cs = containerTaskName then Some (cst_ExitCode t) else task_exit css)
      | None \<Rightarrow> task_exit css)"

definition reconcileRunning :: "'w env \<Rightarrow> AgentTask \<Rightarrow> ('w, gerror option) act" where
  "reconcileRunning E task =
     (if ref_Kind (status_PodRef (task_Status task)) = ''Sandbox'' then ret None
      else do {
        r \<leftarrow> GetPod E (pod_key task);
        (case r of
           Inl err \<Rightarrow>
             (if IsNotFound err then
                updatePhaseFailure E task AgentTaskReasonPodMissing
                  ''The execution pod was deleted while running.''
              else ret (Some err))
         | Inr pod \<Rightarrow>
             (if pst_Phase (pod_Status pod) = PodRunning then
                (case task_exit (pst_ContainerStatuses (pod_Status pod)) of
                   Some code \<Rightarrow>
                     (if code = 0 then handlePodSuccess E task pod
                      else handlePodFailure E task pod)
                 | None \<Rightarrow> ret None)
              else if pst_Phase (pod_Status pod) = PodSucceeded then handlePodSuccess E task pod
              else if pst_Phase (pod_Status pod) = PodFailed then handlePodFailure E task pod
              else ret None))
      })"

subsection \<open>Cancellation and timeout\<close>

record Result =
  res_Requeue :: bool
  res_RequeueAfter :: duration

definition no_result :: Result where
  "no_result = \<lparr>res_Requeue = False, res_RequeueAfter = 0\<rparr>"

type_synonym reconcile_result = "Result \<times> gerror option"

definition reconcileCanceled :: "'w env \<Rightarrow> AgentTask \<Rightarrow> ('w, reconcile_result) act" where
  "reconcileCanceled E task = do {
     cleanup \<leftarrow>
       (if ref_Name (status_PodRef (task_Status task)) \<noteq> '''' then do {
          r \<leftarrow> GetPod E (pod_key task);
          (case r of
             Inr pod \<Rightarrow> do {
               d \<leftarrow> DeletePod E pod;
               (case d of
                  Some err \<Rightarrow> (if \<not> IsNotFound err then ret (Some err) else ret None)
                | None \<Rightarrow> ret None)
             }
           | Inl err \<Rightarrow> (if \<not> IsNotFound err then ret (Some err) else ret None))
        } else ret None);
     (case cleanup of
        Some err \<Rightarrow> ret (no_result, Some err)
      | None \<Rightarrow> do {
          now \<leftarrow> Now E;
          let task = set_status (\<lambda>st. st\<lparr>status_Phase := AgentTaskPhaseCanceled,
            status_CompletionTime := Some now,
            status_Message := ''Task was canceled by user request'',
            status_Reason := AgentTaskReasonCanceled\<rparr>) task;
          tasksTotal_Inc ''Canceled'' AgentTaskReasonCanceled;
          p \<leftarrow> observe_duration ''Canceled'' task;
          (case p of
             Some err \<Rightarrow> ret (no_result, Some err)
           | None \<Rightarrow> do {
               r \<leftarrow> UpdateTaskStatus E task;
               ret (no_result, update_error r)
             })
        })
   }"

definition checkTimeout :: "'w env \<Rightarrow> AgentTask \<Rightarrow> ('w, bool) act" where
  "checkTimeout E task =
     (if sint (spec_TimeoutSeconds (task_Spec task)) \<le> 0 then ret False
      else (case status_StartTime (task_Status task) of
              None \<Rightarrow> ret False
            | Some start_time \<Rightarrow> do {
                let deadline = time_add start_time
                  (duration_of_int32 (spec_TimeoutSeconds (task_Spec task)) * Second + 2 * Second);
                now \<leftarrow> Now E;
                ret (time_after now deadline)
              }))"

definition reconcileTimeout :: "'w env \<Rightarrow> AgentTask \<Rightarrow> ('w, reconcile_result) act" where
  "reconcileTimeout E task = do {
     cleanup \<leftarrow>
       (if ref_Name (status_PodRef (task_Status task)) \<noteq> '''' then do {
          r \<leftarrow> GetPod E (pod_key task);
          (case r of
             Inr pod \<Rightarrow> DeletePod E pod
           | Inl err \<Rightarrow> ret None)
        } else ret None);
     (case cleanup of
        Some err \<Rightarrow> ret (no_result, Some err)
      | None \<Rightarrow> do {
          now \<leftarrow> Now E;
          let task = set_status (\<lambda>st. st\<lparr>status_Phase := AgentTaskPhaseTimeout,
            status_CompletionTime := Some now,
            status_Reason := AgentTaskReasonTimeout,
            status_Message := ''Task execution exceeded the timeout limit.''\<rparr>) task;
          tasksTotal_Inc ''Timeout'' AgentTaskReasonTimeout;
          p \<leftarrow> observe_duration ''Timeout'' task;
          (case p of
             Some err \<Rightarrow> ret (no_result, Some err)
           | None \<Rightarrow> do {
               r \<leftarrow> UpdateTaskStatus E task;
               ret (no_result, update_error r)
             })
        })
   }"

subsection \<open>Finalization\<close>

definition finalizeAgentTask :: "'w env \<Rightarrow> AgentTask \<Rightarrow> ('w, gerror option) act" where
  "finalizeAgentTask E task =
     (if ref_Name (status_PodRef (task_Status task)) \<noteq> '''' then do {
        r \<leftarrow> GetPod E (pod_key task);
        (case r of
           Inr pod \<Rightarrow> do {
             d \<leftarrow> DeletePod E pod;
             (case d of
                Some err \<Rightarrow> (if \<not> IsNotFound err then ret (Some err) else ret None)
              | None \<Rightarrow> ret None)
           }
         | Inl err \<Rightarrow> (if \<not> IsNotFound err then ret (Some err) else ret None))
      } else ret None)"

end
