(* ===== verification/Reconciler.thy ===== *)
theory Reconciler
  imports PhaseHandlers
begin

text \<open>
  The reconcile entry point (agenttask_controller.go, Reconcile): finalizer, deletion, phase
  initialisation, cancellation, timeout, the phase switch and the TTL clean-up of finished
  tasks, in the order of the source; and a controller that serves a queue of requests one
  after the other.
\<close>

definition agentTaskFinalizer :: string where
  "agentTaskFinalizer = ''execution.agenttask.io/finalizer''"

text \<open>The branch of a task that is being deleted.\<close>

definition reconcileDeleted :: "'w env \<Rightarrow> AgentTask \<Rightarrow> ('w, reconcile_result) act" where
  "reconcileDeleted E agentTask =
     (if env_ContainsFinalizer E agentTask agentTaskFinalizer then do {
        f \<leftarrow> finalizeAgentTask E agentTask;
        (case f of
           Some err \<Rightarrow> ret (no_result, Some err)
         | None \<Rightarrow> do {
             r \<leftarrow> UpdateTask E (env_RemoveFinalizer E agentTask agentTaskFinalizer);
             ret (no_result, update_error r)
           })
      } else ret (no_result, None))"

text \<open>The terminal phases of the switch: deletion after the time to live.\<close>

definition reconcileFinished :: "'w env \<Rightarrow> AgentTask \<Rightarrow> ('w, reconcile_result) act" where
  "reconcileFinished E agentTask =
     (case spec_TTLSecondsAfterFinished (task_Spec agentTask) of
        None \<Rightarrow> ret (no_result, None)
      | Some seconds \<Rightarrow> do {
          let ttl = duration_of_int32 seconds * Second;
          (case status_CompletionTime (task_Status agentTask) of
             None \<Rightarrow> ret (no_result, None)
           | Some completion \<Rightarrow> do {
               let expirationTime = time_add completion ttl;
               now \<leftarrow> Now E;
               (if time_after now expirationTime then do {
                  d \<leftarrow> DeleteTask E agentTask;
                  (case d of
                     Some err \<Rightarrow> ret (no_result, IgnoreNotFound err)
                   | None \<Rightarrow> ret (no_result, None))
                } else do {
                  now2 \<leftarrow> Now E;
                  let requeueAfter = time_sub expirationTime now2;
                  ret (no_result\<lparr>res_RequeueAfter := requeueAfter\<rparr>, None)
                })
             })
        })"

text \<open>The switch over the phase.\<close>

definition reconcilePhase :: "'w env \<Rightarrow> AgentTask \<Rightarrow> ('w, reconcile_result) act" where
  "reconcilePhase E agentTask =
     (if task_Phase agentTask = AgentTaskPhasePending then do {
        e \<leftarrow> reconcilePending E agentTask;
        (case e of
           Some err \<Rightarrow> ret (no_result, Some err)
         | None \<Rightarrow> ret (no_result\<lparr>res_Requeue := True\<rparr>, None))
      }
      else if task_Phase agentTask = AgentTaskPhaseScheduled then do {
        e \<leftarrow> reconcileScheduled E agentTask;
        (case e of Some err \<Rightarrow> ret (no_result, Some err) | None \<Rightarrow> ret (no_result, None))
      }
      else if task_Phase agentTask = AgentTaskPhaseRunning then do {
        e \<leftarrow> reconcileRunning E agentTask;
        (case e of Some err \<Rightarrow> ret (no_result, Some err) | None \<Rightarrow> ret (no_result, None))
      }
      else if task_Phase agentTask = AgentTaskPhaseSucceeded
            \<or> task_Phase agentTask = AgentTaskPhaseFailed
            \<or> task_Phase agentTask = AgentTaskPhaseCanceled
            \<or> task_Phase agentTask = AgentTaskPhaseTimeout then reconcileFinished E agentTask
      else ret (no_result, None))"

text \<open>The task is not being deleted and has its finalizer.\<close>

definition reconcileActive :: "'w env \<Rightarrow> AgentTask \<Rightarrow> ('w, reconcile_result) act" where
  "reconcileActive E agentTask =
     (if task_Phase agentTask = '''' then do {
        now \<leftarrow> Now E;
        r \<leftarrow> UpdateTaskStatus E (set_status (\<lambda>st. st\<lparr>status_Phase := AgentTaskPhasePending,
          status_StartTime := Some now\<rparr>) agentTask);
        (case r of
           Inl err \<Rightarrow> ret (no_result, Some err)
         | Inr t \<Rightarrow> ret (no_result\<lparr>res_Requeue := True\<rparr>, None))
      }
      else if spec_Canceled (task_Spec agentTask) then
        (if task_Phase agentTask = AgentTaskPhaseSucceeded
            \<or> task_Phase agentTask = AgentTaskPhaseFailed
            \<or> task_Phase agentTask = AgentTaskPhaseCanceled
         then ret (no_result, None)
         else reconcileCanceled E agentTask)
      else do {
        timeout \<leftarrow> checkTimeout E agentTask;
        (if timeout then reconcileTimeout E agentTask else reconcilePhase E agentTask)
      })"

definition Reconcile :: "'w env \<Rightarrow> NamespacedName \<Rightarrow> ('w, reconcile_result) act" where
  "Reconcile E req = do {
     r \<leftarrow> GetTask E req;
     (case r of
        Inl err \<Rightarrow> ret (no_result, IgnoreNotFound err)
      | Inr agentTask \<Rightarrow>
          (if time_is_zero (om_DeletionTimestamp (task_Meta agentTask)) then
             (if \<not> env_ContainsFinalizer E agentTask agentTaskFinalizer then do {
                u \<leftarrow> UpdateTask E (env_AddFinalizer E agentTask agentTaskFinalizer);
                ret (no_result, update_error u)
              } else reconcileActive E agentTask)
           else reconcileDeleted E agentTask))
   }"

text \<open>A worker that serves a queue of requests.\<close>

fun reconcile_all :: "'w env \<Rightarrow> NamespacedName list \<Rightarrow> ('w, reconcile_result list) act" where
  "reconcile_all E [] = ret []"
| "reconcile_all E (req # reqs) = do {
     r \<leftarrow> Reconcile E req;
     rs \<leftarrow> reconcile_all E reqs;
     ret (r # rs)
   }"

text \<open>The history a worker leaves.\<close>

definition worker_log :: "'w env \<Rightarrow> NamespacedName list \<Rightarrow> 'w \<Rightarrow> event list" where
  "worker_log E reqs w = st_log (snd (run_state (reconcile_all E reqs) (start w)))"

lemma worker_logI:
  assumes "\<And>s req. I s \<Longrightarrow> wp (Reconcile E req) (\<lambda>_. I) s" and "I (start w)"
    and "\<And>s. I s \<Longrightarrow> P (st_log s)"
  shows "P (worker_log E reqs w)"
proof -
  have "I s \<Longrightarrow> wp (reconcile_all E reqs) (\<lambda>_. I) s" for s
  proof (induction reqs arbitrary: s)
    case Nil
    then show ?case by (simp add: wp_simps)
  next
    case (Cons req reqs)
    then show ?case
      by (auto simp: wp_simps intro: wp_conseq [OF assms(1)])
  qed
  with assms(2,3) show ?thesis
    unfolding worker_log_def wp_def by (metis (mono_tags, lifting) case_prod_beta)
qed

end
