(* ===== verification/ReconcilePolicy.thy ===== *)
theory ReconcilePolicy
  imports Reconciler
begin

text \<open>
  What a reconcile may do, as a policy on histories: for each effect of the code, what must
  have happened before it. Each policy is stated on its own; \<open>reconcile_ok\<close> is their
  conjunction, and the theory shows that every history the worker can produce, in any
  environment, conforms to it.
\<close>

subsection \<open>Objects\<close>

text \<open>Pods are hardened and every volume mount resolves.\<close>

fun ok_hardened :: "event list \<Rightarrow> event \<Rightarrow> bool" where
  "ok_hardened h (Create_Pod p r) = (pod_hardened p \<and> mounts_resolve p)"
| "ok_hardened h e = True"

text \<open>
  A pod or a sandbox is created only after, in the same reconcile, the network policy of its
  task was found or a policy that denies all traffic was created for it.
\<close>

fun secures :: "AgentTask \<Rightarrow> event \<Rightarrow> bool" where
  "secures t (Get_NetworkPolicy k (Inr np)) =
     (k = NamespacedName (task_Namespace t) (task_Name t @ ''-netpol''))"
| "secures t (Create_NetworkPolicy np (Inr np')) =
     (np_denies_all np \<and> om_Namespace (np_Meta np) = task_Namespace t
      \<and> np_PodSelector np = [''agenttask.io/task'' \<mapsto> task_Name t])"
| "secures t e = False"

definition network_secured :: "AgentTask \<Rightarrow> event list \<Rightarrow> bool" where
  "network_secured t es = (\<exists>e \<in> set es. secures t e)"

fun ok_isolated :: "event list \<Rightarrow> event \<Rightarrow> bool" where
  "ok_isolated h (Create_Pod p r) = (case fetched h of
     None \<Rightarrow> False
   | Some t \<Rightarrow> network_secured t (recent h) \<and> om_Namespace (pod_Meta p) = task_Namespace t
       \<and> om_Labels (pod_Meta p) ''agenttask.io/task'' = Some (task_Name t))"
| "ok_isolated h (Create_Sandbox b r) = (case fetched h of
     None \<Rightarrow> False
   | Some t \<Rightarrow> network_secured t (recent h) \<and> om_Namespace (sb_Meta b) = task_Namespace t)"
| "ok_isolated h e = True"

text \<open>Every created object lives in the task's namespace, under a name derived from the
  task's, with the task as its one owner.\<close>

definition owned_by :: "'w env \<Rightarrow> AgentTask \<Rightarrow> string \<Rightarrow> ObjectMeta \<Rightarrow> bool" where
  "owned_by E t suffix m \<longleftrightarrow> om_Name m = task_Name t @ suffix \<and> om_Namespace m = task_Namespace t
     \<and> om_OwnerReferences m = [task_owner E t]"

fun ok_owned :: "'w env \<Rightarrow> event list \<Rightarrow> event \<Rightarrow> bool" where
  "ok_owned E h (Create_ConfigMap cm r) =
     (\<exists>t. fetched h = Some t \<and> owned_by E t ''-code'' (cm_Meta cm))"
| "ok_owned E h (Create_NetworkPolicy np r) =
     (\<exists>t. fetched h = Some t \<and> owned_by E t ''-netpol'' (np_Meta np))"
| "ok_owned E h (Create_Pod p r) =
     (\<exists>t. fetched h = Some t \<and> owned_by E t ''-pod'' (pod_Meta p))"
| "ok_owned E h (Create_Sandbox b r) =
     (\<exists>t. fetched h = Some t \<and> owned_by E t ''-sandbox'' (sb_Meta b))"
| "ok_owned E h e = True"

subsection \<open>Status writes\<close>

text \<open>The phase changes the code makes: the abstract state machine of a task.\<close>

inductive phase_step :: "string \<Rightarrow> string \<Rightarrow> bool" where
  accept: "phase_step '''' AgentTaskPhasePending"
| schedule: "phase_step AgentTaskPhasePending AgentTaskPhaseScheduled"
| reject: "phase_step AgentTaskPhasePending AgentTaskPhaseFailed"
| run: "phase_step AgentTaskPhaseScheduled AgentTaskPhaseRunning"
| finish: "p \<in> {AgentTaskPhaseScheduled, AgentTaskPhaseRunning} \<Longrightarrow>
     q \<in> {AgentTaskPhaseSucceeded, AgentTaskPhaseFailed} \<Longrightarrow> phase_step p q"
| cancel: "p \<notin> {'''', AgentTaskPhaseSucceeded, AgentTaskPhaseFailed, AgentTaskPhaseCanceled} \<Longrightarrow>
     phase_step p AgentTaskPhaseCanceled"
| time_out: "p \<noteq> '''' \<Longrightarrow> phase_step p AgentTaskPhaseTimeout"

text \<open>The deadline of a task: start time, plus the timeout, plus two seconds.\<close>

definition deadline :: "AgentTask \<Rightarrow> instant option" where
  "deadline t =
     (if 0 < sint (spec_TimeoutSeconds (task_Spec t)) then
        map_option (\<lambda>s. s + (sint (spec_TimeoutSeconds (task_Spec t)) + 2) * 1000000000)
          (status_StartTime (task_Status t))
      else None)"

fun reads_after :: "instant \<Rightarrow> event \<Rightarrow> bool" where
  "reads_after d (Read_Clock n) = (d < n)"
| "reads_after d e = False"

definition overdue :: "AgentTask \<Rightarrow> event list \<Rightarrow> bool" where
  "overdue t es = (case deadline t of None \<Rightarrow> False | Some d \<Rightarrow> list_ex (reads_after d) es)"

definition deleting :: "AgentTask \<Rightarrow> bool" where
  "deleting t \<longleftrightarrow> \<not> time_is_zero (om_DeletionTimestamp (task_Meta t))"

definition phase_allowed :: "AgentTask \<Rightarrow> string \<Rightarrow> event list \<Rightarrow> bool" where
  "phase_allowed t p es \<longleftrightarrow> phase_step (task_Phase t) p
     \<and> (p = AgentTaskPhaseCanceled \<longrightarrow> spec_Canceled (task_Spec t))
     \<and> (p = AgentTaskPhaseTimeout \<longrightarrow> overdue t es)"

fun ok_phase :: "'w env \<Rightarrow> event list \<Rightarrow> event \<Rightarrow> bool" where
  "ok_phase E h (Update_Status t r) =
     (\<exists>t0. fetched h = Some t0 \<and> \<not> deleting t0 \<and> env_ContainsFinalizer E t0 agentTaskFinalizer
        \<and> task_Meta t = task_Meta t0 \<and> task_Spec t = task_Spec t0
        \<and> phase_allowed t0 (task_Phase t) (recent h))"
| "ok_phase E h e = True"

text \<open>
  Time stamps: the start time is set with the first phase and kept, the completion time is set
  with every terminal phase, both from the clock reading of the same reconcile.
\<close>

fun ok_times :: "event list \<Rightarrow> event \<Rightarrow> bool" where
  "ok_times h (Update_Status t r) =
     (\<exists>t0. fetched h = Some t0
        \<and> status_StartTime (task_Status t) =
            (if task_Phase t0 = '''' then clock (recent h) else status_StartTime (task_Status t0))
        \<and> status_CompletionTime (task_Status t) =
            (if task_Phase t \<in> terminal_phases then clock (recent h)
             else status_CompletionTime (task_Status t0))
        \<and> (task_Phase t0 = '''' \<or> task_Phase t \<in> terminal_phases \<longrightarrow> clock (recent h) \<noteq> None))"
| "ok_times h e = True"

text \<open>At most one status write per task read.\<close>

fun is_status_write :: "event \<Rightarrow> bool" where
  "is_status_write (Update_Status t r) = True"
| "is_status_write e = False"

fun ok_once :: "event list \<Rightarrow> event \<Rightarrow> bool" where
  "ok_once h (Update_Status t r) = (\<not> list_ex is_status_write (recent h))"
| "ok_once h e = True"

subsection \<open>Outcomes\<close>

text \<open>
  What the operator must have seen before it reports an outcome. A pod shows success when it has
  succeeded or when it is running and its task container has terminated with exit code 0; it
  shows failure when it has failed, when its task container has terminated with another code, or
  when it is pending and stuck pulling an image. The exit code is that of the first terminated
  status of the task container, the result its termination message.
\<close>

abbreviation statuses :: "Pod \<Rightarrow> ContainerStatus list" where
  "statuses p \<equiv> pst_ContainerStatuses (pod_Status p)"

definition shows_success :: "Pod \<Rightarrow> bool" where
  "shows_success p \<longleftrightarrow> pst_Phase (pod_Status p) = PodSucceeded
     \<or> pst_Phase (pod_Status p) = PodRunning \<and> task_exit (statuses p) = Some 0"

definition shows_failure :: "Pod \<Rightarrow> bool" where
  "shows_failure p \<longleftrightarrow> pst_Phase (pod_Status p) = PodFailed
     \<or> pst_Phase (pod_Status p) = PodRunning \<and> (\<exists>c. task_exit (statuses p) = Some c \<and> c \<noteq> 0)"

definition exit_reported :: "Pod \<Rightarrow> AgentTask \<Rightarrow> AgentTask \<Rightarrow> bool" where
  "exit_reported p t0 t \<longleftrightarrow> status_ExitCode (task_Status t) =
     (case task_exit (statuses p) of None \<Rightarrow> status_ExitCode (task_Status t0) | Some c \<Rightarrow> c)"

definition result_reported :: "Pod \<Rightarrow> AgentTask \<Rightarrow> AgentTask \<Rightarrow> bool" where
  "result_reported p t0 t \<longleftrightarrow> status_Result (task_Status t) =
     (case find terminated_task (statuses p) of
        None \<Rightarrow> status_Result (task_Status t0)
      | Some cs \<Rightarrow> (if cst_Message (the (cs_Terminated cs)) = ''''
          then status_Result (task_Status t0)
          else Some \<lparr>er_JSON = cst_Message (the (cs_Terminated cs))\<rparr>))"

definition success_justified :: "AgentTask \<Rightarrow> AgentTask \<Rightarrow> event list \<Rightarrow> bool" where
  "success_justified t0 t es \<longleftrightarrow> (\<exists>p. Get_Pod (pod_key t0) (Inr p) \<in> set es
     \<and> shows_success p \<and> exit_reported p t0 t \<and> result_reported p t0 t)"

definition failure_justified :: "AgentTask \<Rightarrow> AgentTask \<Rightarrow> event list \<Rightarrow> bool" where
  "failure_justified t0 t es \<longleftrightarrow>
     task_Phase t0 = AgentTaskPhasePending \<and> status_Reason (task_Status t)
       \<in> {AgentTaskReasonBackendSelectionFailed, AgentTaskReasonProfileResolutionFailed}
   \<or> (\<exists>e. Get_Pod (pod_key t0) (Inl e) \<in> set es \<and> IsNotFound e
        \<and> status_Reason (task_Status t) = AgentTaskReasonPodMissing)
   \<or> (\<exists>p. Get_Pod (pod_key t0) (Inr p) \<in> set es \<and> pst_Phase (pod_Status p) = PodPending
        \<and> (\<exists>cs \<in> set (statuses p). image_pull_stuck cs \<noteq> None)
        \<and> status_Reason (task_Status t) = AgentTaskReasonImagePullFailed)
   \<or> (\<exists>p. Get_Pod (pod_key t0) (Inr p) \<in> set es \<and> shows_failure p \<and> exit_reported p t0 t)"

fun ok_outcome :: "event list \<Rightarrow> event \<Rightarrow> bool" where
  "ok_outcome h (Update_Status t r) =
     (\<exists>t0. fetched h = Some t0
        \<and> (task_Phase t = AgentTaskPhaseSucceeded \<longrightarrow> success_justified t0 t (recent h))
        \<and> (task_Phase t = AgentTaskPhaseFailed \<longrightarrow> failure_justified t0 t (recent h)))"
| "ok_outcome h e = True"

text \<open>A task that runs in a sandbox is never given an outcome: nothing reads the Sandbox object.\<close>

definition in_sandbox :: "AgentTask \<Rightarrow> bool" where
  "in_sandbox t \<longleftrightarrow> ref_Kind (status_PodRef (task_Status t)) = ''Sandbox''
     \<and> task_Phase t \<in> {AgentTaskPhaseScheduled, AgentTaskPhaseRunning}"

fun ok_sandbox :: "event list \<Rightarrow> event \<Rightarrow> bool" where
  "ok_sandbox h (Update_Status t r) = (case fetched h of
     None \<Rightarrow> False
   | Some t0 \<Rightarrow> in_sandbox t0 \<longrightarrow>
       task_Phase t \<in> {AgentTaskPhaseRunning, AgentTaskPhaseCanceled, AgentTaskPhaseTimeout})"
| "ok_sandbox h e = True"

text \<open>
  Scheduling makes the task refer to its backend object: a sandbox, or the pod that was read or
  created under the task's own pod name. Every other status write keeps the reference.
\<close>

definition own_pod_key :: "NamespacedName \<Rightarrow> NamespacedName" where
  "own_pod_key k = NamespacedName (nn_Namespace k) (nn_Name k @ ''-pod'')"

definition own_pod :: "AgentTask \<Rightarrow> NamespacedName" where
  "own_pod t = own_pod_key (object_key (task_Meta t))"

lemma own_pod_simps [simp]: "own_pod t = NamespacedName (task_Namespace t) (task_Name t @ ''-pod'')"
  by (simp add: own_pod_def own_pod_key_def object_key_def)

definition refers_to_own :: "AgentTask \<Rightarrow> event list \<Rightarrow> bool" where
  "refers_to_own t es \<longleftrightarrow> ref_Kind (status_PodRef (task_Status t)) = ''Sandbox''
     \<or> (\<exists>p. status_PodRef (task_Status t) = pod_ref p
          \<and> (Get_Pod (own_pod t) (Inr p) \<in> set es \<or> (\<exists>q. Create_Pod q (Inr p) \<in> set es)))"

lemma refers_to_own_Phase [simp]:
  "refers_to_own (set_Phase q t) es = refers_to_own t es"
  by (simp add: refers_to_own_def)

fun ok_ref :: "event list \<Rightarrow> event \<Rightarrow> bool" where
  "ok_ref h (Update_Status t r) =
     (if task_Phase t = AgentTaskPhaseScheduled then refers_to_own t (recent h)
      else \<exists>t0. fetched h = Some t0 \<and> status_PodRef (task_Status t) = status_PodRef (task_Status t0))"
| "ok_ref h e = True"

text \<open>The scan for the exit code and the two loops over the statuses agree.\<close>

lemma task_exit_find:
  "task_exit css = map_option (\<lambda>cs. cst_ExitCode (the (cs_Terminated cs))) (find terminated_task css)"
  by (induction css) (auto simp: terminated_task_def split: option.splits)

lemma fold_image_pull_ExitCode [simp]:
  "status_ExitCode (fold with_image_pull css st) = status_ExitCode st"
  by (induction css arbitrary: st) auto

lemma loops_exit_code [simp]:
  "status_ExitCode (success_from_statuses css st) =
     (case task_exit css of None \<Rightarrow> status_ExitCode st | Some c \<Rightarrow> c)"
  "status_ExitCode (failure_from_statuses css st) =
     (case task_exit css of None \<Rightarrow> status_ExitCode st | Some c \<Rightarrow> c)"
  by (auto simp: success_from_statuses_spec failure_from_statuses_spec task_exit_find
      with_exit_def split: option.splits)

lemma success_result [simp]:
  "status_Result (success_from_statuses css st) =
     (case find terminated_task css of
        None \<Rightarrow> status_Result st
      | Some cs \<Rightarrow> (if cst_Message (the (cs_Terminated cs)) = '''' then status_Result st
          else Some \<lparr>er_JSON = cst_Message (the (cs_Terminated cs))\<rparr>))"
  by (auto simp: success_from_statuses_spec split: option.splits)

lemma first_image_pull_stuck:
  "first_image_pull css = Some (cs, w) \<Longrightarrow> cs \<in> set css \<and> image_pull_stuck cs = Some w"
  by (induction css) (auto split: option.splits)

subsection \<open>Deletions\<close>

text \<open>The pod a task refers to is gone: there is none, or the API says so, or accepted its
  deletion.\<close>

definition absent :: "gerror option \<Rightarrow> bool" where
  "absent r = (case r of None \<Rightarrow> True | Some e \<Rightarrow> IsNotFound e)"

fun reports_release :: "AgentTask \<Rightarrow> event list \<Rightarrow> event \<Rightarrow> bool" where
  "reports_release t es (Get_Pod k (Inl e)) = (k = pod_key t \<and> IsNotFound e)"
| "reports_release t es (Delete_Pod p r) = (absent r \<and> Get_Pod (pod_key t) (Inr p) \<in> set es)"
| "reports_release t es e = False"

definition pod_released :: "AgentTask \<Rightarrow> event list \<Rightarrow> bool" where
  "pod_released t es \<longleftrightarrow> ref_Name (status_PodRef (task_Status t)) = ''''
     \<or> list_ex (reports_release t es) es"

text \<open>The finalizer is added to live tasks only, and removed only from a task that is being
  deleted and whose pod is gone.\<close>

fun ok_finalizer :: "'w env \<Rightarrow> event list \<Rightarrow> event \<Rightarrow> bool" where
  "ok_finalizer E h (Update_Task t r) =
     (\<exists>t0. fetched h = Some t0 \<and>
        (if deleting t0 then env_ContainsFinalizer E t0 agentTaskFinalizer
           \<and> t = env_RemoveFinalizer E t0 agentTaskFinalizer \<and> pod_released t0 (recent h)
         else \<not> env_ContainsFinalizer E t0 agentTaskFinalizer
           \<and> t = env_AddFinalizer E t0 agentTaskFinalizer))"
| "ok_finalizer E h e = True"

text \<open>
  A pod is deleted only when the task refers to it, and only for a task that is being deleted,
  is cancelled, is overdue, or whose final phase has been stored.
\<close>

fun stores_phase :: "string \<Rightarrow> event \<Rightarrow> bool" where
  "stores_phase p (Update_Status t (Inr t')) = (task_Phase t = p)"
| "stores_phase p e = False"

fun ok_pod_deletion :: "event list \<Rightarrow> event \<Rightarrow> bool" where
  "ok_pod_deletion h (Delete_Pod p r) =
     (\<exists>t0. fetched h = Some t0 \<and> Get_Pod (pod_key t0) (Inr p) \<in> set (recent h)
        \<and> (deleting t0 \<or> spec_Canceled (task_Spec t0) \<or> overdue t0 (recent h)
           \<or> list_ex (stores_phase AgentTaskPhaseSucceeded) (recent h)
           \<or> list_ex (stores_phase AgentTaskPhaseFailed) (recent h)))"
| "ok_pod_deletion h e = True"

text \<open>A task is deleted only when it is finished and its time to live is over.\<close>

fun ok_task_deletion :: "event list \<Rightarrow> event \<Rightarrow> bool" where
  "ok_task_deletion h (Delete_Task t r) =
     (fetched h = Some t \<and> \<not> deleting t \<and> task_Phase t \<in> terminal_phases
      \<and> (\<exists>ttl c n. spec_TTLSecondsAfterFinished (task_Spec t) = Some ttl
           \<and> status_CompletionTime (task_Status t) = Some c \<and> clock (recent h) = Some n
           \<and> c + sint ttl * 1000000000 < n))"
| "ok_task_deletion h e = True"

text \<open>
  The timeout is checked before the switch over the phase, so a finished task is deleted only
  by a reconcile that also read a time not after the task's deadline.
\<close>

fun reads_by :: "instant \<Rightarrow> event \<Rightarrow> bool" where
  "reads_by d (Read_Clock n) = (n \<le> d)"
| "reads_by d e = False"

definition in_time :: "AgentTask \<Rightarrow> event list \<Rightarrow> bool" where
  "in_time t es = (case deadline t of None \<Rightarrow> True | Some d \<Rightarrow> list_ex (reads_by d) es)"

fun ok_ttl_window :: "event list \<Rightarrow> event \<Rightarrow> bool" where
  "ok_ttl_window h (Delete_Task t r) = in_time t (recent h)"
| "ok_ttl_window h e = True"

text \<open>
  The code creates no task, and deletes one only with the finalizer in place and the status as
  it was read.
\<close>

fun ok_tasks :: "'w env \<Rightarrow> event list \<Rightarrow> event \<Rightarrow> bool" where
  "ok_tasks E h (Create_Task t r) = False"
| "ok_tasks E h (Delete_Task t r) =
     (env_ContainsFinalizer E t agentTaskFinalizer \<and> \<not> list_ex is_status_write (recent h))"
| "ok_tasks E h e = True"

text \<open>A success is counted only once its status has been stored.\<close>

fun ok_success_counted :: "event list \<Rightarrow> event \<Rightarrow> bool" where
  "ok_success_counted h (Counter_Inc phase reason) =
     (phase = ''Succeeded'' \<longrightarrow> list_ex (stores_phase AgentTaskPhaseSucceeded) (recent h))"
| "ok_success_counted h e = True"

text \<open>A write the API server refused; a deletion of an absent object counts as done.\<close>

fun failed_write :: "event \<Rightarrow> bool" where
  "failed_write (Create_Task t (Inl e)) = True"
| "failed_write (Update_Task t (Inl e)) = True"
| "failed_write (Update_Status t (Inl e)) = True"
| "failed_write (Delete_Task t (Some e)) = (\<not> IsNotFound e)"
| "failed_write (Create_Pod p (Inl e)) = True"
| "failed_write (Delete_Pod p (Some e)) = (\<not> IsNotFound e)"
| "failed_write (Create_ConfigMap c (Inl e)) = True"
| "failed_write (Create_NetworkPolicy n (Inl e)) = True"
| "failed_write (Create_Sandbox b (Inl e)) = True"
| "failed_write e = False"

subsection \<open>The whole policy\<close>

definition reconcile_ok :: "'w env \<Rightarrow> event list \<Rightarrow> event \<Rightarrow> bool" where
  "reconcile_ok E h e \<longleftrightarrow> ok_hardened h e \<and> ok_isolated h e \<and> ok_owned E h e \<and> ok_phase E h e
     \<and> ok_times h e \<and> ok_once h e \<and> ok_finalizer E h e \<and> ok_pod_deletion h e
     \<and> ok_task_deletion h e \<and> ok_ttl_window h e \<and> ok_success_counted h e \<and> ok_outcome h e
     \<and> ok_sandbox h e \<and> ok_tasks E h e \<and> ok_ref h e"

text \<open>
  The state in which a handler runs: the history conforms, the task is the one that was read,
  it is live and has its finalizer, its status has not been written and no write has failed.
  The state in which it ends: the history conforms, and a failed write is answered with an
  error.
\<close>

definition clean :: "'w st \<Rightarrow> bool" where
  "clean s \<longleftrightarrow> \<not> list_ex failed_write (recent (st_log s))"

definition ready :: "'w env \<Rightarrow> AgentTask \<Rightarrow> 'w st \<Rightarrow> bool" where
  "ready E t s \<longleftrightarrow> conforms (reconcile_ok E) (st_log s) \<and> fetched (st_log s) = Some t
     \<and> \<not> deleting t \<and> env_ContainsFinalizer E t agentTaskFinalizer
     \<and> \<not> list_ex is_status_write (recent (st_log s)) \<and> clean s"

definition settled :: "'w env \<Rightarrow> AgentTask \<Rightarrow> gerror option \<Rightarrow> 'w st \<Rightarrow> bool" where
  "settled E t err s \<longleftrightarrow> conforms (reconcile_ok E) (st_log s) \<and> fetched (st_log s) = Some t
     \<and> (clean s \<or> err \<noteq> None)"

text \<open>
  What a reconcile may ask of the work queue: another round at once only while the task is new
  or pending, a later round only for a finished task with a time to live, after exactly what is
  left of it, and neither together with an error.
\<close>

definition requeue_ok :: "AgentTask \<Rightarrow> event list \<Rightarrow> reconcile_result \<Rightarrow> bool" where
  "requeue_ok t es r \<longleftrightarrow>
     (res_Requeue (fst r) \<longrightarrow> snd r = None \<and> \<not> deleting t
        \<and> task_Phase t \<in> {'''', AgentTaskPhasePending})
   \<and> (res_RequeueAfter (fst r) \<noteq> 0 \<longrightarrow> snd r = None \<and> \<not> deleting t
        \<and> task_Phase t \<in> terminal_phases
        \<and> (\<exists>ttl c n. spec_TTLSecondsAfterFinished (task_Spec t) = Some ttl
             \<and> status_CompletionTime (task_Status t) = Some c \<and> clock es = Some n
             \<and> res_RequeueAfter (fst r) = time_sub (c + sint ttl * 1000000000) n))"

lemma requeue_ok_no_result [simp]: "requeue_ok t es (no_result, e)"
  by (simp add: requeue_ok_def no_result_def)

definition answered :: "'w env \<Rightarrow> AgentTask \<Rightarrow> reconcile_result \<Rightarrow> 'w st \<Rightarrow> bool" where
  "answered E t r s \<longleftrightarrow> settled E t (snd r) s \<and> requeue_ok t (recent (st_log s)) r"

lemma failed_update [simp]:
  "failed_write (Update_Status t r) \<longleftrightarrow> update_error r \<noteq> None"
  "failed_write (Update_Task t r) \<longleftrightarrow> update_error r \<noteq> None"
  by (cases r; simp add: update_error_def)+

lemma update_error_simps [simp]:
  "update_error (Inl e) = Some e" "update_error (Inr t) = None"
  by (simp_all add: update_error_def)

lemma ready_settled: "ready E t s \<Longrightarrow> settled E t e s"
  by (simp add: ready_def settled_def)

lemma network_secured_append [simp]:
  "network_secured t (xs @ ys) \<longleftrightarrow> network_secured t xs \<or> network_secured t ys"
  "network_secured t [] \<longleftrightarrow> False"
  "network_secured t (e # es) \<longleftrightarrow> secures t e \<or> network_secured t es"
  by (auto simp: network_secured_def)

lemma overdue_append [simp]:
  "overdue t (xs @ ys) \<longleftrightarrow> overdue t xs \<or> overdue t ys"
  "overdue t [] \<longleftrightarrow> False"
  "overdue t (e # es) \<longleftrightarrow> (\<exists>d. deadline t = Some d \<and> reads_after d e) \<or> overdue t es"
  by (auto simp: overdue_def split: option.splits)

lemma in_time_append [simp]: "in_time t (xs @ ys) \<longleftrightarrow> in_time t xs \<or> in_time t ys"
  by (auto simp: in_time_def split: option.splits)

lemmas policy_simps = reconcile_ok_def ready_def settled_def clean_def answered_def

subsection \<open>The operations on owned objects\<close>

lemma owned_objects [simp]:
  "owned_by E t ''-code'' (cm_Meta (code_config_map E t))"
  "owned_by E t ''-netpol'' (np_Meta (task_network_policy E t))"
  "owned_by E t ''-pod'' (pod_Meta (task_pod E t cmName img))"
  "owned_by E t ''-sandbox'' (sb_Meta (task_sandbox E t img))"
  by (simp_all add: owned_by_def code_config_map_def task_network_policy_def task_pod_def
      task_sandbox_def)

lemma task_network_policy_fields [simp]:
  "np_denies_all (task_network_policy E t)"
  "om_Namespace (np_Meta (task_network_policy E t)) = task_Namespace t"
  "np_PodSelector (task_network_policy E t) = [''agenttask.io/task'' \<mapsto> task_Name t]"
  by (simp_all add: task_network_policy_denies) (simp_all add: task_network_policy_def)

lemma task_pod_meta [simp]:
  "om_Namespace (pod_Meta (task_pod E t cmName img)) = task_Namespace t"
  "om_Labels (pod_Meta (task_pod E t cmName img)) ''agenttask.io/task'' = Some (task_Name t)"
  by (simp_all add: task_pod_def task_labels_task)

lemma task_sandbox_meta [simp]: "om_Namespace (sb_Meta (task_sandbox E t img)) = task_Namespace t"
  by (simp add: task_sandbox_def)

lemma ensureCodeConfigMap_ready:
  "ready E t s \<Longrightarrow> wp (ensureCodeConfigMap E t)
     (\<lambda>r s'. case r of Inl err \<Rightarrow> settled E t (Some err) s' | Inr c \<Rightarrow> ready E t s') s"
  unfolding ensureCodeConfigMap_def request_defs
  by (intro wp_intro; simp add: policy_simps)

definition secured :: "'w env \<Rightarrow> AgentTask \<Rightarrow> 'w st \<Rightarrow> bool" where
  "secured E t s \<longleftrightarrow> ready E t s \<and> network_secured t (recent (st_log s))"

lemma ensureNetworkPolicy_secured:
  "ready E t s \<Longrightarrow> wp (ensureNetworkPolicy E t)
     (\<lambda>r s'. case r of Some err \<Rightarrow> settled E t r s' | None \<Rightarrow> secured E t s') s"
  unfolding ensureNetworkPolicy_def request_defs
  by (intro wp_intro; simp add: policy_simps secured_def)

lemma selectBackend_secured:
  "secured E t s \<Longrightarrow> wp (selectBackend E t) (\<lambda>_. secured E t) s"
  unfolding selectBackend_def checkSandboxAvailability_def request_defs Let_def
  by (intro wp_intro; simp add: policy_simps secured_def)

lemma resolveRuntimeProfile_secured:
  "secured E t s \<Longrightarrow> wp (resolveRuntimeProfile E p b n) (\<lambda>_. secured E t) s"
  unfolding resolveRuntimeProfile_def request_defs
  by (intro wp_intro; simp add: policy_simps secured_def)

lemma dispatch_secured:
  "secured E t s \<Longrightarrow> wp (dispatch E t b c img) (\<lambda>r s'. case r of
     Inl err \<Rightarrow> settled E t (Some err) s'
   | Inr t' \<Rightarrow> secured E t s' \<and> (\<exists>ref. t' = set_PodRef ref t) \<and> refers_to_own t' (recent (st_log s'))) s"
  unfolding dispatch_def EnsureSandbox_def ensurePod_def request_defs
  by (intro wp_intro;
      auto simp: policy_simps secured_def task_pod_hardened task_pod_mounts refers_to_own_def
        sandbox_ref_def SandboxGVK_def IgnoreNotFound_def split: if_splits)

subsection \<open>The outcome handlers\<close>

inductive_simps phase_step_to_simps:
  "phase_step p AgentTaskPhasePending"
  "phase_step p AgentTaskPhaseScheduled"
  "phase_step p AgentTaskPhaseRunning"
  "phase_step p AgentTaskPhaseSucceeded"
  "phase_step p AgentTaskPhaseFailed"
  "phase_step p AgentTaskPhaseCanceled"
  "phase_step p AgentTaskPhaseTimeout"

lemma terminal_phases_simps [simp]:
  "AgentTaskPhaseSucceeded \<in> terminal_phases" "AgentTaskPhaseFailed \<in> terminal_phases"
  "AgentTaskPhaseTimeout \<in> terminal_phases" "AgentTaskPhaseCanceled \<in> terminal_phases"
  "AgentTaskPhasePending \<notin> terminal_phases" "AgentTaskPhaseScheduled \<notin> terminal_phases"
  "AgentTaskPhaseRunning \<notin> terminal_phases" "'''' \<notin> terminal_phases"
  by (simp_all add: terminal_phases_def)

inductive_cases phase_step_cases: "phase_step p q"

lemma phase_step_from_terminal:
  "\<lbrakk>phase_step p q; p \<in> terminal_phases\<rbrakk>
   \<Longrightarrow> q = AgentTaskPhaseTimeout \<or> (p = AgentTaskPhaseTimeout \<and> q = AgentTaskPhaseCanceled)"
  by (erule phase_step_cases) (auto simp: terminal_phases_def)

lemma phase_step_stays_terminal:
  "\<lbrakk>phase_step p q; p \<in> terminal_phases\<rbrakk> \<Longrightarrow> q \<in> terminal_phases"
  by (drule (1) phase_step_from_terminal) auto

text \<open>Why a failure is reported, before it is written.\<close>

definition failure_known :: "AgentTask \<Rightarrow> string \<Rightarrow> event list \<Rightarrow> bool" where
  "failure_known t reason es \<longleftrightarrow>
     failure_justified t (set_status (\<lambda>st. st\<lparr>status_Reason := reason\<rparr>) t) es"

lemma failure_justified_mono: "failure_justified t0 t es \<Longrightarrow> failure_justified t0 t (es @ es')"
  unfolding failure_justified_def set_append Un_iff by blast

lemma failure_justified_cong:
  "\<lbrakk>status_Reason (task_Status t) = status_Reason (task_Status t');
    status_ExitCode (task_Status t) = status_ExitCode (task_Status t')\<rbrakk>
   \<Longrightarrow> failure_justified t0 t es = failure_justified t0 t' es"
  by (simp add: failure_justified_def exit_reported_def)

lemma failure_known_justifies:
  "\<lbrakk>failure_known t0 reason es; status_Reason (task_Status t) = reason;
    status_ExitCode (task_Status t) = status_ExitCode (task_Status t0)\<rbrakk>
   \<Longrightarrow> failure_justified t0 t (es @ es')"
  using failure_justified_cong [of t "set_status (\<lambda>st. st\<lparr>status_Reason := reason\<rparr>) t0" t0 es]
  by (simp add: failure_known_def failure_justified_mono)

lemma failure_known_intros [simp]:
  "task_Phase t = AgentTaskPhasePending \<Longrightarrow>
     failure_known t AgentTaskReasonBackendSelectionFailed es"
  "task_Phase t = AgentTaskPhasePending \<Longrightarrow>
     failure_known t AgentTaskReasonProfileResolutionFailed es"
  "IsNotFound err \<Longrightarrow>
     failure_known t AgentTaskReasonPodMissing (es @ [Get_Pod (pod_key t) (Inl err)])"
  by (auto simp: failure_known_def failure_justified_def)

lemma failure_known_image_pull [simp]:
  "\<lbrakk>pst_Phase (pod_Status p) = PodPending; first_image_pull (statuses p) = Some (cs, w)\<rbrakk> \<Longrightarrow>
     failure_known t AgentTaskReasonImagePullFailed (es @ [Get_Pod (pod_key t) (Inr p)])"
  unfolding failure_known_def failure_justified_def
  by (intro disjI2 disjI1 exI [of _ p]) (auto dest!: first_image_pull_stuck)

lemma shows_intros [simp]:
  "pst_Phase (pod_Status p) = PodSucceeded \<Longrightarrow> shows_success p"
  "pst_Phase (pod_Status p) = PodFailed \<Longrightarrow> shows_failure p"
  "\<lbrakk>pst_Phase (pod_Status p) = PodRunning; task_exit (statuses p) = Some 0\<rbrakk> \<Longrightarrow> shows_success p"
  "\<lbrakk>pst_Phase (pod_Status p) = PodRunning; task_exit (statuses p) = Some c; c \<noteq> 0\<rbrakk>
   \<Longrightarrow> shows_failure p"
  by (auto simp: shows_success_def shows_failure_def)

lemma updatePhaseFailure_conform:
  "\<lbrakk>ready E t s; task_Phase t \<in> {AgentTaskPhasePending, AgentTaskPhaseScheduled, AgentTaskPhaseRunning};
    failure_known t reason (recent (st_log s)); \<not> in_sandbox t\<rbrakk>
   \<Longrightarrow> wp (updatePhaseFailure E t reason message) (settled E t) s"
  unfolding updatePhaseFailure_def observe_duration_def effect_defs Let_def
  by (intro wp_intro; auto simp: policy_simps phase_allowed_def phase_step_to_simps
      failure_known_justifies)

definition pod_read :: "AgentTask \<Rightarrow> Pod \<Rightarrow> 'w st \<Rightarrow> bool" where
  "pod_read t p s \<longleftrightarrow> Get_Pod (pod_key t) (Inr p) \<in> set (recent (st_log s))"

lemma failure_justifiedI:
  "\<lbrakk>Get_Pod (pod_key t0) (Inr p) \<in> set es; shows_failure p; exit_reported p t0 t\<rbrakk>
   \<Longrightarrow> failure_justified t0 t es"
  by (auto simp: failure_justified_def)

lemma failure_reports:
  "exit_reported p t (set_status (failure_from_statuses (statuses p)) (set_status (\<lambda>st.
     st\<lparr>status_Phase := q, status_CompletionTime := c, status_Reason := r, status_Message := m\<rparr>) t))"
  by (simp add: exit_reported_def split: option.splits)

lemma handlePodFailure_conform:
  "\<lbrakk>ready E t s; pod_read t pod s; task_Phase t \<in> {AgentTaskPhaseScheduled, AgentTaskPhaseRunning};
    shows_failure pod; \<not> in_sandbox t\<rbrakk>
   \<Longrightarrow> wp (handlePodFailure E t pod) (settled E t) s"
  unfolding handlePodFailure_def observe_duration_def effect_defs Let_def
  by (intro wp_intro; auto simp: policy_simps pod_read_def phase_allowed_def phase_step_to_simps
      intro: failure_justifiedI [OF _ _ failure_reports])

lemma success_justifiedI:
  "\<lbrakk>Get_Pod (pod_key t0) (Inr p) \<in> set es; shows_success p; exit_reported p t0 t;
    result_reported p t0 t\<rbrakk> \<Longrightarrow> success_justified t0 t es"
  by (auto simp: success_justified_def)

lemma success_reports:
  "exit_reported p t (set_status (success_from_statuses (statuses p)) (set_status (\<lambda>st.
     st\<lparr>status_Phase := q, status_CompletionTime := c\<rparr>) t))"
  "result_reported p t (set_status (success_from_statuses (statuses p)) (set_status (\<lambda>st.
     st\<lparr>status_Phase := q, status_CompletionTime := c\<rparr>) t))"
  by (simp_all add: exit_reported_def result_reported_def split: option.splits)

lemma handlePodSuccess_conform:
  "\<lbrakk>ready E t s; pod_read t pod s; task_Phase t \<in> {AgentTaskPhaseScheduled, AgentTaskPhaseRunning};
    shows_success pod; \<not> in_sandbox t\<rbrakk>
   \<Longrightarrow> wp (handlePodSuccess E t pod) (settled E t) s"
  unfolding handlePodSuccess_def observe_duration_def effect_defs Let_def
  by (intro wp_intro; auto simp: policy_simps pod_read_def phase_allowed_def phase_step_to_simps
      intro: success_justifiedI [OF _ _ success_reports])

subsection \<open>The phase handlers\<close>

text \<open>
  The contract between the switch over the phase and the handler of a phase: started on the
  task that was read, in its phase, the handler ends settled. The switch turns the handler's
  error into the result of the reconcile.
\<close>

lemmas handler_intro = wp_intro
  wp_conseq [OF ensureCodeConfigMap_ready]
  wp_conseq [OF ensureNetworkPolicy_secured]
  wp_conseq [OF selectBackend_secured]
  wp_conseq [OF resolveRuntimeProfile_secured]
  wp_conseq [OF dispatch_secured]
  updatePhaseFailure_conform handlePodFailure_conform handlePodSuccess_conform

locale phase_handler =
  fixes run :: "'w env \<Rightarrow> AgentTask \<Rightarrow> ('w, gerror option) act"
    and phase :: string
  assumes settles: "\<lbrakk>ready E t s; task_Phase t = phase\<rbrakk> \<Longrightarrow> wp (run E t) (settled E t) s"
begin

lemma branch_answers:
  assumes "ready E t s" "task_Phase t = phase"
    and "res = no_result \<or> phase = AgentTaskPhasePending \<and> res = no_result\<lparr>res_Requeue := True\<rparr>"
  shows "wp (do {
     e \<leftarrow> run E t;
     (case e of Some err \<Rightarrow> ret (no_result, Some err) | None \<Rightarrow> ret (res, None))
   }) (answered E t) s"
  using assms(2,3)
  by (intro wp_bindI wp_conseq [OF settles [OF assms(1,2)]] wp_intro;
      use assms(1) in \<open>auto simp: answered_def settled_def requeue_ok_def no_result_def ready_def\<close>)

end

interpretation pending: phase_handler reconcilePending AgentTaskPhasePending
  unfolding reconcilePending_def UpdateTaskStatus_def
  by unfold_locales
     (intro handler_intro; auto simp: secured_def policy_simps phase_allowed_def
        phase_step_to_simps in_sandbox_def)

interpretation scheduled: phase_handler reconcileScheduled AgentTaskPhaseScheduled
  unfolding reconcileScheduled_def UpdateTaskStatus_def GetPod_def
  by unfold_locales
     (intro handler_intro;
      auto simp: policy_simps pod_read_def phase_allowed_def phase_step_to_simps in_sandbox_def)

interpretation running: phase_handler reconcileRunning AgentTaskPhaseRunning
  unfolding reconcileRunning_def GetPod_def
  by unfold_locales
     (intro handler_intro;
      auto simp: policy_simps pod_read_def phase_allowed_def phase_step_to_simps in_sandbox_def)

lemma reconcileCanceled_conform:
  "\<lbrakk>ready E t s; spec_Canceled (task_Spec t);
    task_Phase t \<notin> {'''', AgentTaskPhaseSucceeded, AgentTaskPhaseFailed, AgentTaskPhaseCanceled}\<rbrakk>
   \<Longrightarrow> wp (reconcileCanceled E t) (answered E t) s"
  unfolding reconcileCanceled_def observe_duration_def effect_defs Let_def
  by (intro wp_intro; auto simp: policy_simps phase_allowed_def phase_step_to_simps)

subsection \<open>Deadlines\<close>

lemma task_deadline:
  "time_add start_time
     (duration_of_int32 (spec_TimeoutSeconds (task_Spec t)) * Second + 2 * Second) =
   start_time + (sint (spec_TimeoutSeconds (task_Spec t)) + 2) * 1000000000"
  using sint_seconds [of 2000000000 "spec_TimeoutSeconds (task_Spec t)"]
  by (simp add: time_add_def Second_def algebra_simps)

lemma checkTimeout_wp:
  "ready E t s \<Longrightarrow> wp (checkTimeout E t)
     (\<lambda>late s'. ready E t s' \<and> (late \<longrightarrow> overdue t (recent (st_log s')))
        \<and> (\<not> late \<longrightarrow> in_time t (recent (st_log s')))) s"
  unfolding checkTimeout_def task_deadline Let_def Now_def
  by (intro wp_intro; auto simp: policy_simps deadline_def time_after_def in_time_def)

lemma reconcileTimeout_conform:
  "\<lbrakk>ready E t s; overdue t (recent (st_log s)); task_Phase t \<noteq> ''''\<rbrakk>
   \<Longrightarrow> wp (reconcileTimeout E t) (answered E t) s"
  unfolding reconcileTimeout_def observe_duration_def effect_defs Let_def
  by (intro wp_intro; auto simp: policy_simps phase_allowed_def phase_step_to_simps)

subsection \<open>Deletion and the time to live\<close>

lemma reconcileDeleted_conform:
  "\<lbrakk>conforms (reconcile_ok E) (st_log s); fetched (st_log s) = Some t; deleting t; clean s\<rbrakk>
   \<Longrightarrow> wp (reconcileDeleted E t) (answered E t) s"
  unfolding reconcileDeleted_def finalizeAgentTask_def request_defs
  by (intro wp_intro; auto simp: policy_simps pod_released_def absent_def)

lemma reconcileFinished_conform:
  "\<lbrakk>ready E t s; in_time t (recent (st_log s)); task_Phase t \<in> terminal_phases\<rbrakk>
   \<Longrightarrow> wp (reconcileFinished E t) (answered E t) s"
  unfolding reconcileFinished_def request_defs Let_def
  by (intro wp_intro; auto simp: policy_simps time_add_def sint_seconds_0 time_after_def
      IgnoreNotFound_def requeue_ok_def no_result_def split: if_splits)

lemma reconcilePhase_conform:
  "\<lbrakk>ready E t s; in_time t (recent (st_log s))\<rbrakk> \<Longrightarrow> wp (reconcilePhase E t) (answered E t) s"
  unfolding reconcilePhase_def
  by (intro wp_ifI wp_returnI pending.branch_answers scheduled.branch_answers
      running.branch_answers reconcileFinished_conform;
      auto simp: terminal_phases_def answered_def ready_settled)

lemma reconcileActive_conform:
  "ready E t s \<Longrightarrow> wp (reconcileActive E t) (answered E t) s"
  unfolding reconcileActive_def UpdateTaskStatus_def Now_def
  by (intro wp_intro wp_conseq [OF checkTimeout_wp] reconcilePhase_conform
      reconcileCanceled_conform reconcileTimeout_conform;
      auto simp: policy_simps phase_allowed_def phase_step_to_simps requeue_ok_def no_result_def
        in_sandbox_def)

text \<open>The state after a reconcile of any request.\<close>

definition reconciled :: "'w env \<Rightarrow> reconcile_result \<Rightarrow> 'w st \<Rightarrow> bool" where
  "reconciled E r s \<longleftrightarrow> conforms (reconcile_ok E) (st_log s)
     \<and> (clean s \<or> snd r \<noteq> None)
     \<and> (case fetched (st_log s) of
          None \<Rightarrow> fst r = no_result
        | Some t \<Rightarrow> requeue_ok t (recent (st_log s)) r)"

lemma answered_reconciled: "answered E t r s \<Longrightarrow> reconciled E r s"
  by (simp add: answered_def settled_def reconciled_def)

lemma Reconcile_conform:
  "conforms (reconcile_ok E) (st_log s) \<Longrightarrow> wp (Reconcile E req) (reconciled E) s"
  unfolding Reconcile_def GetTask_def UpdateTask_def
  by (intro wp_intro wp_conseq [OF reconcileActive_conform answered_reconciled]
      wp_conseq [OF reconcileDeleted_conform answered_reconciled];
      auto simp: policy_simps deleting_def reconciled_def)

lemma worker_log_conforms: "conforms (reconcile_ok E) (worker_log E reqs w)"
  by (rule worker_logI [where I = "\<lambda>s. conforms (reconcile_ok E) (st_log s)"])
     (auto simp: reconciled_def intro: wp_conseq [OF Reconcile_conform])

end
