(* ===== verification/ReconcileSafety.thy ===== *)
theory ReconcileSafety
  imports ReconcilePolicy
begin

text \<open>
  The safety properties of the reconciler, for every environment: whatever the API server
  answers, whatever other actors do between two requests, and for every queue of requests,
  the history of the worker conforms to each policy of ReconcilePolicy.
\<close>

lemma worker_log_policy:
  "(\<And>h e. reconcile_ok E h e \<Longrightarrow> ok h e) \<Longrightarrow> conforms ok (worker_log E reqs w)"
  by (rule conforms_mono [OF worker_log_conforms])

subsection \<open>Created objects\<close>

text \<open>C2: Every pod the operator creates is hardened: it runs as the non-root user 1000 with
  the runtime's seccomp profile and is never restarted; its task container cannot escalate
  privileges, holds no capability and has a read-only root file system; every volume mount
  resolves to a volume of the pod.\<close>

theorem pods_hardened: "conforms ok_hardened (worker_log E reqs w)"
  by (rule worker_log_policy) (simp add: reconcile_ok_def)

text \<open>C3: No pod or sandbox is created before, in the same reconcile, the network policy of its
  task was found or a policy denying all ingress and egress to the task's label was created; a
  created pod lies in the task's namespace and carries that label.\<close>

theorem network_policy_before_workload: "conforms ok_isolated (worker_log E reqs w)"
  by (rule worker_log_policy) (simp add: reconcile_ok_def)

text \<open>C27: Every object the operator creates is named after the task that was read, lies in its
  namespace and has it as the only owner, so it is collected with the task.\<close>

theorem objects_owned: "conforms (ok_owned E) (worker_log E reqs w)"
  by (rule worker_log_policy) (simp add: reconcile_ok_def)

text \<open>The policy created for one task selects the pod created for another exactly when the
  two tasks are the same one, by namespace and name: it always covers the pod of its own task,
  whatever the tenant label, and never captures the pod of a different task.\<close>

theorem network_policy_selects_own_pods:
  "np_selects (task_network_policy E t) (pod_Meta (task_pod E t' cmName img)) \<longleftrightarrow>
     task_Namespace t' = task_Namespace t \<and> task_Name t' = task_Name t"
  by (auto simp: task_network_policy_selects_iff task_pod_def task_labels_task)

subsection \<open>Status writes\<close>

text \<open>C1: Every status write keeps the metadata and the spec of the task that was read, is made
  for a live task with its finalizer, and moves the phase along the state machine
  \<open>phase_step\<close>: to Canceled only when the spec asks for it, to Timeout only after the clock was
  read past the deadline.\<close>

theorem phases_follow_machine: "conforms (ok_phase E) (worker_log E reqs w)"
  by (rule worker_log_policy) (simp add: reconcile_ok_def)

text \<open>C20: The start time is written with the first phase and never changed afterwards; the
  completion time is written with every terminal phase and with no other; both are a clock
  reading of the same reconcile.\<close>

theorem timestamps_from_clock: "conforms ok_times (worker_log E reqs w)"
  by (rule worker_log_policy) (simp add: reconcile_ok_def)

text \<open>A reconcile writes the status at most once, so no outcome is overwritten within it.\<close>

theorem status_written_once: "conforms ok_once (worker_log E reqs w)"
  by (rule worker_log_policy) (simp add: reconcile_ok_def)

text \<open>
  From a terminal phase the machine only moves to Timeout, or from Timeout to Canceled.
\<close>

fun ok_terminal :: "event list \<Rightarrow> event \<Rightarrow> bool" where
  "ok_terminal h (Update_Status t r) = (case fetched h of
     None \<Rightarrow> False
   | Some t0 \<Rightarrow> task_Phase t0 \<in> terminal_phases \<longrightarrow>
       (task_Phase t = AgentTaskPhaseTimeout \<and> overdue t0 (recent h))
     \<or> (task_Phase t0 = AgentTaskPhaseTimeout \<and> task_Phase t = AgentTaskPhaseCanceled
        \<and> spec_Canceled (task_Spec t0)))"
| "ok_terminal h e = True"

lemma ok_phase_terminal: "ok_phase E h e \<Longrightarrow> ok_terminal h e"
  by (cases e) (auto simp: phase_allowed_def dest: phase_step_from_terminal)

text \<open>A finished task is never reactivated. The only status writes on a task read in a
  terminal phase turn it into Timeout, and only when the clock was read past its deadline, or
  turn Timeout into Canceled, and only on the user's request.\<close>

theorem terminal_phase_left_only_by_deadline: "conforms ok_terminal (worker_log E reqs w)"
  by (rule worker_log_policy) (auto simp: reconcile_ok_def intro: ok_phase_terminal)

text \<open>C4: No outcome without evidence. A task is reported Succeeded only when a pod read in the same
  reconcile under the task's reference has succeeded, or is running with its task container
  terminated with exit code 0; exit code and result are those of the task container. It is
  reported Failed only when the pod shows failure, is reported missing (reason PodMissing), is
  stuck pulling an image (ImagePullFailed), or when the pending task found no backend or image.\<close>

theorem outcomes_justified: "conforms ok_outcome (worker_log E reqs w)"
  by (rule worker_log_policy) (simp add: reconcile_ok_def)

text \<open>C35: A task in a sandbox is never given an outcome: when the task that was read is scheduled or
  running and refers to a Sandbox object, the only status writes are Running, Canceled and
  Timeout. Such a task ends only by cancellation or by its deadline.\<close>

theorem sandbox_tasks_get_no_outcome: "conforms ok_sandbox (worker_log E reqs w)"
  by (rule worker_log_policy) (simp add: reconcile_ok_def)

subsection \<open>Deletions and metrics\<close>

text \<open>C8: The finalizer is added only to a task that is not being deleted and lacks it; it is
  removed only from a task that is being deleted and only after, in the same reconcile, its pod
  was reported absent or its deletion was accepted, or the task never had one.\<close>

theorem finalizer_protocol: "conforms (ok_finalizer E) (worker_log E reqs w)"
  by (rule worker_log_policy) (simp add: reconcile_ok_def)

text \<open>C10: The operator deletes a pod only when the task that was read refers to it and the task is
  being deleted, is cancelled, is past its deadline, or has its success or failure already stored
  by the API server: the result of a finished pod is never lost with the pod.\<close>

theorem pod_deletion_justified: "conforms ok_pod_deletion (worker_log E reqs w)"
  by (rule worker_log_policy) (simp add: reconcile_ok_def)

text \<open>The operator deletes a task only when the task that was read is not already being
  deleted, is in a terminal phase and has a time to live that the clock, read in the same
  reconcile, has strictly passed since the completion time.\<close>

theorem task_deletion_justified: "conforms ok_task_deletion (worker_log E reqs w)"
  by (rule worker_log_policy) (simp add: reconcile_ok_def)

text \<open>The time-to-live clean-up runs only inside the task's deadline: a reconcile that
  deletes a task with a timeout has also read a time not after the deadline. A task whose time
  to live ends after its deadline is therefore not cleaned up by a reconcile whose readings of
  the clock are all past the deadline.\<close>

theorem ttl_cleanup_only_before_deadline: "conforms ok_ttl_window (worker_log E reqs w)"
  by (rule worker_log_policy) (simp add: reconcile_ok_def)

text \<open>The counter of succeeded tasks is incremented only after the API server stored the
  outcome in the same reconcile.\<close>

theorem success_counted_after_store: "conforms ok_success_counted (worker_log E reqs w)"
  by (rule worker_log_policy) (simp add: reconcile_ok_def)

subsection \<open>Answers to the work queue\<close>

lemma Reconcile_reconciled: "reconciled E (fst (run_state (Reconcile E req) (start w)))
    (snd (run_state (Reconcile E req) (start w)))"
  using Reconcile_conform [of E "start w" req] by (simp add: wp_def case_prod_unfold)

definition writes_reported :: "event list \<Rightarrow> reconcile_result \<Rightarrow> bool" where
  "writes_reported es r = (list_ex failed_write es \<longrightarrow> snd r \<noteq> None)"

text \<open>C7: No failed write is lost. When the API server refuses a create, an update, a status
  write or a deletion (an absent object apart) of a reconcile, the reconcile returns an error,
  so the work queue retries it.\<close>

theorem failed_writes_reported:
  "case run_state (Reconcile E req) (start w) of
     (r, s) \<Rightarrow> writes_reported (recent (st_log s)) r"
  using Reconcile_reconciled [of E req w]
  by (auto simp: reconciled_def writes_reported_def clean_def split: prod.splits)

text \<open>C25: A reconcile asks for another round at once only for a task that was new or pending, and
  for a later one only for a finished task with a time to live, after exactly what the clock
  says is left of it; never together with an error. In particular a scheduled or running task is
  not put back on the queue, so its deadline is noticed only when another event arrives.\<close>

theorem requeue_discipline:
  "case run_state (Reconcile E req) (start w) of
     (r, s) \<Rightarrow> (case fetched (st_log s) of
        None \<Rightarrow> fst r = no_result
      | Some t \<Rightarrow> requeue_ok t (recent (st_log s)) r)"
  using Reconcile_reconciled [of E req w]
  by (simp add: reconciled_def case_prod_unfold)

end
