(* ===== verification/ReconcileBehaviour.thy ===== *)
theory ReconcileBehaviour
  imports ReconcilePolicy
begin

text \<open>
  What single operations of the reconciler compute and count, for every environment: the
  deadline check, the decision of a running task, the status a finished pod leaves, and the
  numbers of metric updates.
\<close>

subsection \<open>The deadline check\<close>

text \<open>C24: The deadline check is exact. The code adds 64-bit durations; for every 32-bit timeout
  neither the product nor the sum wraps, and the answer is whether the clock is strictly past
  start time plus timeout plus two seconds. A task without a positive timeout or without a start
  time is never late.\<close>

theorem checkTimeout_exact:
  "fst (run_state (checkTimeout E t) s) =
     (case deadline t of
        None \<Rightarrow> False
      | Some d \<Rightarrow> d < fst (env_Now E (st_world s)))"
  by (auto simp: checkTimeout_def task_deadline deadline_def Now_def run_call time_after_def
      not_le not_less Let_def split: option.splits prod.splits)

subsection \<open>The outcome of a pod\<close>

text \<open>The failure loop equals its reference. The first terminated status of the task container
  decides exit code, reason and message; only the statuses up to it can report an image that is
  stuck, of which the last one counts, and its message survives only when the container left
  none.\<close>

theorem failure_loop_decides:
  "failure_from_statuses css st =
     (case find terminated_task css of
        None \<Rightarrow> fold with_image_pull css st
      | Some cs \<Rightarrow> with_exit (the (cs_Terminated cs))
          (with_image_pull cs (fold with_image_pull (before_terminated css) st)))"
  by (rule failure_from_statuses_spec)

text \<open>The success loop equals its reference: exit code and result come from the first
  terminated status of the task container; without one the status is unchanged, and an empty
  termination message leaves the result alone.\<close>

theorem success_loop_decides:
  "success_from_statuses css st =
     (case find terminated_task css of
        None \<Rightarrow> st
      | Some cs \<Rightarrow> st\<lparr>status_ExitCode := cst_ExitCode (the (cs_Terminated cs)),
           status_Result := (if cst_Message (the (cs_Terminated cs)) \<noteq> ''''
             then Some \<lparr>er_JSON = cst_Message (the (cs_Terminated cs))\<rparr> else status_Result st)\<rparr>)"
  by (rule success_from_statuses_spec)

subsection \<open>Metrics\<close>

definition new_events :: "'w st \<Rightarrow> 'w st \<Rightarrow> event list" where
  "new_events s s' = drop (length (st_log s)) (st_log s')"

fun counts :: "string \<Rightarrow> event \<Rightarrow> bool" where
  "counts phase (Counter_Inc p reason) = (p = phase)"
| "counts phase e = False"

fun releases_pod :: "event \<Rightarrow> bool" where
  "releases_pod (Delete_Pod p r) = absent r"
| "releases_pod e = False"

definition count_events :: "('e \<Rightarrow> bool) \<Rightarrow> 'e list \<Rightarrow> nat" where
  "count_events P es = length (filter P es)"

lemma new_events_simps [simp]:
  "new_events s \<lparr>st_world = w, st_log = st_log s @ es\<rparr> = es"
  "new_events s (s'\<lparr>st_log := st_log s @ es\<rparr>) = es"
  by (simp_all add: new_events_def)

text \<open>A failed pod is counted once when the failure is noticed, before it is stored, and once
  more for every reconcile that gets as far as releasing the pod: the counter of failed tasks
  rises by one plus the number of accepted pod deletions, so a failure handled without an error
  counts twice.\<close>

theorem failure_counted_again_on_release:
  "wp (handlePodFailure E t pod) (\<lambda>_ s'.
     count_events (counts ''Failed'') (new_events s s') =
       Suc (count_events releases_pod (new_events s s'))) s"
  unfolding handlePodFailure_def observe_duration_def effect_defs Let_def
  by (intro wp_intro; simp add: count_events_def absent_def)

text \<open>A succeeded pod is counted once, exactly when its deletion is accepted or it is already
  gone: the counter of succeeded tasks rises with the number of released pods.\<close>

theorem success_counted_once_on_release:
  "wp (handlePodSuccess E t pod) (\<lambda>_ s'.
     count_events (counts ''Succeeded'') (new_events s s') =
       count_events releases_pod (new_events s s')) s"
  unfolding handlePodSuccess_def observe_duration_def effect_defs Let_def
  by (intro wp_intro; simp add: count_events_def absent_def)

end
