(* ===== verification/EnsureObject.thy ===== *)
theory EnsureObject
  imports SandboxManager
begin

text \<open>
  The interface the four ensure operations share with the API server: a kind of objects that
  can be read and created by name. The locale states the documented behaviour of the two
  requests over a view of the stored objects; its lemmas say what reading first and
  creating when absent achieves, once for all kinds.
\<close>

definition ensure_object ::
  "('w, gerror + 'o) act \<Rightarrow> ('w, gerror + 'o) act \<Rightarrow> ('w, gerror + 'o) act" where
  "ensure_object get_it create_it = do {
     r \<leftarrow> get_it;
     (case r of
        Inl err \<Rightarrow> (if IsNotFound err then create_it else ret (Inl err))
      | Inr x \<Rightarrow> ret (Inr x))
   }"

locale object_kind =
  fixes get :: "NamespacedName \<Rightarrow> 'w \<Rightarrow> (gerror + 'o) \<times> 'w"
    and create :: "'o \<Rightarrow> 'w \<Rightarrow> (gerror + 'o) \<times> 'w"
    and key :: "'o \<Rightarrow> NamespacedName"
    and view :: "'w \<Rightarrow> NamespacedName \<Rightarrow> 'o option"
  assumes get_present: "view w k = Some x \<Longrightarrow> get k w = (Inr x, w)"
    and get_absent: "view w k = None \<Longrightarrow> \<exists>e. IsNotFound e \<and> get k w = (Inl e, w)"
    and create_absent: "view w (key x) = None \<Longrightarrow>
      \<exists>y w'. create x w = (Inr y, w') \<and> view w' = (view w)(key x \<mapsto> y)"
begin

lemma ensure_present:
  "view (st_world s) k = Some x \<Longrightarrow>
   run_state (ensure_object (call (get k) ev) c) s = (Inr x, s\<lparr>st_log := st_log s @ [ev (Inr x)]\<rparr>)"
  by (simp add: ensure_object_def run_call get_present)

lemma ensure_absent:
  assumes "view (st_world s) k = None" "key x = k"
  shows "\<exists>y s'. run_state (ensure_object (call (get k) ev) (call (create x) ev')) s = (Inr y, s')
     \<and> view (st_world s') = (view (st_world s))(k \<mapsto> y)"
proof -
  obtain e where e: "IsNotFound e" "get k (st_world s) = (Inl e, st_world s)"
    using get_absent [OF assms(1)] by blast
  moreover obtain y w' where "create x (st_world s) = (Inr y, w')"
      "view w' = (view (st_world s))(key x \<mapsto> y)"
    using create_absent assms by blast
  ultimately show ?thesis
    using assms(2) by (auto simp: ensure_object_def run_call)
qed

text \<open>
  Ensuring establishes the object, leaves every other object alone, keeps an object that is
  already there, and once more returns the same object without another create.
\<close>

lemma ensure_establishes:
  assumes "key x = k"
  shows "\<exists>y s'. run_state (ensure_object (call (get k) ev) (call (create x) ev')) s = (Inr y, s')
     \<and> view (st_world s') = (view (st_world s))(k \<mapsto> y)
     \<and> (\<forall>z. view (st_world s) k = Some z \<longrightarrow> y = z)
     \<and> run_state (ensure_object (call (get k) ev) (call (create x) ev')) s' =
         (Inr y, s'\<lparr>st_log := st_log s' @ [ev (Inr y)]\<rparr>)"
proof (cases "view (st_world s) k")
  case None
  from ensure_absent [OF this assms] obtain y s' where
    "run_state (ensure_object (call (get k) ev) (call (create x) ev')) s = (Inr y, s')"
    "view (st_world s') = (view (st_world s))(k \<mapsto> y)" by blast
  with None show ?thesis
    using ensure_present [of s' k y] by auto
next
  case (Some z)
  then show ?thesis
    by (auto simp: ensure_present fun_upd_idem)
qed

end

subsection \<open>The operations of the program are ensure operations\<close>

lemma ensureNetworkPolicy_ensures:
  "ensureNetworkPolicy E t = do {
     r \<leftarrow> ensure_object
       (GetNetworkPolicy E (NamespacedName (task_Namespace t) (task_Name t @ ''-netpol'')))
       (CreateNetworkPolicy E (task_network_policy E t));
     ret (case r of Inl err \<Rightarrow> Some err | Inr np \<Rightarrow> None)
   }"
  by (rule state_ext)
     (auto simp: ensureNetworkPolicy_def ensure_object_def Let_def split: prod.splits sum.splits)

lemma ensurePod_ensures:
  "ensurePod E t cmName img = do {
     r \<leftarrow> ensure_object
       (GetPod E (NamespacedName (task_Namespace t) (task_Name t @ ''-pod'')))
       (CreatePod E (task_pod E t cmName img));
     ret (map_sum id (\<lambda>pod. set_PodRef (pod_ref pod) t) r)
   }"
  by (rule state_ext)
     (auto simp: ensurePod_def ensure_object_def Let_def split: prod.splits sum.splits)

lemma ensureCodeConfigMap_ensures:
  "\<lbrakk>code_ConfigMapRef (spec_Code (task_Spec t)) = None; code_Source (spec_Code (task_Spec t)) \<noteq> ''''\<rbrakk>
   \<Longrightarrow> ensureCodeConfigMap E t = do {
     r \<leftarrow> ensure_object
       (GetConfigMap E (NamespacedName (task_Namespace t) (task_Name t @ ''-code'')))
       (CreateConfigMap E (code_config_map E t));
     ret (map_sum id (\<lambda>cm. task_Name t @ ''-code'') r)
   }"
  by (rule state_ext)
     (auto simp: ensureCodeConfigMap_def ensure_object_def Let_def split: prod.splits sum.splits)

abbreviation pod_kind :: "'w env \<Rightarrow> ('w \<Rightarrow> NamespacedName \<Rightarrow> Pod option) \<Rightarrow> bool" where
  "pod_kind E \<equiv> object_kind (env_GetPod E) (env_CreatePod E) (\<lambda>p. object_key (pod_Meta p))"

abbreviation netpol_kind :: "'w env \<Rightarrow> ('w \<Rightarrow> NamespacedName \<Rightarrow> NetworkPolicy option) \<Rightarrow> bool" where
  "netpol_kind E \<equiv>
     object_kind (env_GetNetworkPolicy E) (env_CreateNetworkPolicy E) (\<lambda>p. object_key (np_Meta p))"

abbreviation configmap_kind :: "'w env \<Rightarrow> ('w \<Rightarrow> NamespacedName \<Rightarrow> ConfigMap option) \<Rightarrow> bool" where
  "configmap_kind E \<equiv>
     object_kind (env_GetConfigMap E) (env_CreateConfigMap E) (\<lambda>c. object_key (cm_Meta c))"

lemma object_keys [simp]:
  "object_key (pod_Meta (task_pod E t cmName img)) =
     NamespacedName (task_Namespace t) (task_Name t @ ''-pod'')"
  "object_key (np_Meta (task_network_policy E t)) =
     NamespacedName (task_Namespace t) (task_Name t @ ''-netpol'')"
  "object_key (cm_Meta (code_config_map E t)) =
     NamespacedName (task_Namespace t) (task_Name t @ ''-code'')"
  by (simp_all add: object_key_def task_pod_def task_network_policy_def code_config_map_def)

text \<open>Against a server that reads and creates pods by name as documented, ensuring the pod of
  a task succeeds, makes the task refer to the stored pod, keeps a pod that was already there,
  changes no other pod, and when it runs again (a retry of the reconcile) only reads: no
  second pod is created and the reference is the same.\<close>

theorem ensurePod_idempotent:
  assumes "pod_kind E view" and "k = NamespacedName (task_Namespace t) (task_Name t @ ''-pod'')"
  shows "\<exists>pod s'. run_state (ensurePod E t cmName img) s = (Inr (set_PodRef (pod_ref pod) t), s')
     \<and> view (st_world s') = (view (st_world s))(k \<mapsto> pod)
     \<and> (\<forall>old. view (st_world s) k = Some old \<longrightarrow> pod = old)
     \<and> run_state (ensurePod E t cmName img) s' =
         (Inr (set_PodRef (pod_ref pod) t), s'\<lparr>st_log := st_log s' @ [Get_Pod k (Inr pod)]\<rparr>)"
  using object_kind.ensure_establishes [OF assms(1), where x = "task_pod E t cmName img"
      and k = k and s = s and ev = "Get_Pod k" and ev' = "Create_Pod (task_pod E t cmName img)"] assms(2)
  by (auto simp: ensurePod_ensures request_defs)

text \<open>Against such a server, ensuring the network policy succeeds, leaves a policy under the
  task's name in force, the one that was there or a new one, and changes no other policy;
  running it again only reads.\<close>

theorem ensureNetworkPolicy_idempotent:
  assumes "netpol_kind E view" and "k = NamespacedName (task_Namespace t) (task_Name t @ ''-netpol'')"
  shows "\<exists>np s'. run_state (ensureNetworkPolicy E t) s = (None, s')
     \<and> view (st_world s') = (view (st_world s))(k \<mapsto> np)
     \<and> (\<forall>old. view (st_world s) k = Some old \<longrightarrow> np = old)
     \<and> run_state (ensureNetworkPolicy E t) s' =
         (None, s'\<lparr>st_log := st_log s' @ [Get_NetworkPolicy k (Inr np)]\<rparr>)"
  using object_kind.ensure_establishes [OF assms(1), where x = "task_network_policy E t"
      and k = k and s = s and ev = "Get_NetworkPolicy k"
      and ev' = "Create_NetworkPolicy (task_network_policy E t)"] assms(2)
  by (auto simp: ensureNetworkPolicy_ensures request_defs)

end
