(* ===== verification/Cluster.thy ===== *)
theory Cluster
  imports Reconciler EnsureObject "HOL-Library.AList"
begin

text \<open>
  A reference API server: an in-memory object store with the documented behaviour of the
  requests the operator makes, quiescent but for those requests. It is the instance on which
  interfaces are interpreted and witnesses are evaluated; the safety properties do not depend
  on it. Reads return the stored object or NotFound; a create of an existing name fails with
  AlreadyExists; a create starts with an empty status, the status subresource keeps metadata
  and spec, an update keeps the status;
  stored times are whole seconds; an object with finalizers is only marked when it is deleted
  and disappears with its last finalizer.
\<close>

record cluster =
  cl_tasks :: "(NamespacedName \<times> AgentTask) list"
  cl_pods :: "(NamespacedName \<times> Pod) list"
  cl_configmaps :: "(NamespacedName \<times> ConfigMap) list"
  cl_netpols :: "(NamespacedName \<times> NetworkPolicy) list"
  cl_sandboxes :: "(NamespacedName \<times> Sandbox) list"
  cl_sandbox_crd :: bool
  cl_now :: instant

definition not_found :: gerror where
  "not_found = StatusError StatusReasonNotFound ''not found''"

definition already_exists :: gerror where
  "already_exists = StatusError StatusReasonAlreadyExists ''already exists''"

definition store_get :: "(NamespacedName \<times> 'o) list \<Rightarrow> NamespacedName \<Rightarrow> gerror + 'o" where
  "store_get m k = (case map_of m k of None \<Rightarrow> Inl not_found | Some x \<Rightarrow> Inr x)"

definition store_create ::
  "(NamespacedName \<times> 'o) list \<Rightarrow> NamespacedName \<Rightarrow> 'o \<Rightarrow> (gerror + 'o) \<times> (NamespacedName \<times> 'o) list" where
  "store_create m k x = (case map_of m k of
     None \<Rightarrow> (Inr x, AList.update k x m)
   | Some y \<Rightarrow> (Inl already_exists, m))"

definition store_delete ::
  "(NamespacedName \<times> 'o) list \<Rightarrow> NamespacedName \<Rightarrow> gerror option \<times> (NamespacedName \<times> 'o) list" where
  "store_delete m k = (case map_of m k of
     None \<Rightarrow> (Some not_found, m)
   | Some x \<Rightarrow> (None, AList.delete k m))"

definition whole_seconds :: "instant \<Rightarrow> instant" where
  "whole_seconds x = x div 1000000000 * 1000000000"

definition stored_status :: "AgentTaskStatus \<Rightarrow> AgentTaskStatus" where
  "stored_status st = st\<lparr>
     status_StartTime := map_option whole_seconds (status_StartTime st),
     status_CompletionTime := map_option whole_seconds (status_CompletionTime st)\<rparr>"

definition cl_list_tasks :: "string \<Rightarrow> cluster \<Rightarrow> (gerror + AgentTaskList) \<times> cluster" where
  "cl_list_tasks ns w =
     (Inr \<lparr>list_Items = map snd (filter (\<lambda>kt. nn_Namespace (fst kt) = ns) (cl_tasks w))\<rparr>, w)"

text \<open>A missing name is generated from the prefix; the real server draws the suffix at random.\<close>

definition generated_name :: "cluster \<Rightarrow> ObjectMeta \<Rightarrow> ObjectMeta" where
  "generated_name w m = (if om_Name m = '''' \<and> om_GenerateName m \<noteq> ''''
     then m\<lparr>om_Name := om_GenerateName m @ show_nat (length (cl_tasks w))\<rparr> else m)"

definition created_task :: "cluster \<Rightarrow> AgentTask \<Rightarrow> AgentTask" where
  "created_task w t = t\<lparr>task_Meta := generated_name w (task_Meta t), task_Status := empty_status\<rparr>"

definition cl_create_task :: "AgentTask \<Rightarrow> cluster \<Rightarrow> (gerror + AgentTask) \<times> cluster" where
  "cl_create_task t w =
     (let t' = created_task w t in
      (case store_create (cl_tasks w) (object_key (task_Meta t')) t' of
         (r, m) \<Rightarrow> (r, w\<lparr>cl_tasks := m\<rparr>)))"

definition cl_update_task :: "AgentTask \<Rightarrow> cluster \<Rightarrow> (gerror + AgentTask) \<times> cluster" where
  "cl_update_task t w = (let k = object_key (task_Meta t) in
     (case map_of (cl_tasks w) k of
        None \<Rightarrow> (Inl not_found, w)
      | Some old \<Rightarrow>
          (let new = t\<lparr>task_Status := task_Status old\<rparr> in
           if \<not> time_is_zero (om_DeletionTimestamp (task_Meta t)) \<and> om_Finalizers (task_Meta t) = []
           then (Inr new, w\<lparr>cl_tasks := AList.delete k (cl_tasks w)\<rparr>)
           else (Inr new, w\<lparr>cl_tasks := AList.update k new (cl_tasks w)\<rparr>))))"

definition cl_update_status :: "AgentTask \<Rightarrow> cluster \<Rightarrow> (gerror + AgentTask) \<times> cluster" where
  "cl_update_status t w = (let k = object_key (task_Meta t) in
     (case map_of (cl_tasks w) k of
        None \<Rightarrow> (Inl not_found, w)
      | Some old \<Rightarrow>
          (let new = old\<lparr>task_Status := stored_status (task_Status t)\<rparr>
           in (Inr new, w\<lparr>cl_tasks := AList.update k new (cl_tasks w)\<rparr>))))"

definition cl_delete_task :: "AgentTask \<Rightarrow> cluster \<Rightarrow> gerror option \<times> cluster" where
  "cl_delete_task t w = (let k = object_key (task_Meta t) in
     (case map_of (cl_tasks w) k of
        None \<Rightarrow> (Some not_found, w)
      | Some old \<Rightarrow>
          (if om_Finalizers (task_Meta old) = []
           then (None, w\<lparr>cl_tasks := AList.delete k (cl_tasks w)\<rparr>)
           else if time_is_zero (om_DeletionTimestamp (task_Meta old))
           then (None, w\<lparr>cl_tasks := AList.update k
             (old\<lparr>task_Meta := (task_Meta old)\<lparr>om_DeletionTimestamp := Some (cl_now w)\<rparr>\<rparr>) (cl_tasks w)\<rparr>)
           else (None, w))))"

definition cl_create_pod :: "Pod \<Rightarrow> cluster \<Rightarrow> (gerror + Pod) \<times> cluster" where
  "cl_create_pod p w = (case store_create (cl_pods w) (object_key (pod_Meta p)) p of
     (r, m) \<Rightarrow> (r, w\<lparr>cl_pods := m\<rparr>))"

definition cl_delete_pod :: "Pod \<Rightarrow> cluster \<Rightarrow> gerror option \<times> cluster" where
  "cl_delete_pod p w = (case store_delete (cl_pods w) (object_key (pod_Meta p)) of
     (r, m) \<Rightarrow> (r, w\<lparr>cl_pods := m\<rparr>))"

definition cl_create_configmap :: "ConfigMap \<Rightarrow> cluster \<Rightarrow> (gerror + ConfigMap) \<times> cluster" where
  "cl_create_configmap c w = (case store_create (cl_configmaps w) (object_key (cm_Meta c)) c of
     (r, m) \<Rightarrow> (r, w\<lparr>cl_configmaps := m\<rparr>))"

definition cl_create_netpol :: "NetworkPolicy \<Rightarrow> cluster \<Rightarrow> (gerror + NetworkPolicy) \<times> cluster" where
  "cl_create_netpol p w = (case store_create (cl_netpols w) (object_key (np_Meta p)) p of
     (r, m) \<Rightarrow> (r, w\<lparr>cl_netpols := m\<rparr>))"

definition cl_create_sandbox :: "Sandbox \<Rightarrow> cluster \<Rightarrow> (gerror + Sandbox) \<times> cluster" where
  "cl_create_sandbox b w = (case store_create (cl_sandboxes w) (object_key (sb_Meta b)) b of
     (r, m) \<Rightarrow> (r, w\<lparr>cl_sandboxes := m\<rparr>))"

definition set_finalizers :: "(string list \<Rightarrow> string list) \<Rightarrow> AgentTask \<Rightarrow> AgentTask" where
  "set_finalizers f t =
     t\<lparr>task_Meta := (task_Meta t)\<lparr>om_Finalizers := f (om_Finalizers (task_Meta t))\<rparr>\<rparr>"

definition cluster_env :: "cluster env" where
  "cluster_env = \<lparr>
     env_GetTask = (\<lambda>k w. (store_get (cl_tasks w) k, w)),
     env_ListTasks = cl_list_tasks,
     env_CreateTask = cl_create_task,
     env_UpdateTask = cl_update_task,
     env_UpdateTaskStatus = cl_update_status,
     env_DeleteTask = cl_delete_task,
     env_GetPod = (\<lambda>k w. (store_get (cl_pods w) k, w)),
     env_CreatePod = cl_create_pod,
     env_DeletePod = cl_delete_pod,
     env_GetConfigMap = (\<lambda>k w. (store_get (cl_configmaps w) k, w)),
     env_CreateConfigMap = cl_create_configmap,
     env_GetNetworkPolicy = (\<lambda>k w. (store_get (cl_netpols w) k, w)),
     env_CreateNetworkPolicy = cl_create_netpol,
     env_GetCRD = (\<lambda>gvk name w. (if cl_sandbox_crd w then None else Some not_found, w)),
     env_GetSandbox = (\<lambda>k w. (store_get (cl_sandboxes w) k, w)),
     env_CreateSandbox = cl_create_sandbox,
     env_Now = (\<lambda>w. (cl_now w, w)),
     env_ContainsFinalizer = (\<lambda>t f. f \<in> set (om_Finalizers (task_Meta t))),
     env_AddFinalizer = (\<lambda>t f. if f \<in> set (om_Finalizers (task_Meta t)) then t
       else set_finalizers (\<lambda>fs. fs @ [f]) t),
     env_RemoveFinalizer = (\<lambda>t f. set_finalizers (filter (\<lambda>g. g \<noteq> f)) t),
     env_NewControllerRef = (\<lambda>m gvk. \<lparr>
       or_APIVersion = gvk_Group gvk @ ''/'' @ gvk_Version gvk, or_Kind = gvk_Kind gvk,
       or_Name = om_Name m, or_UID = om_UID m, or_Controller = Some True,
       or_BlockOwnerDeletion = Some True\<rparr>)\<rparr>"

definition empty_cluster :: cluster where
  "empty_cluster = \<lparr>cl_tasks = [], cl_pods = [], cl_configmaps = [], cl_netpols = [],
     cl_sandboxes = [], cl_sandbox_crd = False, cl_now = 0\<rparr>"

text \<open>A valid task, as the examples of the repository write it: inline code for Python 3.11, one minute.\<close>

definition sample_task :: AgentTask where
  "sample_task = \<lparr>
     task_Meta = empty_meta\<lparr>om_Name := ''sum'', om_Namespace := ''default'', om_UID := ''u1''\<rparr>,
     task_Spec = empty_spec\<lparr>spec_RuntimeProfile := ''python3.11'',
       spec_Code := \<lparr>code_Source = ''print(1)'', code_ConfigMapRef = None\<rparr>,
       spec_TimeoutSeconds := 60\<rparr>,
     task_Status = empty_status\<rparr>"

text \<open>Evaluation of the store.\<close>

lemma store_get_simps [simp]:
  "map_of m k = Some x \<Longrightarrow> store_get m k = Inr x"
  "map_of m k = None \<Longrightarrow> store_get m k = Inl not_found"
  by (simp_all add: store_get_def)

lemma IsNotFound_not_found [simp]: "IsNotFound not_found" "\<not> IsNotFound already_exists"
  by (simp_all add: not_found_def already_exists_def)

lemma map_of_update [simp]: "map_of (AList.update k x m) = (map_of m)(k \<mapsto> x)"
  by (simp add: fun_eq_iff update_conv)

lemma map_of_delete [simp]: "map_of (AList.delete k m) = (map_of m)(k := None)"
  by (simp add: fun_eq_iff delete_conv)

subsection \<open>The store provides the interfaces\<close>

lemma store_provides:
  assumes "\<And>k w. get k w = (store_get (sel w) k, w)"
    and "\<And>x w. create x w = (case store_create (sel w) (key x) x of (r, m) \<Rightarrow> (r, upd m w))"
    and "\<And>m w. sel (upd m w) = m"
  shows "object_kind get create key (\<lambda>w. map_of (sel w))"
  by unfold_locales (auto simp: assms store_create_def)

interpretation cl_pods: object_kind "env_GetPod cluster_env" "env_CreatePod cluster_env"
    "\<lambda>p. object_key (pod_Meta p)" "\<lambda>w. map_of (cl_pods w)"
  by (rule store_provides [where upd = "\<lambda>m w. w\<lparr>cl_pods := m\<rparr>"])
     (simp_all add: cluster_env_def cl_create_pod_def)

interpretation cl_netpols: object_kind "env_GetNetworkPolicy cluster_env"
    "env_CreateNetworkPolicy cluster_env" "\<lambda>p. object_key (np_Meta p)" "\<lambda>w. map_of (cl_netpols w)"
  by (rule store_provides [where upd = "\<lambda>m w. w\<lparr>cl_netpols := m\<rparr>"])
     (simp_all add: cluster_env_def cl_create_netpol_def)

interpretation cl_configmaps: object_kind "env_GetConfigMap cluster_env"
    "env_CreateConfigMap cluster_env" "\<lambda>c. object_key (cm_Meta c)" "\<lambda>w. map_of (cl_configmaps w)"
  by (rule store_provides [where upd = "\<lambda>m w. w\<lparr>cl_configmaps := m\<rparr>"])
     (simp_all add: cluster_env_def cl_create_configmap_def)

text \<open>The idempotence of the ensure operations at a concrete task.\<close>

lemma ensurePod_idempotent_witness:
  "\<exists>pod s'. run_state (ensurePod cluster_env sample_task ''sum-code'' ''python:3.11-slim'')
       (start empty_cluster) = (Inr (set_PodRef (pod_ref pod) sample_task), s')
     \<and> map_of (cl_pods (st_world s')) (NamespacedName ''default'' ''sum-pod'') = Some pod"
  using ensurePod_idempotent [OF cl_pods.object_kind_axioms refl, where t = sample_task
      and cmName = "''sum-code''" and img = "''python:3.11-slim''" and s = "start empty_cluster"]
  by (fastforce simp: sample_task_def empty_meta_def)

lemma ensureNetworkPolicy_idempotent_witness:
  "\<exists>np s'. run_state (ensureNetworkPolicy cluster_env sample_task) (start empty_cluster) = (None, s')
     \<and> map_of (cl_netpols (st_world s')) (NamespacedName ''default'' ''sum-netpol'') = Some np"
  using ensureNetworkPolicy_idempotent [OF cl_netpols.object_kind_axioms refl,
      where t = sample_task and s = "start empty_cluster"]
  by (fastforce simp: sample_task_def empty_meta_def)

end
