(* ===== verification/Webhook.thy ===== *)
theory Webhook
  imports Cluster ReconcilePolicy
begin

text \<open>
  The validating webhook (internal/webhook/v1alpha1/agenttask_webhook.go): the static checks of
  a task, the limit on active tasks per namespace at creation, the immutable fields at update.
  Its answer is the list of warnings, which is always empty, and the error that rejects the
  request.
\<close>

type_synonym admission = "string list \<times> gerror option"

subsection \<open>The validator\<close>

definition allowedProfiles :: "string list" where
  "allowedProfiles = [''python3.10'', ''python3.11'']"

definition validateAgentTask :: "AgentTask \<Rightarrow> gerror option" where
  "validateAgentTask task =
     (if spec_RuntimeProfile (task_Spec task) \<notin> set allowedProfiles then
        Some (FmtError (''invalid runtimeProfile '' @ [CHR 0x27] @ spec_RuntimeProfile (task_Spec task)
          @ [CHR 0x27] @ ''. Allowed: '' @ show_strings allowedProfiles))
      else if sint (spec_TimeoutSeconds (task_Spec task)) \<le> 0 then
        Some (FmtError ''timeoutSeconds must be greater than 0'')
      else if sint (spec_TimeoutSeconds (task_Spec task)) > 3600 then
        Some (FmtError ''timeoutSeconds cannot exceed 3600 (1 hour)'')
      else None)"

definition MaxActiveTasks :: nat where
  "MaxActiveTasks = 5"

text \<open>The condition of the counting loop, and the loop.\<close>

definition task_active :: "AgentTask \<Rightarrow> bool" where
  "task_active task \<longleftrightarrow> task_Phase task \<noteq> AgentTaskPhaseSucceeded
     \<and> task_Phase task \<noteq> AgentTaskPhaseFailed \<and> task_Phase task \<noteq> AgentTaskPhaseTimeout
     \<and> task_Phase task \<noteq> AgentTaskPhaseCanceled"

fun activeCount :: "AgentTask list \<Rightarrow> nat \<Rightarrow> nat" where
  "activeCount [] n = n"
| "activeCount (task # tasks) n = activeCount tasks (if task_active task then n + 1 else n)"

definition ValidateCreate :: "'w env \<Rightarrow> AgentTask \<Rightarrow> ('w, admission) act" where
  "ValidateCreate E obj =
     (case validateAgentTask obj of
        Some err \<Rightarrow> ret ([], Some err)
      | None \<Rightarrow> do {
          r \<leftarrow> ListTasks E (task_Namespace obj);
          (case r of
             Inl err \<Rightarrow>
               ret ([], Some (FmtWrap ''failed to list tasks for concurrency check: '' err))
           | Inr taskList \<Rightarrow>
               (if activeCount (list_Items taskList) 0 \<ge> MaxActiveTasks then
                  ret ([], Some (FmtError (''too many active tasks in namespace ''
                    @ task_Namespace obj @ '' (max '' @ show_nat MaxActiveTasks @ '')'')))
                else ret ([], None)))
        })"

definition ValidateUpdate :: "AgentTask \<Rightarrow> AgentTask \<Rightarrow> admission" where
  "ValidateUpdate oldObj newObj =
     (if spec_RuntimeProfile (task_Spec newObj) \<noteq> spec_RuntimeProfile (task_Spec oldObj) then
        ([], Some (FmtError ''runtimeProfile is immutable''))
      else if code_Source (spec_Code (task_Spec newObj)) \<noteq> code_Source (spec_Code (task_Spec oldObj)) then
        ([], Some (FmtError ''code.source is immutable''))
      else ([], validateAgentTask newObj))"

definition ValidateDelete :: "AgentTask \<Rightarrow> admission" where
  "ValidateDelete obj = ([], None)"

subsection \<open>What is admitted\<close>

lemma activeCount_filter: "activeCount ts n = n + length (filter task_active ts)"
  by (induction ts arbitrary: n) auto

lemma task_active_terminal: "task_active t \<longleftrightarrow> task_Phase t \<notin> terminal_phases"
  by (auto simp: task_active_def terminal_phases_def)

text \<open>The static validation accepts exactly the tasks with one of the two Python profiles and a
  timeout from 1 to 3600 seconds; a rejection names the first check that fails.\<close>

theorem validateAgentTask_accepts:
  "validateAgentTask t = None \<longleftrightarrow>
     spec_RuntimeProfile (task_Spec t) \<in> {''python3.10'', ''python3.11''}
   \<and> sint (spec_TimeoutSeconds (task_Spec t)) \<in> {1..3600}"
  by (auto simp: validateAgentTask_def allowedProfiles_def)

lemma ValidateCreate_accepts:
  "snd (fst (run_state (ValidateCreate E t) s)) = None \<longleftrightarrow>
     validateAgentTask t = None
   \<and> (\<exists>l. fst (env_ListTasks E (task_Namespace t) (st_world s)) = Inr l
        \<and> length (filter (\<lambda>u. task_Phase u \<notin> terminal_phases) (list_Items l)) < 5)"
  by (auto simp: ValidateCreate_def ListTasks_def run_call activeCount_filter MaxActiveTasks_def
      task_active_terminal [abs_def] split: option.splits prod.splits sum.splits)


text \<open>A history of a task object in which the webhook admitted every update.\<close>

fun admitted_updates :: "AgentTask \<Rightarrow> AgentTask list \<Rightarrow> bool" where
  "admitted_updates t [] = True"
| "admitted_updates t (u # us) = (snd (ValidateUpdate t u) = None \<and> admitted_updates u us)"

lemma ValidateUpdate_accepts:
  "snd (ValidateUpdate t u) = None \<longleftrightarrow>
     spec_RuntimeProfile (task_Spec u) = spec_RuntimeProfile (task_Spec t)
   \<and> code_Source (spec_Code (task_Spec u)) = code_Source (spec_Code (task_Spec t))
   \<and> validateAgentTask u = None"
  by (auto simp: ValidateUpdate_def)

text \<open>C29: Profile and inline code are immutable over any number of admitted updates, and every
  version is valid.\<close>

theorem admitted_updates_immutable:
  assumes "admitted_updates t us" and "u \<in> set us"
  shows "spec_RuntimeProfile (task_Spec u) = spec_RuntimeProfile (task_Spec t)
     \<and> code_Source (spec_Code (task_Spec u)) = code_Source (spec_Code (task_Spec t))
     \<and> validateAgentTask u = None"
  using assms by (induction us arbitrary: t) (auto simp: ValidateUpdate_accepts)

text \<open>An update that redirects the code reference.\<close>

definition redirect_code :: "string \<Rightarrow> AgentTask \<Rightarrow> AgentTask" where
  "redirect_code name t = t\<lparr>task_Spec := (task_Spec t)\<lparr>spec_Code :=
     (spec_Code (task_Spec t))\<lparr>code_ConfigMapRef :=
       Some \<lparr>cmks_Name = name, cmks_Key = ''entrypoint.py'', cmks_Optional = None\<rparr>\<rparr>\<rparr>\<rparr>"

lemma validateAgentTask_redirect [simp]:
  "validateAgentTask (redirect_code name t) = validateAgentTask t"
  by (simp add: validateAgentTask_def redirect_code_def)

text \<open>The code behind a config map reference is not covered by the immutability check: from
  every valid task an update is admitted that points the reference at any config map, and the
  reconciler then runs the code of that config map, ignoring the inline source.\<close>

theorem code_reference_mutable:
  "snd (ValidateUpdate t (redirect_code name t)) = validateAgentTask t
   \<and> fst (run_state (ensureCodeConfigMap E (redirect_code name t)) s) = Inr name"
proof
  show "snd (ValidateUpdate t (redirect_code name t)) = validateAgentTask t"
    unfolding ValidateUpdate_def by (simp add: redirect_code_def validateAgentTask_def)
  show "fst (run_state (ensureCodeConfigMap E (redirect_code name t)) s) = Inr name"
    by (simp add: ensureCodeConfigMap_def redirect_code_def)
qed

text \<open>A valid task never fails for want of an image: whatever the profile config map says, and
  on either backend, its profile resolves.\<close>

theorem admitted_profile_resolves:
  assumes "validateAgentTask t = None"
  shows "\<exists>img. fst (run_state (resolveRuntimeProfile E (spec_RuntimeProfile (task_Spec t)) b ns) s) = Inr img"
  using assms
  by (auto simp: validateAgentTask_def allowedProfiles_def resolveRuntimeProfile_def
      GetConfigMap_def run_call default_profile_image_def
      split: if_splits prod.splits sum.splits option.splits)

lemma sample_task_valid [simp]: "validateAgentTask sample_task = None"
  by (simp add: validateAgentTask_def allowedProfiles_def sample_task_def empty_spec_def)

lemma admitted_profile_resolves_witness:
  "\<exists>img. fst (run_state (resolveRuntimeProfile cluster_env (spec_RuntimeProfile (task_Spec sample_task))
     backendPod ''default'') (start empty_cluster)) = Inr img"
  by (rule admitted_profile_resolves) simp

lemma admitted_updates_immutable_witness:
  "spec_RuntimeProfile (task_Spec (redirect_code ''x'' sample_task)) = spec_RuntimeProfile (task_Spec sample_task)
   \<and> code_Source (spec_Code (task_Spec (redirect_code ''x'' sample_task))) = code_Source (spec_Code (task_Spec sample_task))
   \<and> validateAgentTask (redirect_code ''x'' sample_task) = None"
  by (rule admitted_updates_immutable [where us = "[sample_task, redirect_code ''x'' sample_task]"])
     (simp_all add: ValidateUpdate_accepts, simp add: redirect_code_def)

end
