(* ===== verification/Lifecycle.thy ===== *)
theory Lifecycle
  imports Webhook
begin

text \<open>
  The reconciler against the reference API server: what a reconcile of a stored task leaves
  in the cluster, phase by phase, for any cluster whose objects are stored under their own
  names, and the course of a task from its creation to its end.
\<close>

definition stored_under_key :: "('o \<Rightarrow> ObjectMeta) \<Rightarrow> (NamespacedName \<times> 'o) list \<Rightarrow> bool" where
  "stored_under_key meta m = (\<forall>k x. map_of m k = Some x \<longrightarrow> object_key (meta x) = k)"

definition cluster_wf :: "cluster \<Rightarrow> bool" where
  "cluster_wf w \<longleftrightarrow> stored_under_key task_Meta (cl_tasks w) \<and> stored_under_key pod_Meta (cl_pods w)"

lemma cluster_wfD:
  "\<lbrakk>cluster_wf w; map_of (cl_tasks w) k = Some t\<rbrakk> \<Longrightarrow> object_key (task_Meta t) = k"
  "\<lbrakk>cluster_wf w; map_of (cl_pods w) k = Some p\<rbrakk> \<Longrightarrow> object_key (pod_Meta p) = k"
  by (auto simp: cluster_wf_def stored_under_key_def)

text \<open>The task, read by its name, is live and has only the operator's finalizer.\<close>

definition adopted :: "cluster \<Rightarrow> NamespacedName \<Rightarrow> AgentTask \<Rightarrow> bool" where
  "adopted w k t \<longleftrightarrow> cluster_wf w \<and> map_of (cl_tasks w) k = Some t
     \<and> om_Finalizers (task_Meta t) = [agentTaskFinalizer]"

definition after :: "cluster \<Rightarrow> NamespacedName \<Rightarrow> cluster" where
  "after w k = st_world (snd (run_state (Reconcile cluster_env k) (start w)))"

lemma afterI: "wp (Reconcile cluster_env k) (\<lambda>r s. P (st_world s)) (start w) \<Longrightarrow> P (after w k)"
  by (simp add: wp_def after_def case_prod_unfold)

text \<open>The requests of the operator, answered by the reference server.\<close>

lemma cluster_requests [wp_simps]:
  "wp (GetTask cluster_env k) Q1 s = Q1 (store_get (cl_tasks (st_world s)) k)
     \<lparr>st_world = st_world s, st_log = st_log s @ [Get_Task k (store_get (cl_tasks (st_world s)) k)]\<rparr>"
  "wp (GetPod cluster_env k) Q2 s = Q2 (store_get (cl_pods (st_world s)) k)
     \<lparr>st_world = st_world s, st_log = st_log s @ [Get_Pod k (store_get (cl_pods (st_world s)) k)]\<rparr>"
  "wp (Now cluster_env) Q3 s = Q3 (cl_now (st_world s))
     \<lparr>st_world = st_world s, st_log = st_log s @ [Read_Clock (cl_now (st_world s))]\<rparr>"
  "wp (GetConfigMap cluster_env k) Q4 s = Q4 (store_get (cl_configmaps (st_world s)) k)
     \<lparr>st_world = st_world s, st_log = st_log s @ [Get_ConfigMap k (store_get (cl_configmaps (st_world s)) k)]\<rparr>"
  "wp (GetNetworkPolicy cluster_env k) Q5 s = Q5 (store_get (cl_netpols (st_world s)) k)
     \<lparr>st_world = st_world s, st_log = st_log s @ [Get_NetworkPolicy k (store_get (cl_netpols (st_world s)) k)]\<rparr>"
  "wp (GetSandbox cluster_env k) Q6 s = Q6 (store_get (cl_sandboxes (st_world s)) k)
     \<lparr>st_world = st_world s, st_log = st_log s @ [Get_Sandbox k (store_get (cl_sandboxes (st_world s)) k)]\<rparr>"
  "wp (GetCRD cluster_env gvk n) Q7 s =
     (let r = (if cl_sandbox_crd (st_world s) then None else Some not_found)
      in Q7 r \<lparr>st_world = st_world s, st_log = st_log s @ [Get_CRD gvk n r]\<rparr>)"
  by (simp_all add: request_defs wp_call cluster_env_def Let_def)

lemma cluster_writes [wp_simps]:
  "wp (DeletePod cluster_env p) Q4 s = (case cl_delete_pod p (st_world s) of
     (r, w) \<Rightarrow> Q4 r \<lparr>st_world = w, st_log = st_log s @ [Delete_Pod p r]\<rparr>)"
  "wp (CreatePod cluster_env p) Q5 s = (case cl_create_pod p (st_world s) of
     (r, w) \<Rightarrow> Q5 r \<lparr>st_world = w, st_log = st_log s @ [Create_Pod p r]\<rparr>)"
  "wp (UpdateTask cluster_env t) Q6 s = (case cl_update_task t (st_world s) of
     (u, w) \<Rightarrow> Q6 u \<lparr>st_world = w, st_log = st_log s @ [Update_Task t u]\<rparr>)"
  "wp (UpdateTaskStatus cluster_env t) Q7 s = (case cl_update_status t (st_world s) of
     (u, w) \<Rightarrow> Q7 u \<lparr>st_world = w, st_log = st_log s @ [Update_Status t u]\<rparr>)"
  "wp (DeleteTask cluster_env t) Q8 s = (case cl_delete_task t (st_world s) of
     (d, w) \<Rightarrow> Q8 d \<lparr>st_world = w, st_log = st_log s @ [Delete_Task t d]\<rparr>)"
  "wp (CreateConfigMap cluster_env c) Q14 s = (case cl_create_configmap c (st_world s) of
     (r, w) \<Rightarrow> Q14 r \<lparr>st_world = w, st_log = st_log s @ [Create_ConfigMap c r]\<rparr>)"
  "wp (CreateNetworkPolicy cluster_env np) Q15 s = (case cl_create_netpol np (st_world s) of
     (r, w) \<Rightarrow> Q15 r \<lparr>st_world = w, st_log = st_log s @ [Create_NetworkPolicy np r]\<rparr>)"
  "wp (CreateSandbox cluster_env b) Q16 s = (case cl_create_sandbox b (st_world s) of
     (r, w) \<Rightarrow> Q16 r \<lparr>st_world = w, st_log = st_log s @ [Create_Sandbox b r]\<rparr>)"
  by (simp_all add: request_defs wp_call cluster_env_def)

lemma object_key_finalizers [simp]: "object_key (m\<lparr>om_Finalizers := fs\<rparr>) = object_key m"
  by (simp add: object_key_def)

lemma cluster_finalizers [simp]:
  "env_ContainsFinalizer cluster_env t f \<longleftrightarrow> f \<in> set (om_Finalizers (task_Meta t))"
  "env_AddFinalizer cluster_env t f = (if f \<in> set (om_Finalizers (task_Meta t)) then t
     else set_finalizers (\<lambda>fs. fs @ [f]) t)"
  "env_RemoveFinalizer cluster_env t f = set_finalizers (filter (\<lambda>g. g \<noteq> f)) t"
  by (simp_all add: cluster_env_def)

subsection \<open>Deadlines\<close>

lemma checkTimeout_cluster [wp_simps]:
  "wp (checkTimeout cluster_env t) Q s =
     Q (case deadline t of None \<Rightarrow> False | Some d \<Rightarrow> d < cl_now (st_world s))
       (if deadline t = None then s
        else \<lparr>st_world = st_world s, st_log = st_log s @ [Read_Clock (cl_now (st_world s))]\<rparr>)"
  by (auto simp: checkTimeout_def task_deadline deadline_def wp_simps time_after_def not_le
      not_less Let_def split: option.splits)

lemma observe_duration_wp [wp_simps]:
  "wp (observe_duration phase t) Q s =
     (case status_StartTime (task_Status t) of
        None \<Rightarrow> Q None s
      | Some b \<Rightarrow> (case status_CompletionTime (task_Status t) of
          None \<Rightarrow> Q (Some NilDereference) s
        | Some c \<Rightarrow> Q None (s\<lparr>st_log := st_log s @ [Histogram_Observe phase (time_sub c b)]\<rparr>)))"
  by (simp add: observe_duration_def taskDuration_Observe_def wp_simps split: option.splits)

lemma tasksTotal_Inc_wp [wp_simps]:
  "wp (tasksTotal_Inc phase reason) Q s =
     Q () (s\<lparr>st_log := st_log s @ [Counter_Inc phase reason]\<rparr>)"
  by (simp add: tasksTotal_Inc_def wp_simps)

lemma deadline_started: "deadline t = Some d \<Longrightarrow> \<exists>b. status_StartTime (task_Status t) = Some b"
  by (auto simp: deadline_def split: if_splits)

definition pod_gone :: "cluster \<Rightarrow> AgentTask \<Rightarrow> bool" where
  "pod_gone w t \<longleftrightarrow> ref_Name (status_PodRef (task_Status t)) = '''' \<or> map_of (cl_pods w) (pod_key t) = None"

lemma cl_delete_pod_found:
  "\<lbrakk>cluster_wf w; map_of (cl_pods w) k = Some p\<rbrakk>
   \<Longrightarrow> cl_delete_pod p w = (None, w\<lparr>cl_pods := AList.delete k (cl_pods w)\<rparr>)"
  by (simp add: cl_delete_pod_def store_delete_def cluster_wfD)

lemma cl_update_status_found:
  "\<lbrakk>object_key (task_Meta t') = k; map_of (cl_tasks w) k = Some t\<rbrakk>
   \<Longrightarrow> cl_update_status t' w = (Inr (t\<lparr>task_Status := stored_status (task_Status t')\<rparr>),
     w\<lparr>cl_tasks := AList.update k (t\<lparr>task_Status := stored_status (task_Status t')\<rparr>) (cl_tasks w)\<rparr>)"
  by (simp add: cl_update_status_def Let_def)


text \<open>On a quiescent API server, the first reconcile of a task whose spec asks for cancellation
  and that has a phase and no outcome ends it as Canceled with its pod gone. A task that timed
  out before is turned into Canceled as well.\<close>

theorem canceled_task_ends_as_canceled:
  assumes "adopted w k t" and "\<not> deleting t" and "spec_Canceled (task_Spec t)"
    and "task_Phase t \<notin> {'''', AgentTaskPhaseSucceeded, AgentTaskPhaseFailed, AgentTaskPhaseCanceled}"
  shows "\<exists>t'. map_of (cl_tasks (after w k)) k = Some t' \<and> task_Phase t' = AgentTaskPhaseCanceled
     \<and> pod_gone (after w k) t"
proof -
  have key: "object_key (task_Meta t) = k"
    using assms cluster_wfD(1) by (auto simp: adopted_def)
  show ?thesis
    by (rule afterI, cases "map_of (cl_pods w) (pod_key t)"; cases "status_StartTime (task_Status t)")
       (use assms key in \<open>simp_all add: Reconcile_def wp_simps adopted_def deleting_def
          reconcileActive_def reconcileCanceled_def Let_def pod_gone_def stored_status_def
          cl_delete_pod_found cl_update_status_found\<close>)
qed

lemma released:
  assumes "adopted w k t" and "deleting t"
  shows "map_of (cl_tasks (after w k)) k = None \<and> pod_gone (after w k) t"
proof -
  have key: "object_key (task_Meta t) = k"
    using assms cluster_wfD(1) by (auto simp: adopted_def)
  show ?thesis
    by (rule afterI, cases "map_of (cl_pods w) (pod_key t)")
       (use assms key in \<open>simp_all add: Reconcile_def wp_simps adopted_def deleting_def
          reconcileDeleted_def finalizeAgentTask_def Let_def pod_gone_def set_finalizers_def
          cl_delete_pod_found cl_update_task_def\<close>)
qed


subsection \<open>From creation to the pod\<close>

lemma adopted_update:
  "\<lbrakk>cluster_wf w; object_key (task_Meta t) = k; om_Finalizers (task_Meta t) = [agentTaskFinalizer]\<rbrakk>
   \<Longrightarrow> adopted (w\<lparr>cl_tasks := AList.update k t (cl_tasks w)\<rparr>) k t"
  by (auto simp: adopted_def cluster_wf_def stored_under_key_def)

lemma after_adoption:
  assumes "cluster_wf w" "map_of (cl_tasks w) k = Some t" "om_Finalizers (task_Meta t) = []"
    and "\<not> deleting t"
  shows "after w k = w\<lparr>cl_tasks := AList.update k
    (t\<lparr>task_Meta := (task_Meta t)\<lparr>om_Finalizers := [agentTaskFinalizer]\<rparr>\<rparr>) (cl_tasks w)\<rparr>"
  by (rule afterI) (use assms cluster_wfD(1) [OF assms(1,2)] in \<open>simp add: Reconcile_def wp_simps
      deleting_def cl_update_task_def set_finalizers_def Let_def\<close>)

definition accepted :: "instant \<Rightarrow> AgentTask \<Rightarrow> AgentTask" where
  "accepted n t = t\<lparr>task_Status := stored_status ((task_Status t)\<lparr>status_Phase := AgentTaskPhasePending,
     status_StartTime := Some n\<rparr>)\<rparr>"

lemma accepted_simps [simp]:
  "task_Meta (accepted n t) = task_Meta t" "task_Spec (accepted n t) = task_Spec t"
  "task_Phase (accepted n t) = AgentTaskPhasePending" "deleting (accepted n t) = deleting t"
  "status_StartTime (task_Status (accepted n t)) = Some (whole_seconds n)"
  by (simp_all add: accepted_def stored_status_def deleting_def)

lemma after_acceptance:
  assumes "adopted w k t" "\<not> deleting t" "task_Phase t = ''''"
  shows "after w k = w\<lparr>cl_tasks := AList.update k (accepted (cl_now w) t) (cl_tasks w)\<rparr>"
  by (rule afterI) (use assms cluster_wfD(1) [of w k t] in \<open>simp add: Reconcile_def wp_simps
      adopted_def deleting_def reconcileActive_def cl_update_status_found accepted_def\<close>)

lemma whole_seconds_bounds: "whole_seconds n \<le> n" "n < whole_seconds n + 1000000000"
  unfolding whole_seconds_def by (simp_all add: minus_mod_eq_div_mult [symmetric])

lemma accepted_in_time: "deadline (accepted n t) = Some d \<Longrightarrow> \<not> d < n"
  using whole_seconds_bounds(2) [of n] by (auto simp: deadline_def split: if_splits)

text \<open>What a dispatched task has in the cluster: its network policy, and its pod, to which it
  refers.\<close>

definition dispatched :: "cluster \<Rightarrow> NamespacedName \<Rightarrow> AgentTask \<Rightarrow> bool" where
  "dispatched w k t \<longleftrightarrow> task_Phase t = AgentTaskPhaseScheduled
     \<and> NamespacedName (task_Namespace t) (task_Name t @ ''-netpol'') \<in> dom (map_of (cl_netpols w))
     \<and> (\<exists>p. map_of (cl_pods w) (pod_key t) = Some p \<and> status_PodRef (task_Status t) = pod_ref p)"

lemma pod_ref_key: "NamespacedName (ref_Namespace (pod_ref p)) (ref_Name (pod_ref p)) = object_key (pod_Meta p)"
  by (simp add: pod_ref_def object_key_def)

definition kept :: "cluster \<Rightarrow> cluster \<Rightarrow> bool" where
  "kept w w' \<longleftrightarrow> cl_tasks w' = cl_tasks w \<and> cl_sandbox_crd w' = cl_sandbox_crd w \<and> cl_now w' = cl_now w"

lemma ensureCodeConfigMap_cluster:
  "wp (ensureCodeConfigMap cluster_env t) (\<lambda>r s'. (\<exists>c. r = Inr c) \<and> kept (st_world s) (st_world s')
     \<and> cl_pods (st_world s') = cl_pods (st_world s)) s"
  by (simp add: ensureCodeConfigMap_def wp_simps Let_def store_get_def cl_create_configmap_def
      store_create_def kept_def split: option.splits)

lemma ensureNetworkPolicy_cluster:
  "wp (ensureNetworkPolicy cluster_env t) (\<lambda>r s'. r = None \<and> kept (st_world s) (st_world s')
     \<and> cl_pods (st_world s') = cl_pods (st_world s)
     \<and> NamespacedName (task_Namespace t) (task_Name t @ ''-netpol'') \<in> dom (map_of (cl_netpols (st_world s')))) s"
  by (auto simp: ensureNetworkPolicy_def wp_simps Let_def store_get_def cl_create_netpol_def
      store_create_def kept_def split: option.splits prod.splits)

lemma ensurePod_cluster:
  "stored_under_key pod_Meta (cl_pods (st_world s)) \<Longrightarrow>
   wp (ensurePod cluster_env t c img) (\<lambda>r s'. kept (st_world s) (st_world s')
     \<and> cl_netpols (st_world s') = cl_netpols (st_world s)
     \<and> (\<exists>p. r = Inr (set_PodRef (pod_ref p) t)
          \<and> map_of (cl_pods (st_world s')) (object_key (pod_Meta p)) = Some p)) s"
  by (auto simp: ensurePod_def wp_simps Let_def store_get_def cl_create_pod_def
      store_create_def kept_def stored_under_key_def split: option.splits prod.splits)

lemma selectBackend_cluster:
  "\<lbrakk>\<not> cl_sandbox_crd (st_world s); spec_Backend (task_Spec t) \<noteq> backendSandbox\<rbrakk>
   \<Longrightarrow> wp (selectBackend cluster_env t) (\<lambda>r s'. r = Inr backendPod \<and> st_world s' = st_world s) s"
  by (simp add: selectBackend_def checkSandboxAvailability_def wp_simps Let_def)

lemma resolveRuntimeProfile_cluster:
  "validateAgentTask t = None \<Longrightarrow>
   wp (resolveRuntimeProfile cluster_env (spec_RuntimeProfile (task_Spec t)) b ns)
     (\<lambda>r s'. (\<exists>img. r = Inr img) \<and> st_world s' = st_world s) s"
  by (auto simp: resolveRuntimeProfile_def wp_simps validateAgentTask_def allowedProfiles_def
      default_profile_image_def store_get_def split: option.splits if_splits)

definition schedulable :: "cluster \<Rightarrow> AgentTask \<Rightarrow> bool" where
  "schedulable w t \<longleftrightarrow> validateAgentTask t = None \<and> \<not> deleting t \<and> \<not> spec_Canceled (task_Spec t)
     \<and> \<not> cl_sandbox_crd w \<and> spec_Backend (task_Spec t) \<noteq> backendSandbox"

lemma pod_key_set_PodRef:
  "pod_key (set_Phase q (set_PodRef (pod_ref p) t)) = object_key (pod_Meta p)"
  by (simp add: pod_key_def pod_ref_key)

lemma dispatched_stored:
  "\<lbrakk>NamespacedName (task_Namespace t) (task_Name t @ ''-netpol'') \<in> dom (map_of (cl_netpols w));
    map_of (cl_pods w) (object_key (pod_Meta p)) = Some p\<rbrakk> \<Longrightarrow>
   dispatched (w\<lparr>cl_tasks := m\<rparr>) k (t\<lparr>task_Status := stored_status
     ((task_Status (set_PodRef (pod_ref p) t))\<lparr>status_Phase := AgentTaskPhaseScheduled\<rparr>)\<rparr>)"
  by (auto simp: dispatched_def stored_status_def pod_key_def pod_ref_key)

lemma dispatch_cluster:
  "\<lbrakk>b \<noteq> backendSandbox; cluster_wf (st_world s)\<rbrakk> \<Longrightarrow>
   wp (dispatch cluster_env t b c img) (\<lambda>r s'. kept (st_world s) (st_world s')
     \<and> cl_netpols (st_world s') = cl_netpols (st_world s)
     \<and> (\<exists>p. r = Inr (set_PodRef (pod_ref p) t)
          \<and> map_of (cl_pods (st_world s')) (object_key (pod_Meta p)) = Some p)) s"
  by (simp add: dispatch_def ensurePod_cluster cluster_wf_def)

lemma store_scheduled:
  assumes "map_of (cl_tasks (st_world s)) (object_key (task_Meta t)) = Some t"
    and "NamespacedName (task_Namespace t) (task_Name t @ ''-netpol'') \<in> dom (map_of (cl_netpols (st_world s)))"
    and "map_of (cl_pods (st_world s)) (object_key (pod_Meta p)) = Some p"
  shows "wp (do {
     r \<leftarrow> UpdateTaskStatus cluster_env (set_Phase AgentTaskPhaseScheduled (set_PodRef (pod_ref p) t));
     ret (update_error r)
   }) (\<lambda>r s'. r = None \<and> (\<exists>t'. map_of (cl_tasks (st_world s')) (object_key (task_Meta t)) = Some t'
      \<and> dispatched (st_world s') (object_key (task_Meta t)) t')) s"
  using assms
  by (auto simp: wp_simps cl_update_status_def update_error_def Let_def
      intro!: dispatched_stored)

lemma reconcilePending_cluster:
  assumes "cluster_wf (st_world s)" "map_of (cl_tasks (st_world s)) (object_key (task_Meta t)) = Some t"
    and "schedulable (st_world s) t"
  shows "wp (reconcilePending cluster_env t) (\<lambda>r s'. r = None \<and> (\<exists>t'.
     map_of (cl_tasks (st_world s')) (object_key (task_Meta t)) = Some t'
     \<and> dispatched (st_world s') (object_key (task_Meta t)) t')) s"
  unfolding reconcilePending_def
  by (intro wp_bindI wp_returnI wp_case_sumI wp_case_optionI wp_conseq [OF ensureCodeConfigMap_cluster]
      wp_conseq [OF ensureNetworkPolicy_cluster] wp_conseq [OF selectBackend_cluster]
      wp_conseq [OF resolveRuntimeProfile_cluster] wp_conseq [OF dispatch_cluster];
      use assms in \<open>auto simp: schedulable_def kept_def cluster_wf_def intro!: store_scheduled [unfolded wp_bind]\<close>)

lemma after_scheduling:
  assumes "adopted w k t" "schedulable w t" "task_Phase t = AgentTaskPhasePending"
    and "\<And>d. deadline t = Some d \<Longrightarrow> \<not> d < cl_now w"
  shows "\<exists>t'. map_of (cl_tasks (after w k)) k = Some t' \<and> dispatched (after w k) k t'"
proof (rule afterI)
  have key: "object_key (task_Meta t) = k"
    using assms cluster_wfD(1) by (auto simp: adopted_def)
  have "wp (reconcilePending cluster_env t) (\<lambda>r s'. r = None \<and> (\<exists>t'.
     map_of (cl_tasks (st_world s')) k = Some t' \<and> dispatched (st_world s') k t')) s"
    if "st_world s = w" for s :: "cluster st"
    using reconcilePending_cluster [of s t] assms key that by (simp add: adopted_def)
  note pending = wp_conseq [OF this]
  show "wp (Reconcile cluster_env k) (\<lambda>r s. \<exists>t'. map_of (cl_tasks (st_world s)) k = Some t'
      \<and> dispatched (st_world s) k t') (start w)"
    using assms
    by (auto simp: Reconcile_def reconcileActive_def reconcilePhase_def wp_simps adopted_def
        schedulable_def deleting_def intro!: pending split: option.splits)
qed

lemma validateAgentTask_spec:
  "task_Spec u = task_Spec t \<Longrightarrow> validateAgentTask u = validateAgentTask t"
  by (simp add: validateAgentTask_def)

lemma scheduled:
  assumes "cluster_wf w" and "map_of (cl_tasks w) k = Some t" and "schedulable w t"
    and "om_Finalizers (task_Meta t) = []" and "task_Phase t = ''''"
  shows "\<exists>t'. map_of (cl_tasks (after (after (after w k) k) k)) k = Some t'
     \<and> dispatched (after (after (after w k) k) k) k t'"
proof -
  let ?t1 = "t\<lparr>task_Meta := (task_Meta t)\<lparr>om_Finalizers := [agentTaskFinalizer]\<rparr>\<rparr>"
  let ?t2 = "accepted (cl_now w) ?t1"
  have live: "\<not> deleting t" using assms by (simp add: schedulable_def)
  have w1: "after w k = w\<lparr>cl_tasks := AList.update k ?t1 (cl_tasks w)\<rparr>"
    by (rule after_adoption) (use assms live in auto)
  have a1: "adopted (after w k) k ?t1"
    unfolding w1 by (rule adopted_update) (use assms cluster_wfD(1) [OF assms(1,2)] in simp_all)
  have w2: "after (after w k) k =
      (after w k)\<lparr>cl_tasks := AList.update k ?t2 (cl_tasks (after w k))\<rparr>"
    using after_acceptance [OF a1] live assms(5) by (simp add: deleting_def w1)
  have a2: "adopted (after (after w k) k) k ?t2"
    unfolding w2 by (rule adopted_update) (use a1 cluster_wfD(1) [of _ k ?t1] in \<open>auto simp: adopted_def\<close>)
  have "cl_sandbox_crd (after (after w k) k) = cl_sandbox_crd w"
    "cl_now (after (after w k) k) = cl_now w"
    unfolding w2 by (simp_all add: w1)
  then show ?thesis
    by (intro after_scheduling [OF a2]) (use assms live accepted_in_time validateAgentTask_spec [of ?t2 t]
      in \<open>auto simp: schedulable_def deleting_def\<close>)
qed


subsection \<open>From the pod to the end\<close>

definition ended :: "AgentTask \<Rightarrow> Pod \<Rightarrow> string \<Rightarrow> cluster \<Rightarrow> bool" where
  "ended t p q w \<longleftrightarrow> (\<exists>t'. map_of (cl_tasks w) (object_key (task_Meta t)) = Some t'
     \<and> task_Phase t' = q \<and> exit_reported p t t'
     \<and> status_PodRef (task_Status t') = status_PodRef (task_Status t)) \<and> pod_gone w t"

text \<open>The pod and the task a handler finds in the cluster.\<close>

definition found :: "cluster \<Rightarrow> AgentTask \<Rightarrow> Pod \<Rightarrow> bool" where
  "found w t p \<longleftrightarrow> cluster_wf w \<and> map_of (cl_tasks w) (object_key (task_Meta t)) = Some t
     \<and> map_of (cl_pods w) (pod_key t) = Some p"

lemma cl_delete_pod_tasks:
  "\<lbrakk>cluster_wf w; map_of (cl_pods w) k = Some p\<rbrakk>
   \<Longrightarrow> cl_delete_pod p (w\<lparr>cl_tasks := m\<rparr>) = (None, w\<lparr>cl_tasks := m, cl_pods := AList.delete k (cl_pods w)\<rparr>)"
  by (simp add: cl_delete_pod_def store_delete_def cluster_wfD)

lemma handlePodSuccess_cluster:
  "found (st_world s) t p \<Longrightarrow>
   wp (handlePodSuccess cluster_env t p) (\<lambda>r s'. ended t p AgentTaskPhaseSucceeded (st_world s')) s"
  by (cases "status_StartTime (task_Status t)"; cases "task_exit (statuses p)")
     (auto simp: found_def ended_def handlePodSuccess_def wp_simps Let_def pod_gone_def
       stored_status_def cl_delete_pod_tasks cl_update_status_found exit_reported_def)

lemma handlePodFailure_cluster:
  "found (st_world s) t p \<Longrightarrow>
   wp (handlePodFailure cluster_env t p) (\<lambda>r s'. ended t p AgentTaskPhaseFailed (st_world s')) s"
  by (cases "status_StartTime (task_Status t)"; cases "task_exit (statuses p)")
     (auto simp: found_def ended_def handlePodFailure_def wp_simps Let_def pod_gone_def
       stored_status_def cl_delete_pod_tasks cl_update_status_found exit_reported_def)

definition pod_outcome :: "Pod \<Rightarrow> string" where
  "pod_outcome p = (if pst_Phase (pod_Status p) = PodSucceeded then AgentTaskPhaseSucceeded
     else AgentTaskPhaseFailed)"

lemma handlers_cluster:
  assumes "found (st_world s) t p" "ref_Kind (status_PodRef (task_Status t)) \<noteq> ''Sandbox''"
    and "pst_Phase (pod_Status p) \<in> {PodSucceeded, PodFailed}"
  shows "wp (reconcileScheduled cluster_env t) (\<lambda>r s'. ended t p (pod_outcome p) (st_world s')) s"
    and "wp (reconcileRunning cluster_env t) (\<lambda>r s'. ended t p (pod_outcome p) (st_world s')) s"
proof -
  have "map_of (cl_pods (st_world s)) (pod_key t) = Some p"
    using assms by (simp add: found_def)
  with assms show "wp (reconcileScheduled cluster_env t) (\<lambda>r s'. ended t p (pod_outcome p) (st_world s')) s"
    "wp (reconcileRunning cluster_env t) (\<lambda>r s'. ended t p (pod_outcome p) (st_world s')) s"
    by (auto simp: reconcileScheduled_def reconcileRunning_def wp_simps pod_outcome_def
        handlePodSuccess_cluster handlePodFailure_cluster)
qed

lemma branch_world:
  "wp m (\<lambda>r s'. P (st_world s')) s \<Longrightarrow>
   wp (do { e \<leftarrow> m; (case e of Some err \<Rightarrow> ret (x err) | None \<Rightarrow> ret y) })
     (\<lambda>r s'. P (st_world s')) s"
  by (simp add: wp_def split: prod.splits option.splits)

lemma finished:
  assumes "adopted w k t" and "\<not> deleting t" and "\<not> spec_Canceled (task_Spec t)"
    and "task_Phase t \<in> {AgentTaskPhaseScheduled, AgentTaskPhaseRunning}"
    and "\<not> overdue t [Read_Clock (cl_now w)]"
    and "ref_Kind (status_PodRef (task_Status t)) \<noteq> ''Sandbox''"
    and "map_of (cl_pods w) (pod_key t) = Some p"
    and "pst_Phase (pod_Status p) \<in> {PodSucceeded, PodFailed}"
  shows "ended t p (pod_outcome p) (after w k)"
proof -
  have found: "found w t p"
    using assms cluster_wfD(1) by (auto simp: adopted_def found_def)
  have late: "deadline t = Some d \<Longrightarrow> \<not> d < cl_now w" for d
    using assms(5) by (simp add: overdue_def)
  have phase: "wp (reconcilePhase cluster_env t) (\<lambda>r s'. ended t p (pod_outcome p) (st_world s')) s"
    if "st_world s = w" for s :: "cluster st"
    using assms(4) handlers_cluster [of s t p] found assms(6,8) that
    by (auto simp: reconcilePhase_def
        intro!: branch_world [where P = "ended t p (pod_outcome p)"])
  show ?thesis
    by (rule afterI; cases "deadline t")
       (use assms(1-4) late phase in \<open>auto simp: Reconcile_def wp_simps adopted_def deleting_def
          reconcileActive_def\<close>)
qed

text \<open>C6: A finished pod ends its task. On a quiescent API server, the reconcile of a scheduled or
  running task in time, whose pod has succeeded or failed, stores that outcome with the exit
  code of the task container, and the pod is gone.\<close>

theorem finished_pod_ends_task:
  assumes "adopted w k t" and "\<not> deleting t" and "\<not> spec_Canceled (task_Spec t)"
    and "task_Phase t \<in> {AgentTaskPhaseScheduled, AgentTaskPhaseRunning}"
    and "\<not> overdue t [Read_Clock (cl_now w)]"
    and "ref_Kind (status_PodRef (task_Status t)) \<noteq> ''Sandbox''"
    and "map_of (cl_pods w) (pod_key t) = Some p"
    and "pst_Phase (pod_Status p) \<in> {PodSucceeded, PodFailed}"
  shows "ended t p (pod_outcome p) (after w k)"
  by (rule finished [OF assms])

lemma updatePhaseFailure_cluster:
  "\<lbrakk>map_of (cl_tasks (st_world s)) (object_key (task_Meta t)) = Some t\<rbrakk> \<Longrightarrow>
   wp (updatePhaseFailure cluster_env t reason msg) (\<lambda>r s'. r = None
     \<and> cl_pods (st_world s') = cl_pods (st_world s)
     \<and> (\<exists>t'. map_of (cl_tasks (st_world s')) (object_key (task_Meta t)) = Some t'
          \<and> task_Phase t' = AgentTaskPhaseFailed \<and> status_Reason (task_Status t') = reason)) s"
  by (cases "status_StartTime (task_Status t)")
     (simp_all add: updatePhaseFailure_def wp_simps Let_def cl_update_status_def stored_status_def)

text \<open>The task failed on its image and the pods are those of before.\<close>

definition pull_failed :: "cluster \<Rightarrow> NamespacedName \<Rightarrow> cluster \<Rightarrow> bool" where
  "pull_failed w k w' \<longleftrightarrow> cl_pods w' = cl_pods w \<and> (\<exists>t'. map_of (cl_tasks w') k = Some t'
     \<and> task_Phase t' = AgentTaskPhaseFailed
     \<and> status_Reason (task_Status t') = AgentTaskReasonImagePullFailed)"

lemma scheduled_image_pull:
  assumes "map_of (cl_tasks (st_world s)) (object_key (task_Meta t)) = Some t"
    and "ref_Kind (status_PodRef (task_Status t)) \<noteq> ''Sandbox''"
    and "map_of (cl_pods (st_world s)) (pod_key t) = Some p"
    and "pst_Phase (pod_Status p) = PodPending" and "first_image_pull (statuses p) = Some (cs, cw)"
  shows "wp (reconcileScheduled cluster_env t) (\<lambda>r s'.
     pull_failed (st_world s) (object_key (task_Meta t)) (st_world s')) s"
  using assms
  by (auto simp: reconcileScheduled_def wp_simps pull_failed_def
      intro!: wp_conseq [OF updatePhaseFailure_cluster])

text \<open>A failed image pull leaves the pod. On a quiescent API server, the reconcile of a scheduled
  task in time, whose pending pod is stuck pulling an image, ends the task as Failed with
  reason ImagePullFailed and does not touch the pod, which may still start later.\<close>

theorem image_pull_failure_leaves_pod:
  assumes "adopted w k t" and "\<not> deleting t" and "\<not> spec_Canceled (task_Spec t)"
    and "task_Phase t = AgentTaskPhaseScheduled" and "\<not> overdue t [Read_Clock (cl_now w)]"
    and "ref_Kind (status_PodRef (task_Status t)) \<noteq> ''Sandbox''"
    and "map_of (cl_pods w) (pod_key t) = Some p"
    and "pst_Phase (pod_Status p) = PodPending" and "first_image_pull (statuses p) = Some (cs, cw)"
  shows "pull_failed w k (after w k)"
proof -
  have key: "object_key (task_Meta t) = k" and stored: "map_of (cl_tasks w) k = Some t"
    using assms cluster_wfD(1) by (auto simp: adopted_def)
  have late: "deadline t = Some d \<Longrightarrow> \<not> d < cl_now w" for d
    using assms(5) by (simp add: overdue_def)
  have phase: "wp (reconcilePhase cluster_env t) (\<lambda>r s'. pull_failed w k (st_world s')) s"
    if "st_world s = w" for s :: "cluster st"
    using scheduled_image_pull [of s t p cs cw] assms(4,6-9) stored key that
    by (simp add: reconcilePhase_def branch_world [where P = "pull_failed w k"])
  show ?thesis
    by (rule afterI; cases "deadline t")
       (use assms(1-4) late phase in \<open>auto simp: Reconcile_def wp_simps adopted_def deleting_def
          reconcileActive_def\<close>)
qed


subsection \<open>The properties at a concrete task\<close>

text \<open>A cluster that holds the sample task, in a phase, at a time in nanoseconds.\<close>

definition sample_at :: "string \<Rightarrow> AgentTask" where
  "sample_at phase = sample_task\<lparr>
     task_Meta := (task_Meta sample_task)\<lparr>om_Finalizers := [agentTaskFinalizer]\<rparr>,
     task_Spec := (task_Spec sample_task)\<lparr>spec_TTLSecondsAfterFinished := Some 10\<rparr>,
     task_Status := empty_status\<lparr>status_Phase := phase, status_StartTime := Some 0,
       status_CompletionTime := Some 0,
       status_PodRef := \<lparr>ref_Kind = ''Pod'', ref_Name = ''sum-pod'', ref_Namespace = ''default''\<rparr>\<rparr>\<rparr>"

definition sample_pod :: "string \<Rightarrow> Pod" where
  "sample_pod phase = (task_pod cluster_env sample_task ''sum-code'' ''python:3.11-slim'')\<lparr>
     pod_Status := \<lparr>pst_Phase = phase, pst_ContainerStatuses = []\<rparr>\<rparr>"

definition sample_key :: NamespacedName where
  "sample_key = NamespacedName ''default'' ''sum''"

definition sample_cluster :: "AgentTask \<Rightarrow> instant \<Rightarrow> cluster" where
  "sample_cluster t n = empty_cluster\<lparr>cl_tasks := [(sample_key, t)], cl_now := n,
     cl_pods := [(NamespacedName ''default'' ''sum-pod'', sample_pod PodSucceeded)]\<rparr>"

lemma sample_meta [simp]:
  "om_Namespace (task_Meta sample_task) = ''default''" "om_Name (task_Meta sample_task) = ''sum''"
  by (simp_all add: sample_task_def)

lemma sample_simps [simp]:
  "task_Phase (sample_at p) = p" "\<not> deleting (sample_at p)"
  "\<not> spec_Canceled (task_Spec (sample_at p))"
  "spec_TTLSecondsAfterFinished (task_Spec (sample_at p)) = Some 10"
  "status_CompletionTime (task_Status (sample_at p)) = Some 0"
  "pod_key (sample_at p) = NamespacedName ''default'' ''sum-pod''"
  "ref_Kind (status_PodRef (task_Status (sample_at p))) = ''Pod''"
  "deadline (sample_at p) = Some 62000000000"
  "cl_now (sample_cluster t n) = n"
  "map_of (cl_tasks (sample_cluster t n)) sample_key = Some t"
  "map_of (cl_pods (sample_cluster t n)) (NamespacedName ''default'' ''sum-pod'') = Some (sample_pod PodSucceeded)"
  by (simp_all add: sample_at_def sample_cluster_def deleting_def time_is_zero_def sample_task_def
      empty_meta_def empty_spec_def pod_key_def deadline_def)

lemma sample_wf:
  "object_key (task_Meta t) = sample_key \<Longrightarrow> cluster_wf (sample_cluster t n)"
  by (auto simp: cluster_wf_def stored_under_key_def sample_cluster_def empty_cluster_def
      sample_pod_def split: if_splits)

lemma sample_identity [simp]:
  "object_key (task_Meta (sample_at p)) = sample_key"
  "om_Finalizers (task_Meta (sample_at p)) = [agentTaskFinalizer]"
  "object_key (task_Meta sample_task) = sample_key"
  by (simp_all add: sample_at_def object_key_def sample_key_def)

lemma sample_adopted: "adopted (sample_cluster (sample_at p) n) sample_key (sample_at p)"
  by (simp add: adopted_def sample_wf)


lemma finished_pod_ends_task_witness:
  "ended (sample_at AgentTaskPhaseRunning) (sample_pod PodSucceeded) AgentTaskPhaseSucceeded
     (after (sample_cluster (sample_at AgentTaskPhaseRunning) 1000000000) sample_key)"
  using finished_pod_ends_task [OF sample_adopted [of AgentTaskPhaseRunning 1000000000],
      where p = "sample_pod PodSucceeded"]
  by (simp add: overdue_def pod_outcome_def sample_pod_def)

definition stuck_pod :: Pod where
  "stuck_pod = (sample_pod PodPending)\<lparr>pod_Status := \<lparr>pst_Phase = PodPending,
     pst_ContainerStatuses = [\<lparr>cs_Name = ''task'', cs_Image = ''python:3.11-slim'',
       cs_Waiting = Some \<lparr>csw_Reason = ''ErrImagePull'', csw_Message = ''denied''\<rparr>,
       cs_Terminated = None\<rparr>]\<rparr>\<rparr>"

definition stuck_cluster :: cluster where
  "stuck_cluster = (sample_cluster (sample_at AgentTaskPhaseScheduled) 0)\<lparr>cl_pods :=
     [(NamespacedName ''default'' ''sum-pod'', stuck_pod)]\<rparr>"

lemma stuck_adopted: "adopted stuck_cluster sample_key (sample_at AgentTaskPhaseScheduled)"
  by (auto simp: adopted_def cluster_wf_def stored_under_key_def stuck_cluster_def
      sample_cluster_def stuck_pod_def sample_pod_def split: if_splits)

lemma image_pull_failure_leaves_pod_witness:
  "pull_failed stuck_cluster sample_key (after stuck_cluster sample_key)"
  by (rule image_pull_failure_leaves_pod [OF stuck_adopted, where p = stuck_pod])
     (simp_all add: overdue_def stuck_cluster_def stuck_pod_def image_pull_stuck_def
       image_pull_reason_def)


definition sample_canceled :: AgentTask where
  "sample_canceled = (sample_at AgentTaskPhaseTimeout)\<lparr>task_Spec :=
     (task_Spec (sample_at AgentTaskPhaseTimeout))\<lparr>spec_Canceled := True\<rparr>\<rparr>"

definition sample_deleted :: AgentTask where
  "sample_deleted = (sample_at AgentTaskPhaseRunning)\<lparr>task_Meta :=
     (task_Meta (sample_at AgentTaskPhaseRunning))\<lparr>om_DeletionTimestamp := Some 0\<rparr>\<rparr>"

lemma canceled_task_ends_as_canceled_witness:
  "\<exists>t'. map_of (cl_tasks (after (sample_cluster sample_canceled 0) sample_key)) sample_key = Some t'
     \<and> task_Phase t' = AgentTaskPhaseCanceled
     \<and> pod_gone (after (sample_cluster sample_canceled 0) sample_key) sample_canceled"
  by (rule canceled_task_ends_as_canceled)
     (use sample_simps(2) [of AgentTaskPhaseTimeout] in
       \<open>simp_all add: adopted_def sample_wf sample_canceled_def deleting_def\<close>)



end
