(* ===== verification/Permissions.thy ===== *)
theory Permissions
  imports ReconcileSafety Lifecycle
begin

text \<open>
  What the operator may ask of the API server: the access rules written beside the reconciler
  (the kubebuilder markers of internal/controller/agenttask_controller.go) and those deployed
  (config/rbac/role.yaml), against what the reconciler does ask. Every request of every run, in
  every environment, uses one of fourteen permissions, the role grants them all, and each of
  them is used by some run; so what the role grants beyond them is not needed by its requests.
\<close>

subsection \<open>Rules\<close>

record permission =
  pm_Group :: string
  pm_Resource :: string
  pm_Verb :: string

record rbac_rule =
  rule_Groups :: "string list"
  rule_Resources :: "string list"
  rule_Verbs :: "string list"

abbreviation perm :: "string \<Rightarrow> string \<Rightarrow> string \<Rightarrow> permission" where
  "perm g r v \<equiv> \<lparr>pm_Group = g, pm_Resource = r, pm_Verb = v\<rparr>"

text \<open>A role grants the union of what its rules grant.\<close>

definition rule_permissions :: "rbac_rule \<Rightarrow> permission list" where
  "rule_permissions r =
     [perm g s v. g \<leftarrow> rule_Groups r, s \<leftarrow> rule_Resources r, v \<leftarrow> rule_Verbs r]"

definition role_permissions :: "rbac_rule list \<Rightarrow> permission list" where
  "role_permissions role = concat (map rule_permissions role)"

definition all_verbs :: "string list" where
  "all_verbs = [''get'', ''list'', ''watch'', ''create'', ''update'', ''patch'', ''delete'']"

text \<open>The markers beside the reconciler.\<close>

definition rbac_markers :: "rbac_rule list" where
  "rbac_markers = [
     \<lparr>rule_Groups = [''execution.agenttask.io''], rule_Resources = [''agenttasks''], rule_Verbs = all_verbs\<rparr>,
     \<lparr>rule_Groups = [''execution.agenttask.io''], rule_Resources = [''agenttasks/status''],
       rule_Verbs = [''get'', ''update'', ''patch'']\<rparr>,
     \<lparr>rule_Groups = [''execution.agenttask.io''], rule_Resources = [''agenttasks/finalizers''],
       rule_Verbs = [''update'']\<rparr>,
     \<lparr>rule_Groups = [''execution.agenttask.io''], rule_Resources = [''sandboxes''], rule_Verbs = all_verbs\<rparr>,
     \<lparr>rule_Groups = [''core''], rule_Resources = [''pods''], rule_Verbs = all_verbs\<rparr>,
     \<lparr>rule_Groups = [''core''], rule_Resources = [''configmaps''], rule_Verbs = all_verbs\<rparr>,
     \<lparr>rule_Groups = [''networking.k8s.io''], rule_Resources = [''networkpolicies''], rule_Verbs = all_verbs\<rparr>,
     \<lparr>rule_Groups = [''apiextensions.k8s.io''], rule_Resources = [''customresourcedefinitions''],
       rule_Verbs = [''get'', ''list'', ''watch'']\<rparr>]"

text \<open>The deployed role.\<close>

definition manager_role :: "rbac_rule list" where
  "manager_role = [
     \<lparr>rule_Groups = [''''], rule_Resources = [''configmaps'', ''pods''],
       rule_Verbs = [''create'', ''delete'', ''get'', ''list'', ''patch'', ''update'', ''watch'']\<rparr>,
     \<lparr>rule_Groups = [''apiextensions.k8s.io''], rule_Resources = [''customresourcedefinitions''],
       rule_Verbs = [''get'', ''list'', ''watch'']\<rparr>,
     \<lparr>rule_Groups = [''execution.agenttask.io''], rule_Resources = [''agenttasks'', ''sandboxes''],
       rule_Verbs = [''create'', ''delete'', ''get'', ''list'', ''patch'', ''update'', ''watch'']\<rparr>,
     \<lparr>rule_Groups = [''execution.agenttask.io''], rule_Resources = [''agenttasks/finalizers''],
       rule_Verbs = [''update'']\<rparr>,
     \<lparr>rule_Groups = [''execution.agenttask.io''], rule_Resources = [''agenttasks/status''],
       rule_Verbs = [''get'', ''patch'', ''update'']\<rparr>,
     \<lparr>rule_Groups = [''networking.k8s.io''], rule_Resources = [''networkpolicies''],
       rule_Verbs = [''create'', ''delete'', ''get'', ''list'', ''patch'', ''update'', ''watch'']\<rparr>]"

text \<open>The marker's name of the core group, which has the empty name at the API server.\<close>

definition api_group :: "string \<Rightarrow> string" where
  "api_group g = (if g = ''core'' then '''' else g)"

definition marked_rules :: "rbac_rule list" where
  "marked_rules = map (\<lambda>r. r\<lparr>rule_Groups := map api_group (rule_Groups r)\<rparr>) rbac_markers"

text \<open>The deployed role grants what the markers ask for, no more and no less.\<close>

theorem role_matches_markers: "set (role_permissions manager_role) = set (role_permissions marked_rules)"
  by code_simp

subsection \<open>Requests\<close>

text \<open>The permission a request needs; the clock and the collectors are local.\<close>

fun needs :: "event \<Rightarrow> permission option" where
  "needs (Get_Task k r) = Some (perm (fst GroupVersion) ''agenttasks'' ''get'')"
| "needs (List_Tasks ns r) = Some (perm (fst GroupVersion) ''agenttasks'' ''list'')"
| "needs (Create_Task t r) = Some (perm (fst GroupVersion) ''agenttasks'' ''create'')"
| "needs (Update_Task t r) = Some (perm (fst GroupVersion) ''agenttasks'' ''update'')"
| "needs (Update_Status t r) = Some (perm (fst GroupVersion) ''agenttasks/status'' ''update'')"
| "needs (Delete_Task t r) = Some (perm (fst GroupVersion) ''agenttasks'' ''delete'')"
| "needs (Get_Pod k r) = Some (perm '''' ''pods'' ''get'')"
| "needs (Create_Pod p r) = Some (perm '''' ''pods'' ''create'')"
| "needs (Delete_Pod p r) = Some (perm '''' ''pods'' ''delete'')"
| "needs (Get_ConfigMap k r) = Some (perm '''' ''configmaps'' ''get'')"
| "needs (Create_ConfigMap c r) = Some (perm '''' ''configmaps'' ''create'')"
| "needs (Get_NetworkPolicy k r) =
     Some (perm ''networking.k8s.io'' ''networkpolicies'' ''get'')"
| "needs (Create_NetworkPolicy np r) =
     Some (perm ''networking.k8s.io'' ''networkpolicies'' ''create'')"
| "needs (Get_CRD gvk nm r) =
     Some (perm (gvk_Group gvk) ''customresourcedefinitions'' ''get'')"
| "needs (Get_Sandbox k r) = Some (perm (gvk_Group SandboxGVK) ''sandboxes'' ''get'')"
| "needs (Create_Sandbox b r) =
     Some (perm (gvk_Group (sb_GVK b)) ''sandboxes'' ''create'')"
| "needs (Read_Clock n) = None"
| "needs (Counter_Inc p r) = None"
| "needs (Histogram_Observe p d) = None"

definition used_permissions :: "permission list" where
  "used_permissions =
     map (\<lambda>v. perm ''execution.agenttask.io'' ''agenttasks'' v)
       [''get'', ''update'', ''delete'']
     @ [perm ''execution.agenttask.io'' ''agenttasks/status'' ''update'']
     @ map (\<lambda>v. perm '''' ''pods'' v) [''get'', ''create'', ''delete'']
     @ map (\<lambda>v. perm '''' ''configmaps'' v) [''get'', ''create'']
     @ map (\<lambda>v. perm ''networking.k8s.io'' ''networkpolicies'' v)
       [''get'', ''create'']
     @ [perm ''apiextensions.k8s.io'' ''customresourcedefinitions'' ''get'']
     @ map (\<lambda>v. perm ''execution.agenttask.io'' ''sandboxes'' v)
       [''get'', ''create'']"

definition in_bounds :: "event \<Rightarrow> bool" where
  "in_bounds e \<longleftrightarrow> (case needs e of None \<Rightarrow> True | Some p \<Rightarrow> p \<in> set used_permissions)"

lemma in_bounds_simps [simp]:
  "in_bounds (Get_Task k r1)" "in_bounds (Update_Task t r1)" "in_bounds (Update_Status t r1)"
  "in_bounds (Delete_Task t r2)" "in_bounds (Get_Pod k r3)" "in_bounds (Create_Pod p r3)"
  "in_bounds (Delete_Pod p r2)" "in_bounds (Get_ConfigMap k r4)" "in_bounds (Create_ConfigMap c r4)"
  "in_bounds (Get_NetworkPolicy k r5)" "in_bounds (Create_NetworkPolicy np r5)"
  "in_bounds (Get_Sandbox k r6)" "in_bounds (Read_Clock n)" "in_bounds (Counter_Inc ph re)"
  "in_bounds (Histogram_Observe ph d)"
  by (simp_all add: in_bounds_def used_permissions_def GroupVersion_def SandboxGVK_def)

lemma in_bounds_gvk [simp]:
  "gvk_Group gvk = ''apiextensions.k8s.io'' \<Longrightarrow> in_bounds (Get_CRD gvk nm r)"
  "sb_GVK b = SandboxGVK \<Longrightarrow> in_bounds (Create_Sandbox b r')"
  by (simp_all add: in_bounds_def used_permissions_def SandboxGVK_def)

subsection \<open>Every request is within the bounds\<close>

text \<open>A program whose every event satisfies a predicate.\<close>

definition only :: "(event \<Rightarrow> bool) \<Rightarrow> ('w, 'a) act \<Rightarrow> bool" where
  "only P m \<longleftrightarrow> (\<forall>s. list_all P (st_log s) \<longrightarrow> list_all P (st_log (snd (run_state m s))))"

named_theorems only_intro "programs whose events satisfy a predicate"

lemma only_ret [only_intro]: "only P (ret x)"
  by (simp add: only_def)

lemma only_bind [only_intro]:
  "\<lbrakk>only P m; \<And>x. only P (f x)\<rbrakk> \<Longrightarrow> only P (State_Monad.bind m f)"
  by (simp add: only_def State_Monad.bind_def case_prod_unfold)

lemma only_cases [only_intro]:
  "\<lbrakk>b \<Longrightarrow> only P m; \<not> b \<Longrightarrow> only P m'\<rbrakk> \<Longrightarrow> only P (if b then m else m')"
  "\<lbrakk>\<And>e. only P (f e); \<And>x. only P (g x)\<rbrakk> \<Longrightarrow> only P (case r of Inl e \<Rightarrow> f e | Inr x \<Rightarrow> g x)"
  "\<lbrakk>only P m; \<And>x. only P (h x)\<rbrakk> \<Longrightarrow> only P (case p of None \<Rightarrow> m | Some x \<Rightarrow> h x)"
  "\<lbrakk>\<And>x y. only P (k x y)\<rbrakk> \<Longrightarrow> only P (case z of (x, y) \<Rightarrow> k x y)"
  "only P (f x) \<Longrightarrow> only P (let y = x in f y)"
  by (simp_all split: sum.split option.split prod.split)

lemma only_call [only_intro]: "(\<And>r. P (ev r)) \<Longrightarrow> only P (call f ev)"
  by (simp add: only_def run_call case_prod_unfold)

lemma only_emit [only_intro]: "P e \<Longrightarrow> only P (emit e)"
  by (simp add: only_def)

lemmas reconcile_code = Reconcile_def reconcileDeleted_def reconcileActive_def reconcilePhase_def
  reconcileFinished_def finalizeAgentTask_def reconcilePending_def reconcileScheduled_def
  reconcileRunning_def reconcileCanceled_def reconcileTimeout_def checkTimeout_def dispatch_def
  ensureCodeConfigMap_def ensureNetworkPolicy_def ensurePod_def EnsureSandbox_def selectBackend_def
  checkSandboxAvailability_def resolveRuntimeProfile_def updatePhaseFailure_def handlePodFailure_def
  handlePodSuccess_def observe_duration_def

lemma only_Reconcile: "only in_bounds (Reconcile E req)"
  unfolding reconcile_code effect_defs
  by (intro only_intro in_bounds_simps in_bounds_gvk) (simp_all add: task_sandbox_def)

lemma only_reconcile_all: "only in_bounds (reconcile_all E reqs)"
proof (induction reqs)
  case (Cons req reqs)
  then show ?case
    by (simp only: reconcile_all.simps) (intro only_intro only_Reconcile)
qed (simp add: only_ret)

lemma worker_in_bounds: "list_all in_bounds (worker_log E reqs w)"
  using only_reconcile_all [of E reqs] unfolding only_def worker_log_def by simp

subsection \<open>Every permission is used\<close>

definition requested :: "event list \<Rightarrow> permission set" where
  "requested h = {p. \<exists>e \<in> set h. needs e = Some p}"

lemma requested_simps [simp]:
  "requested [] = {}" "requested (xs @ ys) = requested xs \<union> requested ys"
  "requested (e # es) = set_option (needs e) \<union> requested es"
  by (auto simp: requested_def)

text \<open>Some run on the reference API server uses the permission.\<close>

definition exercised :: "permission set" where
  "exercised = {p. \<exists>reqs w. p \<in> requested (worker_log cluster_env reqs w)}"

lemma exercisedI:
  assumes "wp (Reconcile cluster_env k) (\<lambda>r s'. P \<subseteq> requested (st_log s')) (start w)"
  shows "P \<subseteq> exercised"
proof -
  have "P \<subseteq> requested (worker_log cluster_env [k] w)"
    using assms by (simp add: worker_log_def wp_def State_Monad.bind_def case_prod_unfold)
  then show ?thesis unfolding exercised_def by blast
qed

text \<open>A task without a time limit, in a phase, on a server with or without sandboxes.\<close>

definition plain_task :: "string \<Rightarrow> AgentTask" where
  "plain_task phase = (sample_at phase)\<lparr>task_Spec :=
     (task_Spec (sample_at phase))\<lparr>spec_TimeoutSeconds := 0\<rparr>\<rparr>"

definition plain_cluster :: "bool \<Rightarrow> (NamespacedName \<times> Pod) list \<Rightarrow> AgentTask \<Rightarrow> cluster" where
  "plain_cluster crd pods t = empty_cluster\<lparr>cl_tasks := [(sample_key, t)], cl_pods := pods,
     cl_sandbox_crd := crd, cl_now := 20000000000\<rparr>"

lemmas run_defs = Reconcile_def reconcileActive_def reconcilePhase_def reconcileFinished_def
  checkTimeout_def wp_simps Let_def plain_cluster_def plain_task_def sample_key_def sample_at_def
  sample_task_def empty_cluster_def empty_meta_def empty_spec_def empty_status_def time_is_zero_def

lemma new_task_uses:
  "{perm ''execution.agenttask.io'' ''agenttasks'' ''get'',
    perm ''execution.agenttask.io'' ''agenttasks'' ''update''} \<subseteq> exercised"
  by (rule exercisedI [of sample_key _ "plain_cluster False [] sample_task"])
     (simp add: run_defs cl_update_task_def set_finalizers_def GroupVersion_def object_key_def)

lemma finished_task_uses:
  "{perm ''execution.agenttask.io'' ''agenttasks'' ''delete''} \<subseteq> exercised"
  by (rule exercisedI [of sample_key _ "plain_cluster False [] (plain_task AgentTaskPhaseSucceeded)"])
     (simp add: run_defs terminal_phases_def GroupVersion_def time_add_def time_after_def sint_seconds_0 cl_delete_task_def object_key_def)

lemma plain_simps [simp]:
  "task_Phase (plain_task p) = p" "time_is_zero (om_DeletionTimestamp (task_Meta (plain_task p)))"
  "task_Namespace (plain_task p) = ''default''" "task_Name (plain_task p) = ''sum''"
  "object_key (task_Meta (plain_task p)) = sample_key"
  "om_Finalizers (task_Meta (plain_task p)) = [agentTaskFinalizer]"
  "spec_TimeoutSeconds (task_Spec (plain_task p)) = 0"
  "\<not> spec_Canceled (task_Spec (plain_task p))" "spec_Backend (task_Spec (plain_task p)) = ''''"
  "spec_RuntimeProfile (task_Spec (plain_task p)) = ''python3.11''"
  "code_ConfigMapRef (spec_Code (task_Spec (plain_task p))) = None"
  "code_Source (spec_Code (task_Spec (plain_task p))) = ''print(1)''"
  "pod_key (plain_task p) = NamespacedName ''default'' ''sum-pod''"
  "ref_Kind (status_PodRef (task_Status (plain_task p))) = ''Pod''"
  by (simp_all add: pod_key_def plain_task_def sample_at_def sample_task_def empty_meta_def empty_spec_def
      time_is_zero_def object_key_def sample_key_def)

lemma running_task_uses:
  "{perm '''' ''pods'' ''get'',
    perm '''' ''pods'' ''delete''} \<subseteq> exercised"
  by (rule exercisedI [of sample_key _ "plain_cluster False
        [(NamespacedName ''default'' ''sum-pod'', sample_pod PodSucceeded)] (plain_task AgentTaskPhaseRunning)"])
     (simp add: Reconcile_def reconcileActive_def reconcilePhase_def checkTimeout_def reconcileRunning_def
       handlePodSuccess_def observe_duration_def plain_cluster_def empty_cluster_def wp_simps Let_def sample_pod_def
       metric_defs cl_delete_pod_def cl_update_status_def case_prod_unfold split: option.split)

lemmas pending_run_defs = Reconcile_def reconcileActive_def reconcilePhase_def checkTimeout_def
  reconcilePending_def ensureCodeConfigMap_def ensureNetworkPolicy_def selectBackend_def
  checkSandboxAvailability_def resolveRuntimeProfile_def dispatch_def ensurePod_def EnsureSandbox_def
  cl_create_configmap_def cl_create_netpol_def cl_create_pod_def cl_create_sandbox_def store_create_def
  cl_update_status_def default_profile_image_def IgnoreNotFound_def plain_cluster_def empty_cluster_def wp_simps Let_def

lemma pending_task_uses:
  "{perm ''execution.agenttask.io'' ''agenttasks/status'' ''update'',
    perm '''' ''configmaps'' ''get'',
    perm '''' ''configmaps'' ''create'',
    perm ''networking.k8s.io'' ''networkpolicies'' ''get'',
    perm ''networking.k8s.io'' ''networkpolicies'' ''create'',
    perm ''apiextensions.k8s.io'' ''customresourcedefinitions'' ''get'',
    perm '''' ''pods'' ''create''} \<subseteq> exercised"
  by (rule exercisedI [of sample_key _ "plain_cluster False [] (plain_task AgentTaskPhasePending)"])
     (simp add: pending_run_defs GroupVersion_def)

lemma sandbox_task_uses:
  "{perm ''execution.agenttask.io'' ''sandboxes'' ''get'',
    perm ''execution.agenttask.io'' ''sandboxes'' ''create''} \<subseteq> exercised"
  by (rule exercisedI [of sample_key _ "plain_cluster True [] (plain_task AgentTaskPhasePending)"])
     (simp add: pending_run_defs SandboxGVK_def task_sandbox_def)

lemma used_exercised: "set used_permissions \<subseteq> exercised"
  using new_task_uses finished_task_uses running_task_uses pending_task_uses sandbox_task_uses
  by (simp add: used_permissions_def)

lemma exercised_used: "exercised \<subseteq> set used_permissions"
proof
  fix p
  assume "p \<in> exercised"
  then obtain reqs w e where "e \<in> set (worker_log cluster_env reqs w)" "needs e = Some p"
    by (auto simp: exercised_def requested_def)
  then show "p \<in> set used_permissions"
    using worker_in_bounds [of cluster_env reqs w] by (force simp: in_bounds_def list_all_iff)
qed

text \<open>The permissions the deployed role grants, but for the verbs of the caches.\<close>

definition granted_for_requests :: "permission list" where
  "granted_for_requests =
     filter (\<lambda>p. pm_Verb p \<notin> {''list'', ''watch''}) (role_permissions manager_role)"


text \<open>What the role grants without need: writing over or deleting config maps, network policies
  and sandboxes, every patch, updating pods, creating tasks, reading the status subresource, and
  updating the finalizers subresource (which the API server may require of the owner of an object
  that blocks the owner's deletion).\<close>

theorem idle_grants:
  "set granted_for_requests - exercised = set
     ([perm '''' ''configmaps'' v. v \<leftarrow> [''delete'', ''patch'', ''update'']]
      @ [perm '''' ''pods'' v. v \<leftarrow> [''patch'', ''update'']]
      @ [perm ''execution.agenttask.io'' ''agenttasks'' v. v \<leftarrow> [''create'', ''patch'']]
      @ [perm ''execution.agenttask.io'' ''sandboxes'' v. v \<leftarrow> [''delete'', ''patch'', ''update'']]
      @ [perm ''execution.agenttask.io'' ''agenttasks/finalizers'' ''update'']
      @ [perm ''execution.agenttask.io'' ''agenttasks/status'' v. v \<leftarrow> [''get'', ''patch'']]
      @ [perm ''networking.k8s.io'' ''networkpolicies'' v. v \<leftarrow> [''delete'', ''patch'', ''update'']])"
  (is "_ = set ?idle")
proof -
  have exercised: "exercised = set used_permissions"
    using used_exercised exercised_used by blast
  have idle: "filter (\<lambda>p. p \<notin> set used_permissions) granted_for_requests = ?idle"
    by code_simp
  show ?thesis unfolding exercised idle [symmetric] by auto
qed

end
