(* ===== verification/Replay.thy ===== *)
theory Replay
  imports Reconciler
begin

text \<open>
  The history determines the world: a run of the reconciler is a sequence of requests, and
  replaying the requests of its history from the first world leads to the last. Properties of
  the world after every request follow from properties of single requests and from the policies
  the history conforms to.
\<close>

subsection \<open>The effect of an event on the world\<close>

fun effect :: "'w env \<Rightarrow> event \<Rightarrow> 'w \<Rightarrow> 'w" where
  "effect E (Get_Task k r) w = snd (env_GetTask E k w)"
| "effect E (List_Tasks ns r) w = snd (env_ListTasks E ns w)"
| "effect E (Create_Task t r) w = snd (env_CreateTask E t w)"
| "effect E (Update_Task t r) w = snd (env_UpdateTask E t w)"
| "effect E (Update_Status t r) w = snd (env_UpdateTaskStatus E t w)"
| "effect E (Delete_Task t r) w = snd (env_DeleteTask E t w)"
| "effect E (Get_Pod k r) w = snd (env_GetPod E k w)"
| "effect E (Create_Pod p r) w = snd (env_CreatePod E p w)"
| "effect E (Delete_Pod p r) w = snd (env_DeletePod E p w)"
| "effect E (Get_ConfigMap k r) w = snd (env_GetConfigMap E k w)"
| "effect E (Create_ConfigMap c r) w = snd (env_CreateConfigMap E c w)"
| "effect E (Get_NetworkPolicy k r) w = snd (env_GetNetworkPolicy E k w)"
| "effect E (Create_NetworkPolicy n r) w = snd (env_CreateNetworkPolicy E n w)"
| "effect E (Get_CRD gvk n r) w = snd (env_GetCRD E gvk n w)"
| "effect E (Get_Sandbox k r) w = snd (env_GetSandbox E k w)"
| "effect E (Create_Sandbox b r) w = snd (env_CreateSandbox E b w)"
| "effect E (Read_Clock n) w = snd (env_Now E w)"
| "effect E (Counter_Inc p r) w = w"
| "effect E (Histogram_Observe p d) w = w"

text \<open>The answers that are reasoned about: the history holds what the server answered to
  requests about tasks and pods.\<close>

fun genuine :: "'w env \<Rightarrow> event \<Rightarrow> 'w \<Rightarrow> bool" where
  "genuine E (Get_Task k r) w = (fst (env_GetTask E k w) = r)"
| "genuine E (Update_Task t r) w = (fst (env_UpdateTask E t w) = r)"
| "genuine E (Update_Status t r) w = (fst (env_UpdateTaskStatus E t w) = r)"
| "genuine E (Get_Pod k r) w = (fst (env_GetPod E k w) = r)"
| "genuine E (Create_Pod p r) w = (fst (env_CreatePod E p w) = r)"
| "genuine E e w = True"

fun replay :: "'w env \<Rightarrow> event list \<Rightarrow> 'w \<Rightarrow> 'w" where
  "replay E [] w = w"
| "replay E (e # es) w = replay E es (effect E e w)"

fun genuine_all :: "'w env \<Rightarrow> event list \<Rightarrow> 'w \<Rightarrow> bool" where
  "genuine_all E [] w = True"
| "genuine_all E (e # es) w = (genuine E e w \<and> genuine_all E es (effect E e w))"

lemma replay_append [simp]: "replay E (xs @ ys) w = replay E ys (replay E xs w)"
  by (induction xs arbitrary: w) auto

lemma genuine_all_append [simp]:
  "genuine_all E (xs @ ys) w \<longleftrightarrow> genuine_all E xs w \<and> genuine_all E ys (replay E xs w)"
  by (induction xs arbitrary: w) auto

subsection \<open>Programs that act through requests only\<close>

definition replays :: "'w env \<Rightarrow> ('w, 'a) act \<Rightarrow> bool" where
  "replays E m \<longleftrightarrow> (\<forall>s. \<exists>es. st_log (snd (run_state m s)) = st_log s @ es
     \<and> st_world (snd (run_state m s)) = replay E es (st_world s)
     \<and> genuine_all E es (st_world s))"

named_theorems replays_intro "programs that act through requests only"

lemma replays_ret [replays_intro]: "replays E (ret x)"
  by (simp add: replays_def)

lemma replays_bind [replays_intro]:
  assumes "replays E m" "\<And>x. replays E (f x)"
  shows "replays E (State_Monad.bind m f)"
  unfolding replays_def
proof
  fix s
  obtain x s1 where m: "run_state m s = (x, s1)" by fastforce
  obtain es where es: "st_log s1 = st_log s @ es" "st_world s1 = replay E es (st_world s)"
      "genuine_all E es (st_world s)"
    using assms(1) m unfolding replays_def by (metis snd_conv)
  obtain es' where es': "st_log (snd (run_state (f x) s1)) = st_log s1 @ es'"
      "st_world (snd (run_state (f x) s1)) = replay E es' (st_world s1)"
      "genuine_all E es' (st_world s1)"
    using assms(2) unfolding replays_def by blast
  show "\<exists>es. st_log (snd (run_state (State_Monad.bind m f) s)) = st_log s @ es
     \<and> st_world (snd (run_state (State_Monad.bind m f) s)) = replay E es (st_world s)
     \<and> genuine_all E es (st_world s)"
    by (rule exI [of _ "es @ es'"]) (use m es es' in simp)
qed

lemma replays_cases [replays_intro]:
  "\<lbrakk>b \<Longrightarrow> replays E m; \<not> b \<Longrightarrow> replays E m'\<rbrakk> \<Longrightarrow> replays E (if b then m else m')"
  "\<lbrakk>\<And>e. replays E (f e); \<And>x. replays E (g x)\<rbrakk> \<Longrightarrow> replays E (case r of Inl e \<Rightarrow> f e | Inr x \<Rightarrow> g x)"
  "\<lbrakk>replays E m; \<And>x. replays E (h x)\<rbrakk> \<Longrightarrow> replays E (case p of None \<Rightarrow> m | Some x \<Rightarrow> h x)"
  "\<lbrakk>\<And>x y. replays E (k x y)\<rbrakk> \<Longrightarrow> replays E (case z of (x, y) \<Rightarrow> k x y)"
  by (simp_all split: sum.split option.split prod.split)

lemma replays_Let [replays_intro]: "replays E (f x) \<Longrightarrow> replays E (let y = x in f y)"
  by simp

lemma replays_call:
  "\<lbrakk>\<And>w. effect E (ev (fst (f w))) w = snd (f w); \<And>w. genuine E (ev (fst (f w))) w\<rbrakk>
   \<Longrightarrow> replays E (call f ev)"
  unfolding replays_def call_def
proof
  fix s :: "'a st"
  assume e: "\<And>w. effect E (ev (fst (f w))) w = snd (f w)" "\<And>w. genuine E (ev (fst (f w))) w"
  show "\<exists>es. st_log (snd (run_state (State (\<lambda>s. case f (st_world s) of
       (r, w) \<Rightarrow> (r, \<lparr>st_world = w, st_log = st_log s @ [ev r]\<rparr>))) s)) = st_log s @ es
     \<and> st_world (snd (run_state (State (\<lambda>s. case f (st_world s) of
       (r, w) \<Rightarrow> (r, \<lparr>st_world = w, st_log = st_log s @ [ev r]\<rparr>))) s)) = replay E es (st_world s)
     \<and> genuine_all E es (st_world s)"
    by (rule exI [of _ "[ev (fst (f (st_world s)))]"]) (simp add: e case_prod_unfold)
qed

lemma replays_requests [replays_intro]:
  "replays E (GetTask E k)" "replays E (ListTasks E ns)" "replays E (CreateTask E t)"
  "replays E (UpdateTask E t)" "replays E (UpdateTaskStatus E t)" "replays E (DeleteTask E t)"
  "replays E (GetPod E k)" "replays E (CreatePod E p)" "replays E (DeletePod E p)"
  "replays E (GetConfigMap E k)" "replays E (CreateConfigMap E c)"
  "replays E (GetNetworkPolicy E k)" "replays E (CreateNetworkPolicy E n)"
  "replays E (GetCRD E gvk nm)" "replays E (GetSandbox E k)" "replays E (CreateSandbox E b)"
  "replays E (Now E)"
  unfolding request_defs by (rule replays_call; simp)+

lemma replays_metrics [replays_intro]:
  "replays E (tasksTotal_Inc p r)" "replays E (taskDuration_Observe p d)"
  by (simp_all add: metric_defs replays_def emit_def)

lemma replays_branches: "replays E (reconcileActive E t)" "replays E (reconcileDeleted E t)"
  unfolding reconcileDeleted_def reconcileActive_def reconcilePhase_def
    reconcileFinished_def finalizeAgentTask_def reconcilePending_def reconcileScheduled_def
    reconcileRunning_def reconcileCanceled_def reconcileTimeout_def checkTimeout_def dispatch_def
    ensureCodeConfigMap_def ensureNetworkPolicy_def ensurePod_def EnsureSandbox_def
    selectBackend_def checkSandboxAvailability_def resolveRuntimeProfile_def
    updatePhaseFailure_def handlePodFailure_def handlePodSuccess_def observe_duration_def
  by (intro replays_intro)+

lemma replays_Reconcile: "replays E (Reconcile E req)"
  unfolding Reconcile_def by (intro replays_intro replays_branches)

text \<open>The history only grows.\<close>

lemma replays_extends:
  "replays E m \<Longrightarrow> wp m (\<lambda>r s'. set (st_log s) \<subseteq> set (st_log s')) s"
  unfolding replays_def wp_def by (auto split: prod.split dest!: spec [of _ s])

lemma replays_reconcile_all: "replays E (reconcile_all E reqs)"
proof (induction reqs)
  case (Cons req reqs)
  then show ?case
    by (simp only: reconcile_all.simps) (intro replays_intro replays_Reconcile)
qed (simp add: replays_ret)

text \<open>The world a worker leaves.\<close>

definition worker_world :: "'w env \<Rightarrow> NamespacedName list \<Rightarrow> 'w \<Rightarrow> 'w" where
  "worker_world E reqs w = st_world (snd (run_state (reconcile_all E reqs) (start w)))"

lemma worker_replays:
  "worker_world E reqs w = replay E (worker_log E reqs w) w"
  "genuine_all E (worker_log E reqs w) w"
  using replays_reconcile_all [of E reqs] unfolding replays_def worker_log_def worker_world_def
  by (metis append_Nil start_simps)+

subsection \<open>Invariants of worlds and histories\<close>

text \<open>
  \<open>I\<close> relates the world to the history so far. Kept by every request the policy allows, it
  holds after every prefix of the history, and so does what follows from it for one request.
\<close>

lemma replay_invariant:
  assumes "I w []" and "conforms ok es" and "genuine_all E es w"
    and step: "\<And>w h e. \<lbrakk>I w h; ok h e; genuine E e w\<rbrakk> \<Longrightarrow> I (effect E e w) (h @ [e])"
  shows "I (replay E es w) es"
  using assms(2,3)
proof (induction es rule: rev_induct)
  case (snoc e es)
  then show ?case by (simp add: step)
qed (simp add: assms(1))

lemma replay_steps:
  assumes "I w []" and "conforms ok es" and "genuine_all E es w"
    and step: "\<And>w h e. \<lbrakk>I w h; ok h e; genuine E e w\<rbrakk> \<Longrightarrow> I (effect E e w) (h @ [e])"
    and result: "\<And>w h e. \<lbrakk>I w h; ok h e; genuine E e w\<rbrakk> \<Longrightarrow> R h e w (effect E e w)"
    and "i < length es"
  shows "R (take i es) (es ! i) (replay E (take i es) w) (replay E (take (Suc i) es) w)"
proof -
  let ?h = "take i es"
  have h: "take (Suc i) es = ?h @ [es ! i]"
    using assms(6) by (simp add: take_Suc_conv_app_nth)
  have "es = ?h @ es ! i # drop (Suc i) es"
    using assms(6) by (rule id_take_nth_drop)
  then have "conforms ok (?h @ es ! i # drop (Suc i) es)"
      "genuine_all E (?h @ es ! i # drop (Suc i) es) w"
    using assms(2,3) by simp_all
  then have c: "conforms ok ?h" "ok ?h (es ! i)" "genuine_all E ?h w"
      "genuine E (es ! i) (replay E ?h w)"
    by simp_all
  have "I (replay E ?h w) ?h"
    by (rule replay_invariant [where I = I, OF assms(1) c(1,3)]) (rule step)
  then show ?thesis
    using result [OF _ c(2,4)] by (simp add: h)
qed

end
