(* ===== verification/ApiServer.thy ===== *)
theory ApiServer
  imports Cluster ReconcilePolicy Replay
begin

text \<open>
  The API server under concurrency: the reference server of Cluster with the resource versions
  of Kubernetes. Every write of a task gives it a version never used before; an update that
  carries another version than the stored one is refused with a conflict; the deletion mark is
  the server's alone. Between two requests of the operator other actors may act: users create,
  edit and delete tasks through the same server, and anything may happen to other objects, to
  the clock and to the Sandbox CRD. The interference is a parameter \<open>others\<close>, a function of
  the number of requests so far, bound only to be made of such steps.
\<close>

record shared =
  sh_cluster :: cluster
  sh_version :: nat
  sh_ticks :: nat

abbreviation tasks :: "shared \<Rightarrow> NamespacedName \<rightharpoonup> AgentTask" where
  "tasks w \<equiv> map_of (cl_tasks (sh_cluster w))"

abbreviation version :: "AgentTask \<Rightarrow> string" where
  "version t \<equiv> om_ResourceVersion (task_Meta t)"

definition conflict :: gerror where
  "conflict = StatusError StatusReasonConflict ''the object has been modified''"

text \<open>A task as it is stored: under the next version, with the server's deletion mark.\<close>

definition stamp :: "nat \<Rightarrow> instant option \<Rightarrow> AgentTask \<Rightarrow> AgentTask" where
  "stamp v d t = t\<lparr>task_Meta := (task_Meta t)\<lparr>om_ResourceVersion := show_nat v, om_DeletionTimestamp := d\<rparr>\<rparr>"

definition put :: "AgentTask \<Rightarrow> shared \<Rightarrow> shared" where
  "put t w = w\<lparr>sh_cluster := (sh_cluster w)\<lparr>cl_tasks :=
     AList.update (object_key (task_Meta t)) t (cl_tasks (sh_cluster w))\<rparr>,
     sh_version := Suc (sh_version w)\<rparr>"

definition drop_task :: "NamespacedName \<Rightarrow> shared \<Rightarrow> shared" where
  "drop_task k w = w\<lparr>sh_cluster := (sh_cluster w)\<lparr>cl_tasks := AList.delete k (cl_tasks (sh_cluster w))\<rparr>\<rparr>"

definition sh_create_task :: "AgentTask \<Rightarrow> shared \<Rightarrow> (gerror + AgentTask) \<times> shared" where
  "sh_create_task t w =
     (let new = stamp (sh_version w) None (created_task (sh_cluster w) t) in
      (case tasks w (object_key (task_Meta new)) of
         None \<Rightarrow> (Inr new, put new w)
       | Some old \<Rightarrow> (Inl already_exists, w)))"

definition sh_update_task :: "AgentTask \<Rightarrow> shared \<Rightarrow> (gerror + AgentTask) \<times> shared" where
  "sh_update_task t w = (let k = object_key (task_Meta t) in
     (case tasks w k of
        None \<Rightarrow> (Inl not_found, w)
      | Some old \<Rightarrow>
          (if version t \<noteq> version old then (Inl conflict, w)
           else let new = stamp (sh_version w) (om_DeletionTimestamp (task_Meta old))
                  (t\<lparr>task_Status := task_Status old\<rparr>) in
             if deleting old \<and> om_Finalizers (task_Meta t) = [] then (Inr new, drop_task k w)
             else (Inr new, put new w))))"

definition sh_update_status :: "AgentTask \<Rightarrow> shared \<Rightarrow> (gerror + AgentTask) \<times> shared" where
  "sh_update_status t w = (let k = object_key (task_Meta t) in
     (case tasks w k of
        None \<Rightarrow> (Inl not_found, w)
      | Some old \<Rightarrow>
          (if version t \<noteq> version old then (Inl conflict, w)
           else let new = stamp (sh_version w) (om_DeletionTimestamp (task_Meta old))
                  (old\<lparr>task_Status := stored_status (task_Status t)\<rparr>)
             in (Inr new, put new w))))"

definition sh_delete_task :: "AgentTask \<Rightarrow> shared \<Rightarrow> gerror option \<times> shared" where
  "sh_delete_task t w = (let k = object_key (task_Meta t) in
     (case tasks w k of
        None \<Rightarrow> (Some not_found, w)
      | Some old \<Rightarrow>
          (if om_Finalizers (task_Meta old) = [] then (None, drop_task k w)
           else if deleting old then (None, w)
           else (None, put (stamp (sh_version w) (Some (cl_now (sh_cluster w))) old) w))))"

text \<open>Requests about other objects reach the cluster itself.\<close>

definition on_cluster :: "(cluster \<Rightarrow> 'a \<times> cluster) \<Rightarrow> shared \<Rightarrow> 'a \<times> shared" where
  "on_cluster f w = (case f (sh_cluster w) of (r, c) \<Rightarrow> (r, w\<lparr>sh_cluster := c\<rparr>))"

text \<open>Interference before every request.\<close>

definition meanwhile :: "(nat \<Rightarrow> shared \<Rightarrow> shared) \<Rightarrow> shared \<Rightarrow> shared" where
  "meanwhile others w = (others (sh_ticks w) w)\<lparr>sh_ticks := Suc (sh_ticks w)\<rparr>"

definition shared_env :: "(nat \<Rightarrow> shared \<Rightarrow> shared) \<Rightarrow> shared env" where
  "shared_env others = (let m = meanwhile others in \<lparr>
     env_GetTask = (\<lambda>k w. on_cluster (env_GetTask cluster_env k) (m w)),
     env_ListTasks = (\<lambda>ns w. on_cluster (cl_list_tasks ns) (m w)),
     env_CreateTask = (\<lambda>t w. sh_create_task t (m w)),
     env_UpdateTask = (\<lambda>t w. sh_update_task t (m w)),
     env_UpdateTaskStatus = (\<lambda>t w. sh_update_status t (m w)),
     env_DeleteTask = (\<lambda>t w. sh_delete_task t (m w)),
     env_GetPod = (\<lambda>k w. on_cluster (env_GetPod cluster_env k) (m w)),
     env_CreatePod = (\<lambda>p w. on_cluster (cl_create_pod p) (m w)),
     env_DeletePod = (\<lambda>p w. on_cluster (cl_delete_pod p) (m w)),
     env_GetConfigMap = (\<lambda>k w. on_cluster (env_GetConfigMap cluster_env k) (m w)),
     env_CreateConfigMap = (\<lambda>c w. on_cluster (cl_create_configmap c) (m w)),
     env_GetNetworkPolicy = (\<lambda>k w. on_cluster (env_GetNetworkPolicy cluster_env k) (m w)),
     env_CreateNetworkPolicy = (\<lambda>n w. on_cluster (cl_create_netpol n) (m w)),
     env_GetCRD = (\<lambda>gvk n w. on_cluster (env_GetCRD cluster_env gvk n) (m w)),
     env_GetSandbox = (\<lambda>k w. on_cluster (env_GetSandbox cluster_env k) (m w)),
     env_CreateSandbox = (\<lambda>b w. on_cluster (cl_create_sandbox b) (m w)),
     env_Now = (\<lambda>w. on_cluster (env_Now cluster_env) (m w)),
     env_ContainsFinalizer = env_ContainsFinalizer cluster_env,
     env_AddFinalizer = env_AddFinalizer cluster_env,
     env_RemoveFinalizer = env_RemoveFinalizer cluster_env,
     env_NewControllerRef = env_NewControllerRef cluster_env\<rparr>)"

text \<open>
  The steps of other actors. A user may create a task, edit it as long as the operator's
  finalizer stays, and ask for its deletion; everything but the tasks may change in any way.
\<close>

definition has_finalizer :: "AgentTask \<Rightarrow> bool" where
  "has_finalizer t \<longleftrightarrow> agentTaskFinalizer \<in> set (om_Finalizers (task_Meta t))"

inductive user_step :: "shared \<Rightarrow> shared \<Rightarrow> bool" where
  create: "user_step w (snd (sh_create_task t w))"
| edit: "(\<And>old. \<lbrakk>tasks w (object_key (task_Meta t)) = Some old; has_finalizer old\<rbrakk> \<Longrightarrow> has_finalizer t)
     \<Longrightarrow> user_step w (snd (sh_update_task t w))"
| request_deletion: "user_step w (snd (sh_delete_task t w))"
| elsewhere: "\<lbrakk>cl_tasks (sh_cluster w') = cl_tasks (sh_cluster w); sh_version w' = sh_version w\<rbrakk>
     \<Longrightarrow> user_step w w'"

definition fair_others :: "(nat \<Rightarrow> shared \<Rightarrow> shared) \<Rightarrow> bool" where
  "fair_others others \<longleftrightarrow> (\<forall>n w. user_step\<^sup>*\<^sup>* w (others n w))"

definition no_others :: "nat \<Rightarrow> shared \<Rightarrow> shared" where
  "no_others n w = w"

subsection \<open>Well-formed stores\<close>

text \<open>
  Every task is stored under its own name, and its version is older than the next one, so the
  next version is new.
\<close>

definition old_version :: "shared \<Rightarrow> AgentTask \<Rightarrow> bool" where
  "old_version w t \<longleftrightarrow> (\<exists>v < sh_version w. version t = show_nat v)"

definition shared_wf :: "shared \<Rightarrow> bool" where
  "shared_wf w \<longleftrightarrow> (\<forall>k t. tasks w k = Some t \<longrightarrow> object_key (task_Meta t) = k \<and> old_version w t)"


definition known :: "shared \<Rightarrow> AgentTask \<Rightarrow> bool" where
  "known w t0 \<longleftrightarrow> old_version w t0
     \<and> (\<forall>t. tasks w (object_key (task_Meta t0)) = Some t \<and> version t = version t0 \<longrightarrow> t = t0)"

text \<open>The finalizer and the phase of a task that was read are still those of the stored task.\<close>

definition held :: "shared \<Rightarrow> AgentTask \<Rightarrow> bool" where
  "held w t0 \<longleftrightarrow> (\<exists>t. tasks w (object_key (task_Meta t0)) = Some t \<and> has_finalizer t
     \<and> task_Phase t = task_Phase t0)"

lemma stamp_simps [simp]:
  "object_key (task_Meta (stamp v d t)) = object_key (task_Meta t)"
  "version (stamp v d t) = show_nat v" "task_Status (stamp v d t) = task_Status t"
  "task_Spec (stamp v d t) = task_Spec t" "has_finalizer (stamp v d t) = has_finalizer t"
  "om_Finalizers (task_Meta (stamp v d t)) = om_Finalizers (task_Meta t)"
  "om_DeletionTimestamp (task_Meta (stamp v d t)) = d"
  by (simp_all add: stamp_def object_key_def has_finalizer_def)

lemma put_simps [simp]:
  "tasks (put t w) = (tasks w)(object_key (task_Meta t) \<mapsto> t)" "sh_version (put t w) = Suc (sh_version w)"
  by (simp_all add: put_def)

lemma drop_task_simps [simp]:
  "tasks (drop_task k w) = (tasks w)(k := None)" "sh_version (drop_task k w) = sh_version w"
  by (simp_all add: drop_task_def)

lemma ticks_simps [simp]:
  "tasks (w\<lparr>sh_ticks := n\<rparr>) = tasks w" "sh_version (w\<lparr>sh_ticks := n\<rparr>) = sh_version w"
  by simp_all

text \<open>The three things a step can do to the tasks.\<close>

inductive moved :: "shared \<Rightarrow> shared \<Rightarrow> bool" where
  nothing: "\<lbrakk>tasks w' = tasks w; sh_version w' = sh_version w\<rbrakk> \<Longrightarrow> moved w w'"
| stored: "\<lbrakk>tasks w' = (tasks w)(object_key (task_Meta t) \<mapsto> stamp (sh_version w) d t);
     sh_version w' = Suc (sh_version w)\<rbrakk> \<Longrightarrow> moved w w'"
| removed: "\<lbrakk>tasks w' = (tasks w)(k := None); sh_version w' = sh_version w\<rbrakk> \<Longrightarrow> moved w w'"

lemma moved_wf: "\<lbrakk>moved w w'; shared_wf w\<rbrakk> \<Longrightarrow> shared_wf w'"
  by (erule moved.cases) (auto simp: shared_wf_def old_version_def less_Suc_eq split: if_splits)

lemma moved_known: "\<lbrakk>moved w w'; known w t0\<rbrakk> \<Longrightarrow> known w' t0"
  by (erule moved.cases) (auto simp: known_def old_version_def less_Suc_eq split: if_splits)

lemma moved_puts:
  "moved w (put (stamp (sh_version w) d t) w)" "moved w (drop_task k w)" "moved w w"
  by (rule moved.intros(2) moved.intros(3) moved.intros(1); simp)+

lemma requests_moved:
  "moved w (snd (sh_create_task t w))" "moved w (snd (sh_update_task t w))"
  "moved w (snd (sh_update_status t w))" "moved w (snd (sh_delete_task t w))"
  by (auto simp: sh_create_task_def sh_update_task_def sh_update_status_def sh_delete_task_def Let_def
      split: option.split intro: moved_puts)

end
