(* ===== verification/Refinement.thy ===== *)
theory Refinement
  imports ApiServer
begin

text \<open>
  The life of a task as an abstract transition system, and the proof that the reconciler
  implements it: whatever other actors do between the requests of the operator, every
  request changes the life of a task by at most one step the operator is allowed, after steps
  of the other actors.
\<close>

subsection \<open>The abstract life of a task\<close>

text \<open>A task is absent, or present with or without the finalizer, marked for deletion or not, in
  a phase.\<close>

datatype life =
    Absent
  | Present (finalizer: bool) (marked: bool) (in_phase: string)

inductive user_life :: "life \<Rightarrow> life \<Rightarrow> bool" where
  create: "user_life Absent (Present f False '''')"
| edit: "user_life (Present False d p) (Present f d p)"
| mark: "user_life (Present f False p) (Present f True p)"
| vanish: "user_life (Present False d p) Absent"

inductive control_life :: "life \<Rightarrow> life \<Rightarrow> bool" where
  adopt: "control_life (Present False False p) (Present True False p)"
| advance: "phase_step p q \<Longrightarrow> control_life (Present True False p) (Present True False q)"
| expire: "p \<in> terminal_phases \<Longrightarrow> control_life (Present True False p) (Present True True p)"
| release: "control_life (Present True True p) (Present False True p)"
| finish: "control_life (Present True True p) Absent"

text \<open>The abstraction of the API server's state.\<close>

definition life :: "shared \<Rightarrow> NamespacedName \<Rightarrow> life" where
  "life w k = (case tasks w k of None \<Rightarrow> Absent
     | Some t \<Rightarrow> Present (has_finalizer t) (deleting t) (task_Phase t))"

lemma life_simps:
  "tasks w k = None \<Longrightarrow> life w k = Absent"
  "tasks w k = Some t \<Longrightarrow> life w k = Present (has_finalizer t) (deleting t) (task_Phase t)"
  by (simp_all add: life_def)

lemma life_cong: "tasks w' k = tasks w k \<Longrightarrow> life w' k = life w k"
  by (simp add: life_def)

subsection \<open>Other actors\<close>

lemma user_step_moved: "user_step w w' \<Longrightarrow> moved w w'"
  by (erule user_step.cases) (auto intro: requests_moved moved.nothing)

lemma deleting_stamp: "deleting (stamp v d t) \<longleftrightarrow> \<not> time_is_zero d"
  by (simp add: deleting_def)

lemma no_finalizers: "om_Finalizers (task_Meta t) = [] \<Longrightarrow> \<not> has_finalizer t"
  by (simp add: has_finalizer_def)

lemma status_simps [simp]:
  "has_finalizer (t\<lparr>task_Status := st\<rparr>) = has_finalizer t"
  by (simp add: has_finalizer_def)

lemma created_task_simps [simp]:
  "task_Status (created_task c t) = empty_status"
  by (simp add: created_task_def)

lemma user_step_life:
  assumes "user_step w w'" and wf: "shared_wf w"
  shows "user_life\<^sup>=\<^sup>= (life w k) (life w' k)"
  using assms(1)
proof cases
  case (create t)
  then show ?thesis
    by (auto simp: sh_create_task_def Let_def life_def deleting_stamp time_is_zero_def empty_status_def
        split: option.split intro: user_life.intros)
next
  case (edit t)
  show ?thesis
  proof (cases "tasks w (object_key (task_Meta t))")
    case (Some old)
    with edit(2) have keep: "has_finalizer old \<longrightarrow> has_finalizer t" by blast
    show ?thesis
    proof (cases "has_finalizer old")
      case True
      then show ?thesis
        using edit(1) Some keep no_finalizers [of t]
        by (auto simp: sh_update_task_def Let_def life_def deleting_stamp deleting_def)
    next
      case False
      then show ?thesis
        using edit(1) Some
        by (auto simp: sh_update_task_def Let_def life_def deleting_stamp deleting_def
            intro: user_life.intros)
    qed
  qed (use edit(1) in \<open>simp add: sh_update_task_def\<close>)
next
  case (request_deletion t)
  show ?thesis
  proof (cases "tasks w (object_key (task_Meta t))")
    case (Some old)
    then have "object_key (task_Meta old) = object_key (task_Meta t)"
      using wf by (simp add: shared_wf_def)
    then show ?thesis
      using request_deletion Some
      by (auto simp: sh_delete_task_def Let_def life_def deleting_stamp deleting_def no_finalizers
          intro: user_life.intros)
  qed (use request_deletion in \<open>simp add: sh_delete_task_def\<close>)
next
  case elsewhere
  then show ?thesis by (simp add: life_def)
qed

lemma user_step_held:
  "\<lbrakk>user_step w w'; shared_wf w; held w t0\<rbrakk> \<Longrightarrow> held w' t0"
  by (erule user_step.cases)
     (auto simp: held_def sh_create_task_def sh_update_task_def sh_delete_task_def Let_def
        no_finalizers shared_wf_def split: option.splits)

text \<open>What the interference before a request keeps.\<close>

lemma users_keep:
  assumes "user_step\<^sup>*\<^sup>* w w'" and "shared_wf w"
  shows "shared_wf w' \<and> user_life\<^sup>*\<^sup>* (life w k) (life w' k)
     \<and> (known w t0 \<longrightarrow> known w' t0) \<and> (held w t0 \<longrightarrow> held w' t0)"
  using assms
proof (induction rule: rtranclp_induct)
  case (step y z)
  then have "shared_wf y" "user_life\<^sup>*\<^sup>* (life w k) (life y k)" by blast+
  moreover have "user_life\<^sup>*\<^sup>* (life y k) (life z k)"
    using user_step_life [OF step.hyps(2) \<open>shared_wf y\<close>, of k] by (auto simp: sup2CI)
  ultimately show ?case
    using step moved_wf moved_known user_step_moved user_step_held rtranclp_trans by metis
qed simp

lemma meanwhile_keeps:
  assumes "fair_others others" and "shared_wf w"
  shows "shared_wf (meanwhile others w) \<and> user_life\<^sup>*\<^sup>* (life w k) (life (meanwhile others w) k)
     \<and> (known w t0 \<longrightarrow> known (meanwhile others w) t0) \<and> (held w t0 \<longrightarrow> held (meanwhile others w) t0)"
proof -
  let ?v = "others (sh_ticks w) w"
  have "shared_wf (meanwhile others w) = shared_wf ?v" "life (meanwhile others w) k = life ?v k"
    "known (meanwhile others w) t0 = known ?v t0" "held (meanwhile others w) t0 = held ?v t0"
    by (simp_all add: meanwhile_def shared_wf_def old_version_def life_def known_def held_def)
  moreover have "user_step\<^sup>*\<^sup>* w ?v"
    using assms(1) by (simp add: fair_others_def)
  ultimately show ?thesis
    using users_keep [OF _ assms(2), of ?v k t0] by metis
qed

subsection \<open>The operator's requests\<close>

fun writes_task :: "event \<Rightarrow> bool" where
  "writes_task (Create_Task t r) = True"
| "writes_task (Update_Task t r) = True"
| "writes_task (Update_Status t r) = True"
| "writes_task (Delete_Task t r) = True"
| "writes_task e = False"

text \<open>Where the operator's request finds the server, after the other actors.\<close>

fun before_request :: "(nat \<Rightarrow> shared \<Rightarrow> shared) \<Rightarrow> event \<Rightarrow> shared \<Rightarrow> shared" where
  "before_request others (Counter_Inc p r) w = w"
| "before_request others (Histogram_Observe p d) w = w"
| "before_request others e w = meanwhile others w"

lemma before_request_keeps:
  assumes "fair_others others" and "shared_wf w"
  shows "shared_wf (before_request others e w)
     \<and> user_life\<^sup>*\<^sup>* (life w k) (life (before_request others e w) k)
     \<and> (known w t0 \<longrightarrow> known (before_request others e w) t0)
     \<and> (held w t0 \<longrightarrow> held (before_request others e w) t0)"
  using meanwhile_keeps [OF assms, of k t0] assms(2) by (cases e) auto

lemma on_cluster_tasks:
  "(\<And>c. cl_tasks (snd (f c)) = cl_tasks c) \<Longrightarrow> tasks (snd (on_cluster f w)) = tasks w"
  "sh_version (snd (on_cluster f w)) = sh_version w"
  by (auto simp: on_cluster_def split: prod.split) (metis snd_conv)

lemma effect_elsewhere:
  assumes "\<not> writes_task e"
  shows "tasks (effect (shared_env others) e w) = tasks (before_request others e w)"
    and "sh_version (effect (shared_env others) e w) = sh_version (before_request others e w)"
  using assms
  by (cases e; simp add: shared_env_def Let_def; (subst on_cluster_tasks)?;
      auto simp: cluster_env_def cl_create_pod_def cl_delete_pod_def cl_create_configmap_def
        cl_create_netpol_def cl_create_sandbox_def cl_list_tasks_def split: prod.split)+

lemma shared_writes [simp]:
  "env_UpdateTask (shared_env others) t w = sh_update_task t (meanwhile others w)"
  "env_UpdateTaskStatus (shared_env others) t w = sh_update_status t (meanwhile others w)"
  "env_DeleteTask (shared_env others) t w = sh_delete_task t (meanwhile others w)"
  by (simp_all add: shared_env_def Let_def)

lemma stored_status_phase [simp]: "status_Phase (stored_status st) = status_Phase st"
  by (simp add: stored_status_def)

text \<open>An update that is not refused.\<close>

lemma update_stores:
  assumes "tasks w (object_key (task_Meta t)) = Some old" "version t = version old"
  shows "life (snd (sh_update_task t w)) k =
      (if k \<noteq> object_key (task_Meta t) then life w k
       else if deleting old \<and> om_Finalizers (task_Meta t) = [] then Absent
       else Present (has_finalizer t) (deleting old) (task_Phase old))"
    and "life (snd (sh_update_status t w)) k =
      (if k \<noteq> object_key (task_Meta old) then life w k
       else Present (has_finalizer old) (deleting old) (task_Phase t))"
  using assms
  by (simp_all add: sh_update_task_def sh_update_status_def Let_def life_def deleting_stamp deleting_def)

lemma update_refused:
  assumes "\<not> (\<exists>old. tasks w (object_key (task_Meta t)) = Some old \<and> version t = version old)"
  shows "snd (sh_update_task t w) = w" "snd (sh_update_status t w) = w"
  using assms by (simp_all add: sh_update_task_def sh_update_status_def Let_def split: option.split)

lemma env_finalizers [simp]:
  "env_ContainsFinalizer (shared_env others) t agentTaskFinalizer = has_finalizer t"
  "env_AddFinalizer (shared_env others) = env_AddFinalizer cluster_env"
  "env_RemoveFinalizer (shared_env others) = env_RemoveFinalizer cluster_env"
  by (simp_all add: shared_env_def cluster_env_def has_finalizer_def Let_def)

lemma finalizer_edits [simp]:
  "has_finalizer (env_AddFinalizer cluster_env t agentTaskFinalizer)"
  "\<not> has_finalizer (env_RemoveFinalizer cluster_env t agentTaskFinalizer)"
  "object_key (task_Meta (env_AddFinalizer cluster_env t f)) = object_key (task_Meta t)"
  "object_key (task_Meta (env_RemoveFinalizer cluster_env t f)) = object_key (task_Meta t)"
  "version (env_AddFinalizer cluster_env t f) = version t"
  "version (env_RemoveFinalizer cluster_env t f) = version t"
  by (auto simp: cluster_env_def has_finalizer_def set_finalizers_def object_key_def)

text \<open>
  What ties the server to the history: the store is well formed and the task that was read is
  known by its version; and, with reads of the store itself, while its status has not been
  written a live task with the finalizer is still stored, with the finalizer and in the phase
  that was read.
\<close>

definition aware :: "shared \<Rightarrow> event list \<Rightarrow> bool" where
  "aware w h \<longleftrightarrow> shared_wf w \<and> (\<forall>t0. fetched h = Some t0 \<longrightarrow> known w t0)"

definition tracked :: "shared \<Rightarrow> event list \<Rightarrow> bool" where
  "tracked w h \<longleftrightarrow> shared_wf w \<and> (\<forall>t0. fetched h = Some t0 \<longrightarrow> known w t0
     \<and> (has_finalizer t0 \<and> \<not> deleting t0 \<and> \<not> list_ex is_status_write (recent h) \<longrightarrow> held w t0))"

lemma tracked_aware: "tracked w h \<Longrightarrow> aware w h"
  by (auto simp: tracked_def aware_def)

lemma tracked_before:
  "\<lbrakk>fair_others others; tracked w h\<rbrakk> \<Longrightarrow> tracked (before_request others e w) h"
  using before_request_keeps unfolding tracked_def by blast

lemma fetched_unless_read:
  "\<not> (\<exists>k r. e = Get_Task k r) \<Longrightarrow> fetched_step e t = t"
  "\<not> (\<exists>k r. e = Get_Task k r) \<Longrightarrow> recent_step e es = es @ [e]"
  by (cases e; simp)+

lemma stored_known:
  "\<lbrakk>shared_wf w; tasks w k = Some t\<rbrakk> \<Longrightarrow> known w t \<and> object_key (task_Meta t) = k"
  by (auto simp: shared_wf_def known_def)

lemma moved_effect: "writes_task e \<Longrightarrow>
   moved (before_request others e w) (effect (shared_env others) e w)"
  by (cases e) (simp_all add: shared_env_def Let_def requests_moved)

lemma effect_moved: "moved (before_request others e w) (effect (shared_env others) e w)"
  using moved_effect moved.nothing [OF effect_elsewhere] by blast

text \<open>A write that succeeds finds the task as it was read.\<close>

lemma update_finds:
  "\<lbrakk>known w t0; object_key (task_Meta t) = object_key (task_Meta t0); version t = version t0;
    tasks w (object_key (task_Meta t)) = Some old; version t = version old\<rbrakk> \<Longrightarrow> old = t0"
  by (simp add: known_def)


text \<open>A write that carries a version, for whatever was read before it.\<close>

fun is_task_deletion :: "event \<Rightarrow> bool" where
  "is_task_deletion (Delete_Task t r) = True"
| "is_task_deletion e = False"

lemma versioned_step_life:
  fixes others
  defines "E \<equiv> shared_env others"
  assumes aware: "aware (before_request others e w) h" and ok: "reconcile_ok E h e"
    and versioned: "\<not> is_task_deletion e"
  shows "control_life\<^sup>=\<^sup>= (life (before_request others e w) k) (life (effect E e w) k)"
proof (cases "writes_task e")
  case False
  then show ?thesis
    using effect_elsewhere(1) [of e others w] by (simp add: E_def life_def)
next
  case True
  let ?w = "meanwhile others w"
  show ?thesis
  proof (cases e)
    case (Update_Task t r)
    with ok obtain t0 where t0: "fetched h = Some t0" and shape:
        "if deleting t0 then has_finalizer t0 \<and> t = env_RemoveFinalizer cluster_env t0 agentTaskFinalizer
         else \<not> has_finalizer t0 \<and> t = env_AddFinalizer cluster_env t0 agentTaskFinalizer"
      by (auto simp: reconcile_ok_def E_def split: if_splits)
    have keys: "object_key (task_Meta t) = object_key (task_Meta t0)" "version t = version t0"
      using shape by (auto split: if_splits)
    have known: "known ?w t0" using aware t0 by (simp add: Update_Task aware_def)
    show ?thesis
    proof (cases "\<exists>old. tasks ?w (object_key (task_Meta t)) = Some old \<and> version t = version old")
      case True
      then have stored: "tasks ?w (object_key (task_Meta t)) = Some t0"
        using update_finds [OF known keys] by blast
      note after = update_stores(1) [OF stored keys(2), of k]
      show ?thesis
      proof (cases "deleting t0")
        case True
        then have "has_finalizer t0" "\<not> has_finalizer t" using shape by auto
        then show ?thesis
          using True after stored keys
          by (auto simp: Update_Task E_def life_simps(2) intro: control_life.intros)
      next
        case False
        then have "\<not> has_finalizer t0" "has_finalizer t" using shape by auto
        then show ?thesis
          using False after stored keys
          by (auto simp: Update_Task E_def life_simps(2) intro: control_life.intros)
      qed
    qed (simp add: Update_Task E_def update_refused)
  next
    case (Update_Status t r)
    with ok obtain t0 where t0: "fetched h = Some t0" "\<not> deleting t0" "has_finalizer t0"
        "task_Meta t = task_Meta t0" "phase_step (task_Phase t0) (task_Phase t)"
      by (auto simp: reconcile_ok_def E_def phase_allowed_def)
    have known: "known ?w t0" using aware t0(1) by (simp add: Update_Status aware_def)
    show ?thesis
    proof (cases "\<exists>old. tasks ?w (object_key (task_Meta t)) = Some old \<and> version t = version old")
      case True
      then have stored: "tasks ?w (object_key (task_Meta t)) = Some t0"
        using update_finds [OF known] t0(4) by metis
      moreover from t0(4) have "version t = version t0" by simp
      ultimately show ?thesis
        using t0 update_stores(2) [OF stored, of k]
        by (auto simp: Update_Status E_def life_simps(2) intro: control_life.intros)
    qed (simp add: Update_Status E_def update_refused)
  qed (use ok True versioned in \<open>simp_all add: reconcile_ok_def\<close>)
qed

lemma control_step_life:
  fixes others
  defines "E \<equiv> shared_env others"
  assumes tracked: "tracked (before_request others e w) h" and ok: "reconcile_ok E h e"
  shows "control_life\<^sup>=\<^sup>= (life (before_request others e w) k) (life (effect E e w) k)"
proof (cases e)
  case (Delete_Task t r)
  let ?w = "meanwhile others w"
    from ok Delete_Task have t: "fetched h = Some t" "\<not> deleting t" "task_Phase t \<in> terminal_phases"
        "has_finalizer t" "\<not> list_ex is_status_write (recent h)"
      by (auto simp: reconcile_ok_def E_def)
    then have "held ?w t" and wf: "shared_wf ?w"
      using tracked by (simp_all add: Delete_Task tracked_def)
    then obtain t' where "tasks ?w (object_key (task_Meta t)) = Some t'" "has_finalizer t'"
        "task_Phase t' = task_Phase t"
      by (auto simp: held_def)
    moreover from this wf have "object_key (task_Meta t') = object_key (task_Meta t)"
      by (simp add: shared_wf_def)
    ultimately show ?thesis
      using t(3) by (auto simp: Delete_Task E_def sh_delete_task_def Let_def life_def
          deleting_stamp deleting_def no_finalizers intro: control_life.intros)
qed (use versioned_step_life [OF tracked_aware [OF tracked]] ok in \<open>simp_all add: E_def\<close>)

lemma tracked_read:
  assumes "shared_wf (meanwhile others w)" and "genuine (shared_env others) (Get_Task k r) w"
  shows "tracked (effect (shared_env others) (Get_Task k r) w) (h @ [Get_Task k r])"
proof -
  let ?w' = "effect (shared_env others) (Get_Task k r) w"
  have same: "tasks ?w' = tasks (meanwhile others w)" "sh_version ?w' = sh_version (meanwhile others w)"
    using effect_elsewhere [of "Get_Task k r" others w] by simp_all
  then have wf: "shared_wf ?w'"
    using assms(1) by (simp add: shared_wf_def old_version_def)
  have "r = store_get (cl_tasks (sh_cluster (meanwhile others w))) k"
    using assms(2) by (auto simp: shared_env_def Let_def on_cluster_def cluster_env_def)
  then have "tasks ?w' k = Some t" if "r = Inr t" for t
    using that same(1) by (simp add: store_get_def split: option.splits)
  then show ?thesis
    using wf stored_known [OF wf] by (cases r) (auto simp: tracked_def held_def)
qed

lemma tracked_step:
  fixes others
  defines "E \<equiv> shared_env others"
  assumes fair: "fair_others others" and tracked: "tracked w h" and ok: "reconcile_ok E h e"
    and gen: "genuine E e w"
  shows "tracked (effect E e w) (h @ [e])"
proof (cases "\<exists>k r. e = Get_Task k r")
  case True
  then show ?thesis
    using tracked_read gen tracked_before [OF fair tracked, of e] by (auto simp: E_def tracked_def)
next
  case False
  let ?v = "before_request others e w"
  have v: "tracked ?v h" by (rule tracked_before [OF fair tracked])
  have moved: "moved ?v (effect E e w)" by (simp add: E_def effect_moved)
  have "held (effect E e w) t0"
    if t0: "fetched h = Some t0" "has_finalizer t0" "\<not> deleting t0"
      "\<not> list_ex is_status_write (recent h @ [e])" for t0
  proof (cases e)
    case (Delete_Task t r)
    have "user_step ?v (effect E e w)"
      using user_step.request_deletion [of ?v t] by (simp add: Delete_Task E_def)
    then show ?thesis
      by (rule user_step_held) (use v t0 in \<open>simp_all add: tracked_def\<close>)
  qed (use ok v t0 effect_elsewhere(1) [of e others w] in
      \<open>simp_all add: reconcile_ok_def E_def tracked_def held_def split: if_splits\<close>)
  then show ?thesis
    using v moved_wf [OF moved] moved_known [OF moved]
    by (auto simp: tracked_def fetched_unless_read [OF False])
qed


subsection \<open>The reconciler implements the life of a task\<close>

text \<open>The server after \<open>i\<close> effects of a worker.\<close>

definition world_at :: "(nat \<Rightarrow> shared \<Rightarrow> shared) \<Rightarrow> NamespacedName list \<Rightarrow> shared \<Rightarrow> nat \<Rightarrow> shared" where
  "world_at others reqs w i =
     replay (shared_env others) (take i (worker_log (shared_env others) reqs w)) w"

lemma world_at_ends:
  "world_at others reqs w 0 = w"
  "world_at others reqs w (length (worker_log (shared_env others) reqs w))
     = worker_world (shared_env others) reqs w"
  by (simp_all add: world_at_def worker_replays)

definition life_round :: "life \<Rightarrow> life \<Rightarrow> bool" where
  "life_round x y \<longleftrightarrow> (\<exists>z. user_life\<^sup>*\<^sup>* x z \<and> control_life\<^sup>=\<^sup>= z y)"

lemma effect_round:
  assumes "fair_others others" "tracked w h" "reconcile_ok (shared_env others) h e"
  shows "life_round (life w k) (life (effect (shared_env others) e w) k)"
proof -
  have "shared_wf w" using assms(2) by (simp add: tracked_def)
  then have "user_life\<^sup>*\<^sup>* (life w k) (life (before_request others e w) k)"
    using before_request_keeps [OF assms(1)] by blast
  then show ?thesis
    using control_step_life [OF tracked_before [OF assms(1,2)] assms(3)]
    unfolding life_round_def by blast
qed

lemma worker_rounds:
  assumes "fair_others others" "shared_wf w" "i < length (worker_log (shared_env others) reqs w)"
  shows "life_round (life (world_at others reqs w i) k) (life (world_at others reqs w (Suc i)) k)"
  unfolding world_at_def
  by (rule replay_steps [where I = tracked and ok = "reconcile_ok (shared_env others)"
        and R = "\<lambda>h e w w'. life_round (life w k) (life w' k)"])
     (use assms worker_log_conforms worker_replays(2) in
        \<open>auto simp: tracked_def [of w "[]"] intro: tracked_step effect_round\<close>)

lemma worker_tracked:
  assumes "fair_others others" "shared_wf w"
  shows "tracked (worker_world (shared_env others) reqs w) (worker_log (shared_env others) reqs w)"
  unfolding worker_replays(1)
  by (rule replay_invariant [where I = tracked and ok = "reconcile_ok (shared_env others)"])
     (use assms worker_log_conforms worker_replays(2) in
        \<open>auto simp: tracked_def [of w "[]"] intro: tracked_step\<close>)

text \<open>When a task with the finalizer disappears, the operator has released its pod before.\<close>

definition released_in :: "event list \<Rightarrow> NamespacedName \<Rightarrow> bool" where
  "released_in h k \<longleftrightarrow> (\<exists>t0. fetched h = Some t0 \<and> object_key (task_Meta t0) = k \<and> deleting t0
     \<and> pod_released t0 (recent h))"

lemma kept_by_users:
  assumes "user_step\<^sup>*\<^sup>* w w'" "shared_wf w" "tasks w k = Some t" "has_finalizer t"
  shows "\<exists>t'. tasks w' k = Some t' \<and> has_finalizer t'"
  using users_keep [OF assms(1,2), of k t] assms(2-4) by (auto simp: held_def shared_wf_def)

lemma kept_before:
  assumes "fair_others others" "shared_wf w" "tasks w k = Some t" "has_finalizer t"
  shows "\<exists>t'. tasks (before_request others e w) k = Some t' \<and> has_finalizer t'"
  using kept_by_users [OF _ assms(2-4)] assms(1,3,4)
  by (cases e) (auto simp: fair_others_def meanwhile_def)

lemma vanishes_released:
  fixes others
  defines "E \<equiv> shared_env others"
  assumes fair: "fair_others others" and tracked: "tracked w h" and ok: "reconcile_ok E h e"
    and t: "tasks w k = Some t" "has_finalizer t" and gone: "tasks (effect E e w) k = None"
  shows "released_in h k"
proof -
  let ?v = "before_request others e w"
  obtain t1 where t1: "tasks ?v k = Some t1" "has_finalizer t1"
    using kept_before [OF fair _ t] tracked by (auto simp: tracked_def)
  show ?thesis
  proof (cases e)
    case (Update_Task u r)
    with ok obtain t0 where t0: "fetched h = Some t0" and shape:
        "if deleting t0 then u = env_RemoveFinalizer cluster_env t0 agentTaskFinalizer \<and> pod_released t0 (recent h)
         else u = env_AddFinalizer cluster_env t0 agentTaskFinalizer"
      by (auto simp: reconcile_ok_def E_def split: if_splits)
    have keys: "object_key (task_Meta u) = object_key (task_Meta t0)"
      using shape by (auto split: if_splits)
    have "k = object_key (task_Meta u)" "deleting t0"
      using gone t1 shape no_finalizers [of "env_AddFinalizer cluster_env t0 agentTaskFinalizer"]
      by (auto simp: Update_Task E_def sh_update_task_def Let_def no_finalizers
          split: option.splits if_splits)
    then show ?thesis
      using t0 shape keys by (auto simp: released_in_def)
  qed (use gone t1 ok effect_elsewhere(1) [of e others w] in
      \<open>auto simp: E_def reconcile_ok_def sh_update_status_def sh_delete_task_def Let_def no_finalizers
        split: option.splits if_splits\<close>)
qed

lemma worker_releases:
  assumes "fair_others others" "shared_wf w" "i < length (worker_log (shared_env others) reqs w)"
    and "tasks (world_at others reqs w i) k = Some t" "has_finalizer t"
    and "tasks (world_at others reqs w (Suc i)) k = None"
  shows "released_in (take i (worker_log (shared_env others) reqs w)) k"
proof -
  have "tasks (world_at others reqs w i) k = Some t \<longrightarrow> tasks (world_at others reqs w (Suc i)) k = None
      \<longrightarrow> released_in (take i (worker_log (shared_env others) reqs w)) k"
    unfolding world_at_def
    by (rule replay_steps [where I = tracked and ok = "reconcile_ok (shared_env others)"
          and R = "\<lambda>h e w w'. tasks w k = Some t \<longrightarrow> tasks w' k = None \<longrightarrow> released_in h k"])
       (use assms(1-3,5) worker_log_conforms worker_replays(2) in
          \<open>auto simp: tracked_def [of w "[]"] intro: tracked_step vanishes_released\<close>)
  with assms(4,6) show ?thesis by blast
qed

text \<open>What the abstract system allows a task that has the finalizer.\<close>

inductive_cases user_life_adoptedE: "user_life (Present True d p) y"
inductive_cases control_life_adoptedE: "control_life (Present True d p) y"

lemma user_life_adopted:
  "user_life\<^sup>*\<^sup>* (Present True d p) y \<Longrightarrow> \<exists>d'. y = Present True d' p \<and> (d \<longrightarrow> d')"
  by (induction rule: rtranclp_induct) (auto elim: user_life_adoptedE)

lemma life_round_adopted:
  "life_round (Present True d p) y \<Longrightarrow>
     (\<exists>d' q. y = Present True d' q \<and> phase_step\<^sup>=\<^sup>= p q \<and> (d \<longrightarrow> d' \<and> q = p))
     \<or> y = Present False True p \<or> y = Absent"
  unfolding life_round_def
  by (auto dest!: user_life_adopted elim!: control_life_adoptedE)

subsection \<open>The properties\<close>

text \<open>C11: Refinement. Whatever users and other actors do between the operator's requests (users keep
  the operator's finalizer and cannot write the status), every request of the operator, for every
  queue of reconciles, takes the life of every task at most one step of the abstract life cycle,
  after steps of the users.
\<close>

theorem reconcile_refines_life:
  assumes "fair_others others" and "shared_wf w"
    and "i < length (worker_log (shared_env others) reqs w)"
  shows "\<exists>z. user_life\<^sup>*\<^sup>* (life (world_at others reqs w i) k) z
     \<and> control_life\<^sup>=\<^sup>= z (life (world_at others reqs w (Suc i)) k)"
  using worker_rounds [OF assms, of k] by (simp add: life_round_def)

text \<open>Optimistic concurrency keeps the store well formed. After any run of the operator,
  interleaved with any other actors, every task is stored under its own name with a version
  older than the next one, so no version is used twice.
\<close>

theorem store_stays_well_formed:
  assumes "fair_others others" and "shared_wf w"
  shows "shared_wf (worker_world (shared_env others) reqs w)"
  using worker_tracked [OF assms] by (simp add: tracked_def)

text \<open>C15: A task with the finalizer cannot be lost. From one request to the next, with any other
  actors in between, a stored task that has the operator's finalizer keeps it, and its phase
  moves along the phase machine or stays (a task already marked for deletion keeps its phase);
  it loses the finalizer only when it is marked, and it disappears only after the operator read
  it as marked and released its pod in the same reconcile.
\<close>

theorem adopted_task_not_lost:
  assumes "fair_others others" and "shared_wf w"
    and "i < length (worker_log (shared_env others) reqs w)"
    and "tasks (world_at others reqs w i) k = Some t" and "has_finalizer t"
  shows "case tasks (world_at others reqs w (Suc i)) k of
       Some t' \<Rightarrow> (has_finalizer t' \<and> phase_step\<^sup>=\<^sup>= (task_Phase t) (task_Phase t')
           \<and> (deleting t \<longrightarrow> deleting t' \<and> task_Phase t' = task_Phase t))
         \<or> (\<not> has_finalizer t' \<and> deleting t' \<and> task_Phase t' = task_Phase t)
     | None \<Rightarrow> released_in (take i (worker_log (shared_env others) reqs w)) k"
  using worker_rounds [OF assms(1-3), of k] worker_releases [OF assms] assms(4,5)
  by (auto simp: life_def dest!: life_round_adopted split: option.splits)


subsection \<open>A user deletes a running task between two requests\<close>

definition sample_shared :: "AgentTask \<Rightarrow> shared" where
  "sample_shared t = \<lparr>sh_cluster = empty_cluster\<lparr>cl_tasks := [(object_key (task_Meta t), stamp 0 None t)]\<rparr>,
     sh_version = 1, sh_ticks = 0\<rparr>"

definition adopted_sample :: AgentTask where
  "adopted_sample = set_finalizers (\<lambda>fs. [agentTaskFinalizer]) sample_task"

definition deleting_user :: "nat \<Rightarrow> shared \<Rightarrow> shared" where
  "deleting_user n w = (if n = 2 then snd (sh_delete_task sample_task w) else w)"

lemma deleting_user_fair: "fair_others deleting_user"
  by (auto simp: fair_others_def deleting_user_def intro: user_step.request_deletion)

lemma sample_shared_wf: "shared_wf (sample_shared t)"
  by (auto simp: shared_wf_def sample_shared_def old_version_def split: if_splits)

abbreviation sample_name :: NamespacedName where
  "sample_name \<equiv> NamespacedName ''default'' ''sum''"

lemma sample_log:
  obtains t r n where "worker_log (shared_env deleting_user) [sample_name] (sample_shared adopted_sample)
     = [Get_Task sample_name (Inr t), Read_Clock n, Update_Status r (Inl conflict)]"
  by (simp add: worker_log_def Reconcile_def reconcileActive_def request_defs call_def start_def
      shared_env_def on_cluster_def cluster_env_def meanwhile_def deleting_user_def sample_shared_def
      adopted_sample_def sample_task_def Let_def store_get_def object_key_def empty_meta_def stamp_def
      set_finalizers_def time_is_zero_def empty_status_def set_status_def sh_update_status_def
      sh_delete_task_def put_def deleting_def empty_cluster_def)

lemma sample_replay:
  "tasks (replay (shared_env deleting_user) [Get_Task k r, Read_Clock n] (sample_shared adopted_sample))
     = [sample_name \<mapsto> stamp 0 None adopted_sample]"
  by (simp add: shared_env_def on_cluster_def cluster_env_def meanwhile_def deleting_user_def
      sample_shared_def adopted_sample_def sample_task_def set_finalizers_def object_key_def
      empty_meta_def Let_def)

lemma adopted_sample_facts: "has_finalizer adopted_sample" "\<not> deleting adopted_sample"
  by (simp_all add: adopted_sample_def set_finalizers_def has_finalizer_def deleting_def
      sample_task_def empty_meta_def time_is_zero_def)

text \<open>The task the user deleted keeps the finalizer and its phase: the status write is refused.\<close>

lemma reconcile_refines_life_witness:
  "\<exists>x y z. x = life (world_at deleting_user [sample_name] (sample_shared adopted_sample) 2) sample_name
     \<and> y = life (world_at deleting_user [sample_name] (sample_shared adopted_sample) 3) sample_name
     \<and> user_life\<^sup>*\<^sup>* x z \<and> control_life\<^sup>=\<^sup>= z y"
proof (rule sample_log)
  fix t r n
  assume "worker_log (shared_env deleting_user) [sample_name] (sample_shared adopted_sample)
     = [Get_Task sample_name (Inr t), Read_Clock n, Update_Status r (Inl conflict)]"
  then show ?thesis
    using reconcile_refines_life [OF deleting_user_fair sample_shared_wf [of adopted_sample],
        of 2 "[sample_name]" sample_name]
    by (simp add: numeral_3_eq_3 numeral_2_eq_2)
qed

lemma store_stays_well_formed_witness:
  "shared_wf (worker_world (shared_env deleting_user) [sample_name, sample_name] (sample_shared adopted_sample))"
  by (rule store_stays_well_formed [OF deleting_user_fair sample_shared_wf])

lemma adopted_task_not_lost_witness:
  "case tasks (world_at deleting_user [sample_name] (sample_shared adopted_sample) 3) sample_name of
       Some t' \<Rightarrow> (has_finalizer t' \<and> phase_step\<^sup>=\<^sup>= '''' (task_Phase t'))
         \<or> (\<not> has_finalizer t' \<and> deleting t' \<and> task_Phase t' = '''')
     | None \<Rightarrow> released_in (take 2 (worker_log (shared_env deleting_user) [sample_name]
         (sample_shared adopted_sample))) sample_name"
proof (rule sample_log)
  fix t r n
  assume log: "worker_log (shared_env deleting_user) [sample_name] (sample_shared adopted_sample)
     = [Get_Task sample_name (Inr t), Read_Clock n, Update_Status r (Inl conflict)]"
  then have "tasks (world_at deleting_user [sample_name] (sample_shared adopted_sample) 2) sample_name
     = Some (stamp 0 None adopted_sample)"
    unfolding world_at_def log by (simp add: numeral_2_eq_2 sample_replay del: replay.simps)
  moreover have "task_Phase adopted_sample = ''''"
    by (simp add: adopted_sample_def set_finalizers_def sample_task_def empty_status_def)
  ultimately show ?thesis
    using adopted_task_not_lost [OF deleting_user_fair sample_shared_wf [of adopted_sample],
        of 2 "[sample_name]" sample_name "stamp 0 None adopted_sample"] log adopted_sample_facts(1)
    by (auto simp: numeral_3_eq_3 numeral_2_eq_2 split: option.splits)
qed

end
