(* ===== verification/CachedReads.thy ===== *)
theory CachedReads
  imports Refinement Lifecycle
begin

text \<open>
  Reads from a cache and actors without discipline. The client of controller-runtime reads tasks
  from a cache that lags behind the API server, and others than well-behaved users may act:
  another replica of the operator, or a user who removes finalizers by force. Here a task read
  may return any version the server ever stored and the other actors may do whatever the server's
  versioning lets them do. Every write of the operator that carries a version still moves the
  life of a task along the abstract life cycle; the one request without a version, the
  deletion of an expired task, does not.
\<close>

text \<open>The cache: what a read returns, given the number of requests so far, the name and the
  server. A copy in it is older than the next version, and is the stored task if it has the
  version of the stored task.\<close>

type_synonym cache = "nat \<Rightarrow> NamespacedName \<Rightarrow> shared \<Rightarrow> gerror + AgentTask"

definition faithful_cache :: "cache \<Rightarrow> bool" where
  "faithful_cache cache \<longleftrightarrow> (\<forall>n k w t. shared_wf w \<longrightarrow> cache n k w = Inr t \<longrightarrow> known w t)"

text \<open>Other actors bound by the versioning of the server only; every request is such a step.\<close>

definition api_others :: "(nat \<Rightarrow> shared \<Rightarrow> shared) \<Rightarrow> bool" where
  "api_others others \<longleftrightarrow> (\<forall>n w. moved\<^sup>*\<^sup>* w (others n w))"

definition cached_env :: "(nat \<Rightarrow> shared \<Rightarrow> shared) \<Rightarrow> cache \<Rightarrow> shared env" where
  "cached_env others cache = (shared_env others)\<lparr>env_GetTask :=
     (\<lambda>k w. (cache (sh_ticks w) k (meanwhile others w), meanwhile others w))\<rparr>"

text \<open>The server after \<open>i\<close> effects of a worker that reads from the cache.\<close>

definition cached_at ::
  "(nat \<Rightarrow> shared \<Rightarrow> shared) \<Rightarrow> cache \<Rightarrow> NamespacedName list \<Rightarrow> shared \<Rightarrow> nat \<Rightarrow> shared" where
  "cached_at others cache reqs w i =
     replay (cached_env others cache) (take i (worker_log (cached_env others cache) reqs w)) w"

lemma fair_api: "fair_others others \<Longrightarrow> api_others others"
  unfolding fair_others_def api_others_def
  using rtranclp_mono [of user_step moved] user_step_moved by blast

lemma cached_fields [simp]:
  "env_ContainsFinalizer (cached_env others cache) = env_ContainsFinalizer (shared_env others)"
  "env_AddFinalizer (cached_env others cache) = env_AddFinalizer (shared_env others)"
  "env_RemoveFinalizer (cached_env others cache) = env_RemoveFinalizer (shared_env others)"
  "env_NewControllerRef (cached_env others cache) = env_NewControllerRef (shared_env others)"
  by (simp_all add: cached_env_def)

lemma cached_policy: "reconcile_ok (cached_env others cache) h e = reconcile_ok (shared_env others) h e"
  by (cases e) (simp_all add: reconcile_ok_def owned_by_def task_owner_def)

lemma effect_cached: "effect (cached_env others cache) e w = effect (shared_env others) e w"
  by (cases e) (simp_all add: cached_env_def shared_env_def on_cluster_def cluster_env_def Let_def)

text \<open>A run of another replica of the operator, itself reading from a cache and with other actors in
  between, is a sequence of such steps, so replicas are among the actors allowed here.\<close>

lemma effect_moves:
  assumes "api_others others"
  shows "moved\<^sup>*\<^sup>* w (effect (cached_env others cache) e w)"
proof -
  have "moved\<^sup>*\<^sup>* w (meanwhile others w)"
    using assms moved.nothing [of "meanwhile others w" "others (sh_ticks w) w"]
    by (auto simp: api_others_def meanwhile_def intro: rtranclp.rtrancl_into_rtrancl)
  then have "moved\<^sup>*\<^sup>* w (before_request others e w)"
    by (cases e) simp_all
  then show ?thesis
    unfolding effect_cached using effect_moved by (rule rtranclp.rtrancl_into_rtrancl)
qed

lemma replay_moves: "api_others others \<Longrightarrow> moved\<^sup>*\<^sup>* w (replay (cached_env others cache) es w)"
proof (induction es arbitrary: w)
  case (Cons e es)
  then show ?case using effect_moves rtranclp_trans by fastforce
qed simp

lemma replica_api:
  "api_others others \<Longrightarrow> api_others (\<lambda>n. worker_world (cached_env others cache) (reqs n))"
  unfolding worker_replays(1)
  by (subst api_others_def) (blast intro: replay_moves)

lemma moves_keep:
  assumes "moved\<^sup>*\<^sup>* w w'" "shared_wf w"
  shows "shared_wf w' \<and> (known w t0 \<longrightarrow> known w' t0)"
  using assms
  by (induction rule: rtranclp_induct) (auto dest: moved_wf moved_known)

lemma aware_cong:
  "\<lbrakk>tasks w' = tasks w; sh_version w' = sh_version w\<rbrakk> \<Longrightarrow> aware w' h = aware w h"
  by (simp add: aware_def shared_wf_def known_def old_version_def)

lemma aware_before:
  assumes "api_others others" "aware w h"
  shows "aware (before_request others e w) h"
proof -
  let ?v = "others (sh_ticks w) w"
  have "moved\<^sup>*\<^sup>* w ?v" using assms(1) by (simp add: api_others_def)
  then have "aware ?v h"
    using moves_keep assms(2) unfolding aware_def by blast
  then have "aware (meanwhile others w) h"
    by (subst aware_cong [of _ ?v]) (simp_all add: meanwhile_def)
  then show ?thesis using assms(2) by (cases e) simp_all
qed

lemma aware_step:
  fixes others cache
  defines "E \<equiv> cached_env others cache"
  assumes api: "api_others others" and cache: "faithful_cache cache" and aware: "aware w h"
    and gen: "genuine E e w"
  shows "aware (effect E e w) (h @ [e])"
proof (cases "\<exists>k r. e = Get_Task k r")
  case True
  then obtain k r where e: "e = Get_Task k r" by blast
  have "aware (meanwhile others w) h"
    using aware_before [OF api aware, of e] by (simp add: e)
  moreover from gen have "cache (sh_ticks w) k (meanwhile others w) = r"
    by (simp add: e E_def cached_env_def)
  moreover from this have "known (meanwhile others w) t" if "r = Inr t" for t
    using cache that \<open>aware (meanwhile others w) h\<close> unfolding faithful_cache_def aware_def by blast
  ultimately show ?thesis
    by (cases r) (simp_all add: e E_def cached_env_def aware_def)
next
  case False
  have "aware (before_request others e w) h" by (rule aware_before [OF api aware])
  then show ?thesis
    using effect_moved [of others e w] moved_wf moved_known
    by (auto simp: aware_def fetched_unless_read [OF False] E_def effect_cached)
qed

lemma cached_rounds:
  fixes others cache reqs w
  defines "log \<equiv> worker_log (cached_env others cache) reqs w"
  assumes api: "api_others others" and cache: "faithful_cache cache" and "shared_wf w" "i < length log"
  shows "\<not> is_task_deletion (log ! i) \<longrightarrow>
    control_life\<^sup>=\<^sup>= (life (before_request others (log ! i) (cached_at others cache reqs w i)) k)
      (life (cached_at others cache reqs w (Suc i)) k)"
  unfolding cached_at_def log_def [symmetric]
proof (rule replay_steps [where I = aware and ok = "reconcile_ok (cached_env others cache)"
      and R = "\<lambda>h e w w'. \<not> is_task_deletion e \<longrightarrow>
        control_life\<^sup>=\<^sup>= (life (before_request others e w) k) (life w' k)"])
  fix w h e
  assume "aware w h" "reconcile_ok (cached_env others cache) h e" "genuine (cached_env others cache) e w"
  then show "aware (effect (cached_env others cache) e w) (h @ [e])"
    by (intro aware_step [OF api cache])
  show "\<not> is_task_deletion e \<longrightarrow> control_life\<^sup>=\<^sup>= (life (before_request others e w) k)
      (life (effect (cached_env others cache) e w) k)"
    using \<open>aware w h\<close> \<open>reconcile_ok (cached_env others cache) h e\<close>
    unfolding effect_cached cached_policy
    by (intro impI versioned_step_life aware_before [OF api])
qed (use assms worker_log_conforms worker_replays(2) in \<open>simp_all add: aware_def log_def\<close>)

text \<open>C14: Stale reads are harmless. Whatever copies of tasks the cache returns and whatever other
  actors do through the API server, among them other replicas of the operator, every
  request of the operator but the deletion of an expired task takes the life of every task at
  most one step of the abstract life cycle from where the request finds it: a write based on an
  outdated copy is refused.\<close>

theorem stale_reads_harmless:
  assumes "api_others others" and "faithful_cache cache" and "shared_wf w"
    and "i < length (worker_log (cached_env others cache) reqs w)"
    and "\<not> is_task_deletion (worker_log (cached_env others cache) reqs w ! i)"
  shows "control_life\<^sup>=\<^sup>=
      (life (before_request others (worker_log (cached_env others cache) reqs w ! i)
        (cached_at others cache reqs w i)) k)
      (life (cached_at others cache reqs w (Suc i)) k)"
  using cached_rounds [OF assms(1-4)] assms(5) by blast


subsection \<open>A status write based on an outdated copy\<close>

definition outdated :: AgentTask where
  "outdated = stamp 0 None adopted_sample"

definition outdated_cache :: cache where
  "outdated_cache n k w = (if known w outdated then Inr outdated else Inl not_found)"

definition progressed :: shared where
  "progressed = \<lparr>sh_cluster = empty_cluster\<lparr>cl_tasks := [(sample_name, stamp 1 None
     (set_Phase AgentTaskPhasePending adopted_sample))]\<rparr>, sh_version = 2, sh_ticks = 0\<rparr>"

lemma adopted_sample_key: "object_key (task_Meta adopted_sample) = sample_name"
  by (simp add: adopted_sample_def set_finalizers_def object_key_def)

lemma progressed_facts:
  "api_others no_others" "faithful_cache outdated_cache" "shared_wf progressed"
proof -
  show "api_others no_others" by (simp add: api_others_def no_others_def)
  show "faithful_cache outdated_cache" by (auto simp: faithful_cache_def outdated_cache_def split: if_splits)
  show "shared_wf progressed"
    by (auto simp: shared_wf_def progressed_def old_version_def adopted_sample_key split: if_splits)
qed

lemma outdated_known: "known (progressed\<lparr>sh_ticks := n\<rparr>) outdated"
  by (auto simp: known_def old_version_def progressed_def outdated_def split: if_splits)

lemma outdated_facts:
  "task_Phase outdated = ''''" "has_finalizer outdated" "\<not> deleting outdated"
  "object_key (task_Meta outdated) = sample_name" "version outdated = show_nat 0"
  "om_DeletionTimestamp (task_Meta outdated) = None"
  by (simp_all add: outdated_def adopted_sample_key adopted_sample_facts deleting_def time_is_zero_def)
     (simp add: adopted_sample_def set_finalizers_def sample_task_def empty_status_def)

lemma outdated_log:
  obtains n r where "worker_log (cached_env no_others outdated_cache) [sample_name] progressed
     = [Get_Task sample_name (Inr outdated), Read_Clock n, Update_Status r (Inl conflict)]"
proof -
  let ?E = "cached_env no_others outdated_cache" and ?w = "progressed\<lparr>sh_ticks := Suc 0\<rparr>"
  have read: "env_GetTask ?E k progressed = (Inr outdated, ?w)" for k
    using outdated_known [of "Suc 0"]
    by (simp add: cached_env_def outdated_cache_def meanwhile_def no_others_def progressed_def)
  have clock: "\<exists>n. env_Now ?E ?w = (n, ?w\<lparr>sh_ticks := Suc (Suc 0)\<rparr>)"
    by (simp add: cached_env_def shared_env_def on_cluster_def cluster_env_def Let_def meanwhile_def no_others_def)
  have refused: "env_UpdateTaskStatus ?E (set_status f outdated) (progressed\<lparr>sh_ticks := n\<rparr>)
      = (Inl conflict, progressed\<lparr>sh_ticks := Suc n\<rparr>)" for f n
    by (simp add: cached_env_def meanwhile_def no_others_def sh_update_status_def Let_def
        outdated_facts progressed_def)
  from clock obtain n where "env_Now ?E ?w = (n, ?w\<lparr>sh_ticks := Suc (Suc 0)\<rparr>)" by blast
  note now = this
  show ?thesis
    by (rule that)
       (simp add: worker_log_def Reconcile_def reconcileActive_def request_defs call_def start_def read
          now refused outdated_facts time_is_zero_def)
qed

lemma stale_reads_harmless_witness:
  "control_life\<^sup>=\<^sup>=
      (life (meanwhile no_others (cached_at no_others outdated_cache [sample_name] progressed 2)) sample_name)
      (life (cached_at no_others outdated_cache [sample_name] progressed 3) sample_name)"
proof (rule outdated_log)
  fix n r
  assume "worker_log (cached_env no_others outdated_cache) [sample_name] progressed
     = [Get_Task sample_name (Inr outdated), Read_Clock n, Update_Status r (Inl conflict)]"
  then show ?thesis
    using stale_reads_harmless [OF progressed_facts, of 2 "[sample_name]" sample_name]
    by (simp add: numeral_3_eq_3 numeral_2_eq_2)
qed


subsection \<open>The deletion of an expired task carries no version\<close>

text \<open>A user who, before the fourth request of the operator, removes the finalizers of a task by
  force, deletes it and creates it anew under the same name.\<close>

definition recreate :: "AgentTask \<Rightarrow> shared \<Rightarrow> shared" where
  "recreate t w = snd (sh_create_task sample_task (snd (sh_delete_task t
     (snd (sh_update_task (set_finalizers (\<lambda>_. []) t) w)))))"

definition impatient_user :: "nat \<Rightarrow> shared \<Rightarrow> shared" where
  "impatient_user n w = (if n = 3 then
     (case tasks w sample_name of None \<Rightarrow> w | Some t \<Rightarrow> recreate t w) else w)"

definition finished :: AgentTask where
  "finished = stamp 0 None (sample_at AgentTaskPhaseSucceeded)"

definition expired_world :: shared where
  "expired_world = \<lparr>sh_cluster = empty_cluster\<lparr>cl_tasks := [(sample_name, finished)],
     cl_now := 20000000000\<rparr>, sh_version = 1, sh_ticks = 0\<rparr>"

lemma impatient_user_api: "api_others impatient_user"
proof -
  have "moved\<^sup>*\<^sup>* w (recreate t w)" for t w
    unfolding recreate_def
    by (meson requests_moved rtranclp.rtrancl_refl rtranclp.rtrancl_into_rtrancl)
  then show ?thesis
    by (auto simp: api_others_def impatient_user_def split: option.split)
qed

lemma finished_facts:
  "task_Phase finished = AgentTaskPhaseSucceeded" "has_finalizer finished" "\<not> deleting finished"
  "object_key (task_Meta finished) = sample_name" "version finished = show_nat 0"
  "om_DeletionTimestamp (task_Meta finished) = None"
  "\<not> spec_Canceled (task_Spec finished)" "spec_TimeoutSeconds (task_Spec finished) = 60"
  "spec_TTLSecondsAfterFinished (task_Spec finished) = Some 10"
  "status_StartTime (task_Status finished) = Some 0"
  "status_CompletionTime (task_Status finished) = Some 0"
  by (simp_all add: finished_def has_finalizer_def deleting_def time_is_zero_def
        sample_key_def [symmetric])
     (simp_all add: sample_at_def sample_task_def)

lemma recreate_expired:
  "\<exists>t. tasks (recreate finished (expired_world\<lparr>sh_ticks := n\<rparr>)) sample_name = Some t
     \<and> om_Finalizers (task_Meta t) = [] \<and> \<not> deleting t \<and> task_Phase t = ''''"
proof -
  let ?w = "expired_world\<lparr>sh_ticks := n\<rparr>"
  let ?w1 = "snd (sh_update_task (set_finalizers (\<lambda>_. []) finished) ?w)"
  let ?w2 = "snd (sh_delete_task finished ?w1)"
  have stored: "tasks ?w sample_name = Some finished" by (simp add: expired_world_def)
  have edited: "object_key (task_Meta (set_finalizers f finished)) = sample_name"
      "version (set_finalizers f finished) = version finished" for f
    by (simp_all add: set_finalizers_def object_key_def finished_facts(4) [unfolded object_key_def])
  have "\<exists>t1. tasks ?w1 sample_name = Some t1 \<and> om_Finalizers (task_Meta t1) = []"
    using stored finished_facts(3)
    by (simp add: sh_update_task_def Let_def edited del: ticks_simps) (simp add: set_finalizers_def)
  then have none: "tasks ?w2 sample_name = None"
    by (auto simp: sh_delete_task_def Let_def finished_facts)
  have "object_key (task_Meta (created_task c sample_task)) = sample_name"
      "om_Finalizers (task_Meta (created_task c sample_task)) = []" for c
    by (simp_all add: created_task_def generated_name_def sample_task_def object_key_def empty_meta_def)
  then show ?thesis
    using none by (simp add: recreate_def sh_create_task_def Let_def deleting_def time_is_zero_def
        empty_status_def)
qed

lemma expiry_effect:
  obtains t w' where "tasks (meanwhile impatient_user (expired_world\<lparr>sh_ticks := 3\<rparr>)) sample_name = Some t"
    "\<not> has_finalizer t" "\<not> deleting t" "task_Phase t = ''''"
    "env_DeleteTask (shared_env impatient_user) finished (expired_world\<lparr>sh_ticks := 3\<rparr>) = (None, w')"
    "tasks w' sample_name = None"
proof -
  have "tasks (meanwhile impatient_user (expired_world\<lparr>sh_ticks := 3\<rparr>))
      = tasks (recreate finished (expired_world\<lparr>sh_ticks := 3\<rparr>))"
    by (simp add: meanwhile_def impatient_user_def) (simp add: expired_world_def)
  with recreate_expired [of 3] obtain t where
    t: "tasks (meanwhile impatient_user (expired_world\<lparr>sh_ticks := 3\<rparr>)) sample_name = Some t"
      "om_Finalizers (task_Meta t) = []" "\<not> deleting t" "task_Phase t = ''''"
    by auto
  show ?thesis
    by (rule that [OF t(1) no_finalizers [OF t(2)] t(3,4)])
       (simp add: sh_delete_task_def Let_def finished_facts t, simp)
qed

lemma expiry_read: "env_GetTask (shared_env impatient_user) sample_name expired_world = (Inr finished, expired_world\<lparr>sh_ticks := Suc 0\<rparr>)"
  by (simp add: shared_env_def Let_def on_cluster_def cluster_env_def meanwhile_def
        impatient_user_def expired_world_def store_get_def)

lemma expiry_clock: "n < 3 \<Longrightarrow> env_Now (shared_env impatient_user) (expired_world\<lparr>sh_ticks := n\<rparr>) = (20000000000, expired_world\<lparr>sh_ticks := Suc n\<rparr>)"
  by (simp add: shared_env_def Let_def on_cluster_def cluster_env_def meanwhile_def
        impatient_user_def expired_world_def)

lemma expiry_run:
  "worker_log (shared_env impatient_user) [sample_name] expired_world =
     [Get_Task sample_name (Inr finished), Read_Clock 20000000000, Read_Clock 20000000000,
      Delete_Task finished None]"
proof -
  let ?E = "shared_env impatient_user" and ?w = "\<lambda>n. expired_world\<lparr>sh_ticks := n\<rparr>"
  obtain w' where gone: "env_DeleteTask ?E finished (?w 3) = (None, w')"
    by (rule expiry_effect)
  have times: "\<not> time_after 20000000000 (time_add 0 (duration_of_int32 60 * Second + 2 * Second))"
      "time_after 20000000000 (time_add 0 (duration_of_int32 10 * Second))"
    by (simp_all add: time_after_def time_add_def duration_of_int32_def Second_def)
  show ?thesis
    using gone [unfolded numeral_3_eq_3] times
    by (simp add: worker_log_def Reconcile_def reconcileActive_def reconcilePhase_def
        reconcileFinished_def checkTimeout_def request_defs call_def start_def expiry_read expiry_clock
        finished_facts time_is_zero_def Let_def)
qed

text \<open>The deletion of an expired task is not protected: when a task with the same name has been
  created anew between the read and the deletion, the operator deletes the new task, which it
  has neither adopted nor run. The request carries neither the version nor the identity of the
  task that was read.\<close>

theorem expiry_deletes_recreated_task:
  "\<exists>others w. api_others others \<and> shared_wf w
     \<and> worker_log (shared_env others) [sample_name] w ! 3 = Delete_Task finished None
     \<and> life (meanwhile others (world_at others [sample_name] w 3)) sample_name = Present False False ''''
     \<and> life (world_at others [sample_name] w 4) sample_name = Absent"
proof (rule expiry_effect)
  fix t w'
  assume t: "tasks (meanwhile impatient_user (expired_world\<lparr>sh_ticks := 3\<rparr>)) sample_name = Some t"
    "\<not> has_finalizer t" "\<not> deleting t" "task_Phase t = ''''"
    and w': "env_DeleteTask (shared_env impatient_user) finished (expired_world\<lparr>sh_ticks := 3\<rparr>) = (None, w')"
    "tasks w' sample_name = None"
  have at3: "world_at impatient_user [sample_name] expired_world 3 = expired_world\<lparr>sh_ticks := 3\<rparr>"
    unfolding world_at_def expiry_run
    by (simp add: numeral_3_eq_3 expiry_clock expiry_read)
  have at4: "world_at impatient_user [sample_name] expired_world 4 = w'"
    using w'(1) at3 unfolding world_at_def expiry_run
    by (simp add: eval_nat_numeral)
  have "shared_wf expired_world"
    by (auto simp: shared_wf_def expired_world_def old_version_def finished_facts split: if_splits)
  then show ?thesis
    using impatient_user_api t w'(2) at3 at4 expiry_run
    by (intro exI [of _ impatient_user] exI [of _ expired_world])
       (simp add: life_simps)
qed

end
