(* ===== verification/Requeue.thy ===== *)
theory Requeue
  imports Lifecycle
begin

text \<open>
  The retry loop. The work queue of controller-runtime serves a request again at once when a
  reconcile returns an error or asks to be requeued. On a quiescent API server this loop ends for
  every task: no reconcile fails there, and only a new or pending task is requeued.
\<close>

partial_function (option) settle :: "'w env \<Rightarrow> NamespacedName \<Rightarrow> 'w \<Rightarrow> 'w option" where
  "settle E k w = (case run_state (Reconcile E k) (start w) of (r, s) \<Rightarrow>
     if snd r \<noteq> None \<or> res_Requeue (fst r) then settle E k (st_world s) else Some (st_world s))"

text \<open>A reconcile that needs no retry, and one that asks for another round.\<close>

definition answers :: "(reconcile_result \<Rightarrow> cluster \<Rightarrow> bool) \<Rightarrow> cluster \<Rightarrow> NamespacedName \<Rightarrow> bool" where
  "answers Q w k \<longleftrightarrow> wp (Reconcile cluster_env k) (\<lambda>r s. Q r (st_world s)) (start w)"

definition calm :: "reconcile_result \<Rightarrow> bool" where
  "calm r \<longleftrightarrow> snd r = None \<and> \<not> res_Requeue (fst r)"

lemma settle_calm: "answers (\<lambda>r w'. calm r) w k \<Longrightarrow> settle cluster_env k w = Some (after w k)"
  by (subst settle.simps) (auto simp: answers_def calm_def wp_def after_def split: prod.splits)

lemma settle_again:
  "answers (\<lambda>r w'. calm r \<or> Q w') w k \<Longrightarrow>
     settle cluster_env k w = Some (after w k)
   \<or> Q (after w k) \<and> settle cluster_env k w = settle cluster_env k (after w k)"
  by (subst (1 2) settle.simps) (auto simp: answers_def calm_def wp_def after_def split: prod.splits)

subsection \<open>No handler fails\<close>

text \<open>The task is stored, with the finalizer, in a phase of some kind; in one that is never
  requeued.\<close>

definition reached :: "(string \<Rightarrow> bool) \<Rightarrow> NamespacedName \<Rightarrow> cluster \<Rightarrow> bool" where
  "reached P k w \<longleftrightarrow> (\<exists>t. adopted w k t \<and> P (task_Phase t))"

definition beyond_pending :: "string \<Rightarrow> bool" where
  "beyond_pending p \<longleftrightarrow> p \<notin> {'''', AgentTaskPhasePending}"

abbreviation past :: "NamespacedName \<Rightarrow> cluster \<Rightarrow> bool" where
  "past \<equiv> reached beyond_pending"

text \<open>The handler of a stored task: it returns no error and leaves the task in such a phase.\<close>

definition handled :: "(string \<Rightarrow> bool) \<Rightarrow> NamespacedName \<Rightarrow> gerror option \<Rightarrow> cluster st \<Rightarrow> bool" where
  "handled P k r s \<longleftrightarrow> r = None \<and> reached P k (st_world s)"

abbreviation handled_past :: "NamespacedName \<Rightarrow> gerror option \<Rightarrow> cluster st \<Rightarrow> bool" where
  "handled_past \<equiv> handled beyond_pending"

lemma beyond_pending_simps [simp]:
  "beyond_pending AgentTaskPhaseScheduled" "beyond_pending AgentTaskPhaseRunning"
  "beyond_pending AgentTaskPhaseSucceeded" "beyond_pending AgentTaskPhaseFailed"
  by (simp_all add: beyond_pending_def)

lemma adopted_status:
  "adopted w k t \<Longrightarrow> adopted (w\<lparr>cl_tasks := AList.update k (t\<lparr>task_Status := st\<rparr>) (cl_tasks w)\<rparr>) k
     (t\<lparr>task_Status := st\<rparr>)"
  by (rule adopted_update) (auto simp: adopted_def dest: cluster_wfD(1))

lemma adopted_pods:
  "\<lbrakk>adopted w k t; stored_under_key pod_Meta m\<rbrakk> \<Longrightarrow> adopted (w\<lparr>cl_pods := m\<rparr>) k t"
  by (auto simp: adopted_def cluster_wf_def)

lemma past_status:
  "\<lbrakk>adopted w k t; P (status_Phase st)\<rbrakk> \<Longrightarrow>
   reached P k (w\<lparr>cl_tasks := AList.update k (t\<lparr>task_Status := st\<rparr>) (cl_tasks w)\<rparr>)"
  unfolding reached_def by (rule exI, rule conjI, erule adopted_status) simp

lemma stored_under_key_delete:
  "stored_under_key f m \<Longrightarrow> stored_under_key f (AList.delete k m)"
  by (simp add: stored_under_key_def)

lemma past_delete_pod:
  "reached P k w \<Longrightarrow> reached P k (w\<lparr>cl_pods := AList.delete q (cl_pods w)\<rparr>)"
  by (auto simp: reached_def cluster_wf_def stored_under_key_delete adopted_def)

lemma adopted_key: "adopted w k t \<Longrightarrow> object_key (task_Meta t) = k"
  by (auto simp: adopted_def dest: cluster_wfD(1))

lemma status_write:
  "\<lbrakk>adopted w k t; task_Meta t' = task_Meta t\<rbrakk> \<Longrightarrow> cl_update_status t' w =
     (Inr (t\<lparr>task_Status := stored_status (task_Status t')\<rparr>),
      w\<lparr>cl_tasks := AList.update k (t\<lparr>task_Status := stored_status (task_Status t')\<rparr>) (cl_tasks w)\<rparr>)"
  using cl_update_status_found [of t' k w t] adopted_key [of w k t] by (simp add: adopted_def)

lemma stored_status_fields [simp]:
  "status_Phase (stored_status st) = status_Phase st"
  "status_StartTime (stored_status st) = map_option whole_seconds (status_StartTime st)"
  "status_CompletionTime (stored_status st) = map_option whole_seconds (status_CompletionTime st)"
  by (simp_all add: stored_status_def)

lemma updatePhaseFailure_handled:
  "\<lbrakk>adopted (st_world s) k t; P AgentTaskPhaseFailed\<rbrakk> \<Longrightarrow>
   wp (updatePhaseFailure cluster_env t reason msg) (handled P k) s"
  unfolding updatePhaseFailure_def Let_def
  by (auto simp: wp_simps handled_def update_error_def status_write [of _ k t] past_status
      split: option.split)

lemma pod_removed:
  "\<lbrakk>cluster_wf w; map_of (cl_pods w) q = Some p\<rbrakk> \<Longrightarrow>
   cl_delete_pod p (w\<lparr>cl_tasks := m\<rparr>) = (None, w\<lparr>cl_tasks := m, cl_pods := AList.delete q (cl_pods w)\<rparr>)"
  by (simp add: cl_delete_pod_def store_delete_def cluster_wfD)

lemma past_written:
  assumes "adopted w k t" "P (status_Phase st)"
  shows "reached P k (w\<lparr>cl_tasks := AList.update k (t\<lparr>task_Status := st\<rparr>) (cl_tasks w),
    cl_pods := AList.delete q (cl_pods w)\<rparr>)"
  using past_delete_pod [where P = P, OF past_status [where P = P, OF assms], of q] by simp

lemma handlePod_handled:
  assumes "adopted (st_world s) k t" "map_of (cl_pods (st_world s)) q = Some p"
  shows "P AgentTaskPhaseSucceeded \<Longrightarrow> wp (handlePodSuccess cluster_env t p) (handled P k) s"
    and "P AgentTaskPhaseFailed \<Longrightarrow> wp (handlePodFailure cluster_env t p) (handled P k) s"
proof -
  have wf: "cluster_wf (st_world s)" using assms(1) by (simp add: adopted_def)
  show "wp (handlePodSuccess cluster_env t p) (handled P k) s" if "P AgentTaskPhaseSucceeded"
    unfolding handlePodSuccess_def Let_def
    using assms wf that by (auto simp: wp_simps handled_def status_write [of _ k t] pod_removed [of _ q]
        past_written split: option.split)
  show "wp (handlePodFailure cluster_env t p) (handled P k) s" if "P AgentTaskPhaseFailed"
    unfolding handlePodFailure_def Let_def
    using assms wf that by (auto simp: wp_simps handled_def status_write [of _ k t] pod_removed [of _ q]
        past_written split: option.split)
qed

lemma past_self: "\<lbrakk>adopted w k t; task_Phase t \<notin> {'''', AgentTaskPhasePending}\<rbrakk> \<Longrightarrow> past k w"
  by (auto simp: reached_def beyond_pending_def)

lemma handlers_handled:
  assumes "adopted (st_world s) k t" "task_Phase t \<notin> {'''', AgentTaskPhasePending}"
  shows "wp (reconcileScheduled cluster_env t) (handled_past k) s"
    and "wp (reconcileRunning cluster_env t) (handled_past k) s"
  using assms past_self [OF assms]
  by (auto simp: reconcileScheduled_def reconcileRunning_def wp_simps store_get_def not_found_def
      status_write [of _ k t] update_error_def handled_def past_status
      intro: updatePhaseFailure_handled handlePod_handled split: option.split)

text \<open>Pending: dispatched, or failed.\<close>

lemma EnsureSandbox_cluster:
  "adopted (st_world s) k t \<Longrightarrow> wp (EnsureSandbox cluster_env t c img)
     (\<lambda>r s'. (\<exists>ref. r = Inr ref) \<and> adopted (st_world s') k t) s"
  by (auto simp: EnsureSandbox_def wp_simps Let_def store_get_def cl_create_sandbox_def adopted_def
      store_create_def cluster_wf_def IgnoreNotFound_def task_sandbox_def object_key_def
      split: option.splits prod.splits)

lemma kept_adopted:
  "\<lbrakk>adopted w k t; kept w w'; stored_under_key pod_Meta (cl_pods w')\<rbrakk> \<Longrightarrow> adopted w' k t"
  by (simp add: adopted_def kept_def cluster_wf_def)

lemma ensurePod_adopted:
  "adopted (st_world s) k t \<Longrightarrow> wp (ensurePod cluster_env t c img)
     (\<lambda>r s'. (\<exists>ref. r = Inr (set_PodRef ref t)) \<and> adopted (st_world s') k t) s"
  by (auto simp: ensurePod_def wp_simps Let_def store_get_def cl_create_pod_def adopted_def
      store_create_def cluster_wf_def stored_under_key_def split: option.splits prod.splits)

lemma dispatch_adopted:
  "adopted (st_world s) k t \<Longrightarrow> wp (dispatch cluster_env t b c img)
     (\<lambda>r s'. (\<exists>ref. r = Inr (set_PodRef ref t)) \<and> adopted (st_world s') k t) s"
  unfolding dispatch_def
  by (intro wp_ifI wp_bindI ensurePod_adopted wp_conseq [OF EnsureSandbox_cluster])
     (auto simp: wp_simps)

lemma selectBackend_world:
  "wp (selectBackend cluster_env t) (\<lambda>r s'. st_world s' = st_world s) s"
  by (simp add: selectBackend_def checkSandboxAvailability_def wp_simps Let_def)

lemma resolveRuntimeProfile_world:
  "wp (resolveRuntimeProfile cluster_env p b ns) (\<lambda>r s'. st_world s' = st_world s) s"
  by (simp add: resolveRuntimeProfile_def wp_simps split: sum.split option.split)

lemma ensureCodeConfigMap_adopted:
  "adopted (st_world s) k t \<Longrightarrow> wp (ensureCodeConfigMap cluster_env t)
     (\<lambda>r s'. (\<exists>c. r = Inr c) \<and> adopted (st_world s') k t) s"
  by (rule wp_conseq [OF ensureCodeConfigMap_cluster])
     (auto simp: adopted_def cluster_wf_def kept_def)

lemma ensureNetworkPolicy_adopted:
  "adopted (st_world s) k t \<Longrightarrow> wp (ensureNetworkPolicy cluster_env t)
     (\<lambda>r s'. r = None \<and> adopted (st_world s') k t) s"
  by (rule wp_conseq [OF ensureNetworkPolicy_cluster])
     (auto simp: adopted_def cluster_wf_def kept_def)

lemma store_phase:
  "adopted (st_world s) k t \<Longrightarrow> beyond_pending q \<Longrightarrow>
   wp (UpdateTaskStatus cluster_env (set_Phase q (set_PodRef ref t))) (\<lambda>r. wp (ret (update_error r)) (handled_past k)) s"
  by (auto simp: wp_simps status_write [of _ k t] update_error_def handled_def past_status)

lemma reconcilePending_handled:
  "adopted (st_world s) k t \<Longrightarrow> wp (reconcilePending cluster_env t) (handled_past k) s"
  unfolding reconcilePending_def
  by (intro wp_bindI wp_returnI wp_case_sumI wp_case_optionI wp_conseq [OF ensureCodeConfigMap_adopted]
      wp_conseq [OF ensureNetworkPolicy_adopted] wp_conseq [OF selectBackend_world]
      wp_conseq [OF resolveRuntimeProfile_world] wp_conseq [OF dispatch_adopted]
      updatePhaseFailure_handled; auto intro: store_phase)

subsection \<open>Rounds of the loop\<close>

abbreviation calmly :: "reconcile_result \<Rightarrow> cluster st \<Rightarrow> bool" where
  "calmly r s \<equiv> calm r"

lemma calm_simps [simp]:
  "calm (no_result, None)" "calm (no_result\<lparr>res_RequeueAfter := d\<rparr>, None)"
  "\<not> calm (no_result\<lparr>res_Requeue := True\<rparr>, None)" "calm (no_result, Some err) = False"
  by (simp_all add: calm_def no_result_def)

lemma reconcileDeleted_calm:
  assumes "adopted (st_world s) k t" "deleting t"
  shows "wp (reconcileDeleted cluster_env t) calmly s"
proof (cases "map_of (cl_pods (st_world s)) (pod_key t)")
  case None
  then show ?thesis
    using assms adopted_key [OF assms(1)]
    by (simp add: reconcileDeleted_def finalizeAgentTask_def wp_simps cl_update_task_def adopted_def
        set_finalizers_def deleting_def Let_def update_error_def)
next
  case (Some p)
  then show ?thesis
    using assms adopted_key [OF assms(1)]
    by (simp add: reconcileDeleted_def finalizeAgentTask_def wp_simps cl_update_task_def adopted_def
        set_finalizers_def deleting_def Let_def update_error_def cl_delete_pod_found)
qed

lemma ended_calm:
  assumes "adopted (st_world s) k t"
  shows "wp (reconcileCanceled cluster_env t) calmly s" and "wp (reconcileTimeout cluster_env t) calmly s"
proof -
  have wf: "cluster_wf (st_world s)" using assms by (simp add: adopted_def)
  have pods: "adopted ((st_world s)\<lparr>cl_pods := AList.delete q (cl_pods (st_world s))\<rparr>) k t" for q
    using assms by (simp add: adopted_def cluster_wf_def stored_under_key_delete)
  show "wp (reconcileCanceled cluster_env t) calmly s"
    by (cases "map_of (cl_pods (st_world s)) (pod_key t)")
       (use assms wf pods in \<open>auto simp: reconcileCanceled_def wp_simps Let_def cl_delete_pod_found
          status_write [of _ k t] update_error_def split: option.split\<close>)
  show "wp (reconcileTimeout cluster_env t) calmly s"
    by (cases "map_of (cl_pods (st_world s)) (pod_key t)")
       (use assms wf pods in \<open>auto simp: reconcileTimeout_def wp_simps Let_def cl_delete_pod_found
          status_write [of _ k t] update_error_def split: option.split\<close>)
qed

lemma reconcileFinished_calm:
  "adopted (st_world s) k t \<Longrightarrow> wp (reconcileFinished cluster_env t) calmly s"
  using adopted_key [of "st_world s" k t]
  by (auto simp: reconcileFinished_def wp_simps Let_def cl_delete_task_def adopted_def
      split: option.split prod.split)

lemma reconcilePhase_rounds:
  assumes "adopted (st_world s) k t" "task_Phase t \<noteq> ''''"
  shows "wp (reconcilePhase cluster_env t) (\<lambda>r s'. calm r \<or> past k (st_world s')) s"
    and "task_Phase t \<noteq> AgentTaskPhasePending \<Longrightarrow> wp (reconcilePhase cluster_env t) calmly s"
proof -
  have calm: "wp m calmly s \<Longrightarrow> wp m (\<lambda>r s'. calm r \<or> past k (st_world s')) s" for m
    by (erule wp_conseq) simp
  note rounds = wp_conseq [OF reconcilePending_handled [OF assms(1)]]
    wp_conseq [OF handlers_handled(1) [OF assms(1)]] wp_conseq [OF handlers_handled(2) [OF assms(1)]]
  show "wp (reconcilePhase cluster_env t) (\<lambda>r s'. calm r \<or> past k (st_world s')) s"
    unfolding reconcilePhase_def
    by (intro wp_ifI wp_bindI rounds calm [OF reconcileFinished_calm [OF assms(1)]])
       (auto simp: wp_simps handled_def)
  show "wp (reconcilePhase cluster_env t) calmly s" if "task_Phase t \<noteq> AgentTaskPhasePending"
    unfolding reconcilePhase_def
    by (intro wp_ifI wp_bindI rounds reconcileFinished_calm [OF assms(1)])
       (use that in \<open>auto simp: wp_simps handled_def\<close>)
qed

text \<open>A task past the requeued phases, or being deleted, needs no retry.\<close>

lemma Reconcile_calm:
  assumes "adopted w k t" "deleting t \<or> task_Phase t \<notin> {'''', AgentTaskPhasePending}"
  shows "answers (\<lambda>r w'. calm r) w k"
proof -
  have get: "store_get (cl_tasks w) k = Inr t" using assms(1) by (simp add: adopted_def)
  have fin: "agentTaskFinalizer \<in> set (om_Finalizers (task_Meta t))"
    using assms(1) by (simp add: adopted_def)
  have "adopted (st_world s) k t \<Longrightarrow> wp (reconcileActive cluster_env t) calmly s"
    if "\<not> deleting t" for s
    using assms(2) that
    by (auto simp: reconcileActive_def wp_simps intro: ended_calm reconcilePhase_rounds(2))
  then show ?thesis
    using assms get fin reconcileDeleted_calm
    by (auto simp: answers_def Reconcile_def wp_simps deleting_def)
qed

lemma Reconcile_pending:
  assumes "adopted w k t" "\<not> deleting t" "task_Phase t = AgentTaskPhasePending"
  shows "answers (\<lambda>r w'. calm r \<or> past k w') w k"
proof -
  have get: "store_get (cl_tasks w) k = Inr t" using assms(1) by (simp add: adopted_def)
  have fin: "agentTaskFinalizer \<in> set (om_Finalizers (task_Meta t))"
    using assms(1) by (simp add: adopted_def)
  have calm: "wp m calmly s \<Longrightarrow> wp m (\<lambda>r s'. calm r \<or> past k (st_world s')) s"
    for m and s :: "cluster st"
    by (erule wp_conseq) simp
  have "adopted (st_world s) k t \<Longrightarrow>
      wp (reconcileActive cluster_env t) (\<lambda>r s'. calm r \<or> past k (st_world s')) s" for s
    using assms(3)
    by (auto simp: reconcileActive_def wp_simps intro: calm [OF ended_calm(1)] calm [OF ended_calm(2)]
        reconcilePhase_rounds(1))
  then show ?thesis
    using assms get fin by (auto simp: answers_def Reconcile_def wp_simps deleting_def)
qed

lemma settle_past:
  "\<lbrakk>adopted w k t; deleting t \<or> task_Phase t \<notin> {'''', AgentTaskPhasePending}\<rbrakk>
   \<Longrightarrow> settle cluster_env k w = Some (after w k)"
  by (rule settle_calm [OF Reconcile_calm])

abbreviation rounds :: "nat \<Rightarrow> NamespacedName \<Rightarrow> cluster \<Rightarrow> cluster" where
  "rounds n k w \<equiv> ((\<lambda>w. after w k) ^^ n) w"

lemma settle_pending:
  assumes "adopted w k t" "\<not> deleting t" "task_Phase t = AgentTaskPhasePending"
  shows "settle cluster_env k w \<in> {Some (after w k), Some (after (after w k) k)}"
  using settle_again [OF Reconcile_pending [OF assms]] settle_past by (auto simp: reached_def beyond_pending_def)

lemma settle_new:
  assumes "adopted w k t" "\<not> deleting t" "task_Phase t = ''''"
  shows "settle cluster_env k w = settle cluster_env k (after w k)"
    and "adopted (after w k) k (accepted (cl_now w) t)"
proof -
  have w': "after w k = w\<lparr>cl_tasks := AList.update k (accepted (cl_now w) t) (cl_tasks w)\<rparr>"
    by (rule after_acceptance [OF assms])
  show "adopted (after w k) k (accepted (cl_now w) t)"
    unfolding w' accepted_def by (rule adopted_status [OF assms(1)])
  have "answers (\<lambda>r w'. res_Requeue (fst r)) w k"
    using assms adopted_key [OF assms(1)]
    by (simp add: answers_def Reconcile_def wp_simps adopted_def deleting_def reconcileActive_def
        cl_update_status_found no_result_def)
  then show "settle cluster_env k w = settle cluster_env k (after w k)"
    by (subst (1) settle.simps) (auto simp: answers_def wp_def after_def split: prod.splits)
qed

lemma settles:
  assumes "adopted w k t"
  shows "\<exists>n \<in> {1, 2, 3}. settle cluster_env k w = Some (rounds n k w)"
proof (cases "deleting t \<or> task_Phase t \<notin> {'''', AgentTaskPhasePending}")
  case True
  then show ?thesis using settle_past [OF assms] by simp
next
  case False
  have pending: "\<exists>n \<in> {1, 2}. settle cluster_env k v = Some (rounds n k v)"
    if "adopted v k u" "\<not> deleting u" "task_Phase u = AgentTaskPhasePending" for v u
    using settle_pending [OF that] by (auto simp: numeral_2_eq_2)
  show ?thesis
  proof (cases "task_Phase t = ''''")
    case True
    note new = settle_new [OF assms _ True]
    have "\<exists>n \<in> {1, 2}. settle cluster_env k (after w k) = Some (rounds n k (after w k))"
      by (rule pending [OF new(2)]) (use False in simp_all)
    then show ?thesis
      using new(1) False by (auto simp: numeral_2_eq_2 numeral_3_eq_3)
  next
    case False2: False
    then show ?thesis
      using pending [OF assms] False by auto
  qed
qed

subsection \<open>The property\<close>

text \<open>The retry loop ends. On a quiescent API server, for every task that has the finalizer,
  whatever its spec, phase and pod, serving its request again as long as the reconcile fails or
  asks for it returns, after at most three reconciles.\<close>

theorem retries_end:
  assumes "adopted w k t"
  shows "\<exists>v. settle cluster_env k w = Some v
     \<and> v \<in> {after w k, after (after w k) k, after (after (after w k) k) k}"
  using settles [OF assms] by (auto simp: numeral_2_eq_2 numeral_3_eq_3)

lemma retries_end_witness:
  "\<exists>v. settle cluster_env sample_key (sample_cluster (sample_at '''') 0) = Some v
     \<and> v \<in> {after (sample_cluster (sample_at '''') 0) sample_key,
         after (after (sample_cluster (sample_at '''') 0) sample_key) sample_key,
         after (after (after (sample_cluster (sample_at '''') 0) sample_key) sample_key) sample_key}"
  by (rule retries_end [OF sample_adopted])

end
