(* ===== verification/QuietReconcile.thy ===== *)
theory QuietReconcile
  imports Refinement Requeue
begin

text \<open>
  A reconcile that needs no retry: what it has done in any environment with the API server's
  finalizers, and the tasks that need no reconcile. A quiet reconcile read that there is no task,
  or found the task at rest, or stored a change of it; and a task at rest is left alone.
\<close>

subsection \<open>A task that needs no reconcile\<close>

text \<open>A pod that gives a task in the phase nothing to do.\<close>

definition awaits :: "string \<Rightarrow> Pod \<Rightarrow> bool" where
  "awaits phase p \<longleftrightarrow> pst_Phase (pod_Status p) \<notin> {PodSucceeded, PodFailed}
     \<and> (if phase = AgentTaskPhaseScheduled
        then pst_Phase (pod_Status p) \<noteq> PodRunning
          \<and> (pst_Phase (pod_Status p) = PodPending \<longrightarrow> first_image_pull (statuses p) = None)
        else pst_Phase (pod_Status p) = PodRunning \<longrightarrow> task_exit (statuses p) = None)"

definition waits_for :: "AgentTask \<Rightarrow> (Pod \<Rightarrow> bool) \<Rightarrow> bool" where
  "waits_for t pod \<longleftrightarrow> ref_Kind (status_PodRef (task_Status t)) \<noteq> ''Sandbox''
     \<and> (\<exists>p. pod p \<and> awaits (task_Phase t) p)"

text \<open>
  The task is at rest, when \<open>pod\<close> is what is known of its pod: a task being deleted is released;
  another one has the finalizer, has been scheduled, is ended if it was cancelled, and waits for
  its pod while it is scheduled or running; running in a sandbox it waits for nothing.
\<close>

definition at_rest :: "AgentTask \<Rightarrow> (Pod \<Rightarrow> bool) \<Rightarrow> bool" where
  "at_rest t pod \<longleftrightarrow> (if deleting t then \<not> has_finalizer t
     else has_finalizer t \<and> task_Phase t \<notin> {'''', AgentTaskPhasePending}
       \<and> (spec_Canceled (task_Spec t) \<longrightarrow> task_Phase t
            \<in> {AgentTaskPhaseSucceeded, AgentTaskPhaseFailed, AgentTaskPhaseCanceled})
       \<and> (task_Phase t = AgentTaskPhaseScheduled \<longrightarrow> waits_for t pod)
       \<and> (task_Phase t = AgentTaskPhaseRunning \<longrightarrow>
            ref_Kind (status_PodRef (task_Status t)) = ''Sandbox'' \<or> waits_for t pod))"

subsection \<open>What a reconcile has done when it needs no retry\<close>

text \<open>
  It read that there is no task; or it read the task at rest; or it stored a change of the task,
  to its finalizer or to its phase, whose event brings the next reconcile.
\<close>

fun writes_phase :: "(string \<Rightarrow> bool) \<Rightarrow> AgentTask \<Rightarrow> event \<Rightarrow> bool" where
  "writes_phase q t (Update_Status u (Inr v)) = (task_Meta u = task_Meta t \<and> q (task_Phase u))"
| "writes_phase q t e = False"

fun writes_finalizer :: "AgentTask \<Rightarrow> event \<Rightarrow> bool" where
  "writes_finalizer t (Update_Task u (Inr v)) =
     (object_key (task_Meta u) = object_key (task_Meta t) \<and> has_finalizer u \<noteq> has_finalizer t)"
| "writes_finalizer t e = False"

abbreviation wrote_phase :: "(string \<Rightarrow> bool) \<Rightarrow> AgentTask \<Rightarrow> event list \<Rightarrow> bool" where
  "wrote_phase q t es \<equiv> list_ex (writes_phase q t) es"

definition concluded :: "AgentTask \<Rightarrow> event list \<Rightarrow> bool" where
  "concluded t es \<longleftrightarrow> at_rest t (\<lambda>p. Get_Pod (pod_key t) (Inr p) \<in> set es)
     \<or> list_ex (writes_finalizer t) es \<or> wrote_phase (\<lambda>q. q \<noteq> task_Phase t) t es"

text \<open>Each handler that ends without an error has stored the phase, or had nothing to do.\<close>

abbreviation stores :: "string \<Rightarrow> AgentTask \<Rightarrow> gerror option \<Rightarrow> 'w st \<Rightarrow> bool" where
  "stores q t r s \<equiv> r = None \<longrightarrow> wrote_phase (\<lambda>p. p = q) t (st_log s)"

lemma update_error_None [simp]: "update_error r = None \<longleftrightarrow> (\<exists>v. r = Inr v)"
  by (cases r) simp_all

lemma updatePhaseFailure_stores:
  "wp (updatePhaseFailure E t reason msg) (stores AgentTaskPhaseFailed t) s"
  unfolding updatePhaseFailure_def observe_duration_def effect_defs Let_def
  by (intro wp_intro; auto)

lemma handlePod_stores:
  "wp (handlePodFailure E t pod) (stores AgentTaskPhaseFailed t) s"
  "wp (handlePodSuccess E t pod) (stores AgentTaskPhaseSucceeded t) s"
  unfolding handlePodFailure_def handlePodSuccess_def observe_duration_def effect_defs Let_def
  by (intro wp_intro; auto)+

lemma ended_stores:
  "wp (reconcileCanceled E t) (\<lambda>r s'. stores AgentTaskPhaseCanceled t (snd r) s') s"
  "wp (reconcileTimeout E t) (\<lambda>r s'. stores AgentTaskPhaseTimeout t (snd r) s') s"
  unfolding reconcileCanceled_def reconcileTimeout_def observe_duration_def effect_defs Let_def
  by (intro wp_intro; auto)+

lemma wrote_other: "\<lbrakk>wrote_phase (\<lambda>p. p = q) t es; q \<noteq> task_Phase t\<rbrakk> \<Longrightarrow> concluded t es"
proof -
  assume "wrote_phase (\<lambda>p. p = q) t es" "q \<noteq> task_Phase t"
  moreover have "writes_phase (\<lambda>p. p = q) t e \<Longrightarrow> writes_phase (\<lambda>p. p \<noteq> task_Phase t) t e" for e
    using \<open>q \<noteq> task_Phase t\<close> by (cases "(\<lambda>p. p = q, t, e)" rule: writes_phase.cases) auto
  ultimately show ?thesis by (auto simp: concluded_def list_ex_iff)
qed

lemma stores_conclude:
  "\<lbrakk>wp m (stores q t) s; q \<noteq> task_Phase t\<rbrakk> \<Longrightarrow> wp m (\<lambda>r s'. r = None \<longrightarrow> concluded t (st_log s')) s"
  by (erule wp_conseq) (use wrote_other in blast)

text \<open>A live task with the finalizer.\<close>

definition active :: "AgentTask \<Rightarrow> bool" where
  "active t \<longleftrightarrow> \<not> deleting t \<and> has_finalizer t"

lemma handlers_conclude:
  assumes "active t" "\<not> spec_Canceled (task_Spec t)"
  shows "task_Phase t = AgentTaskPhaseScheduled \<Longrightarrow>
      wp (reconcileScheduled E t) (\<lambda>r s'. r = None \<longrightarrow> concluded t (st_log s')) s"
    and "task_Phase t = AgentTaskPhaseRunning \<Longrightarrow>
      wp (reconcileRunning E t) (\<lambda>r s'. r = None \<longrightarrow> concluded t (st_log s')) s"
  unfolding reconcileScheduled_def reconcileRunning_def GetPod_def UpdateTaskStatus_def
  by (intro wp_intro stores_conclude [OF updatePhaseFailure_stores]
      stores_conclude [OF handlePod_stores(1)] stores_conclude [OF handlePod_stores(2)];
      use assms in \<open>auto simp: concluded_def at_rest_def active_def waits_for_def awaits_def\<close>)+

text \<open>A reconcile that needs no retry.\<close>

lemma wp_trivial: "(\<And>a s'. Q a s') \<Longrightarrow> wp m Q s"
  by (simp add: wp_def split: prod.split)

abbreviation concludes :: "AgentTask \<Rightarrow> reconcile_result \<Rightarrow> 'w st \<Rightarrow> bool" where
  "concludes t r s \<equiv> calm r \<longrightarrow> concluded t (st_log s)"

lemma calm_error [simp]: "calm (no_result, err) \<longleftrightarrow> err = None"
  by (simp add: calm_def no_result_def)

lemma reconcilePhase_concludes:
  assumes "active t" "\<not> spec_Canceled (task_Spec t)" "task_Phase t \<noteq> ''''"
  shows "wp (reconcilePhase E t) (concludes t) s"
proof -
  have pending: "wp (do {e \<leftarrow> reconcilePending E t;
      (case e of Some err \<Rightarrow> ret (no_result, Some err)
       | None \<Rightarrow> ret (no_result\<lparr>res_Requeue := True\<rparr>, None))}) (concludes t) s"
    by (intro wp_bindI wp_trivial wp_intro) simp_all
  have branch: "wp (do {e \<leftarrow> m; (case e of Some err \<Rightarrow> ret (no_result, Some err)
       | None \<Rightarrow> ret (no_result, None))}) (concludes t) s"
    if "wp m (\<lambda>r s'. r = None \<longrightarrow> concluded t (st_log s')) s" for m
    by (intro wp_bindI wp_conseq [OF that] wp_intro) simp_all
  have done_: "concluded t es" if "task_Phase t \<notin> {AgentTaskPhasePending, AgentTaskPhaseScheduled,
      AgentTaskPhaseRunning}" for es
    using assms that by (simp add: concluded_def at_rest_def active_def)
  show ?thesis
    unfolding reconcilePhase_def
    by (intro wp_ifI pending branch handlers_conclude [OF assms(1,2)] wp_trivial impI done_ wp_returnI)
       auto
qed

lemma reconcileActive_concludes:
  assumes "active t"
  shows "wp (reconcileActive E t) (concludes t) s"
proof -
  have ended: "wp m (concludes t) s"
    if "wp m (\<lambda>r s'. stores q t (snd r) s') s"
      "q \<noteq> task_Phase t \<or> (\<forall>es. concluded t es)" for m q and s :: "'a st"
    using that by (elim wp_conseq) (auto simp: calm_def intro: wrote_other)
  have timeout: "concluded t es" if "task_Phase t = AgentTaskPhaseTimeout"
      "\<not> spec_Canceled (task_Spec t)" for es
    using assms that by (simp add: concluded_def at_rest_def active_def)
  have ignored: "concluded t es" if "task_Phase t \<in> {AgentTaskPhaseSucceeded, AgentTaskPhaseFailed,
      AgentTaskPhaseCanceled}" for es
    using assms that by (auto simp: concluded_def at_rest_def active_def)
  show ?thesis
    unfolding reconcileActive_def
    by (intro wp_ifI wp_bindI wp_returnI ended [OF ended_stores(1)] ended [OF ended_stores(2)]
        reconcilePhase_concludes [OF assms] wp_trivial impI wp_intro)
       (use timeout ignored in \<open>auto simp: calm_def\<close>)
qed

definition concludes_read :: "NamespacedName \<Rightarrow> event list \<Rightarrow> bool" where
  "concludes_read k es \<longleftrightarrow> (\<exists>e. Get_Task k (Inl e) \<in> set es)
     \<or> (\<exists>t. Get_Task k (Inr t) \<in> set es \<and> concluded t es)"

lemma set_finalizers_edits [simp]:
  "object_key (task_Meta (set_finalizers f t)) = object_key (task_Meta t)"
  "has_finalizer (set_finalizers f t) \<longleftrightarrow> agentTaskFinalizer \<in> set (f (om_Finalizers (task_Meta t)))"
  by (simp_all add: set_finalizers_def object_key_def has_finalizer_def)

lemma branches_conclude:
  "active t \<Longrightarrow> wp (reconcileActive E t) (\<lambda>r s'. set (st_log s) \<subseteq> set (st_log s') \<and> concludes t r s') s"
  "deleting t \<Longrightarrow> wp (reconcileDeleted (shared_env others) t) (\<lambda>r s'. set (st_log s) \<subseteq> set (st_log s') \<and> concludes t r s') s"
proof -
  show "active t \<Longrightarrow> wp (reconcileActive E t) (\<lambda>r s'. set (st_log s) \<subseteq> set (st_log s') \<and> concludes t r s') s"
    by (intro wp_conj replays_extends [OF replays_branches(1)] reconcileActive_concludes)
  show "deleting t \<Longrightarrow> wp (reconcileDeleted (shared_env others) t) (\<lambda>r s'. set (st_log s) \<subseteq> set (st_log s') \<and> concludes t r s') s"
    unfolding reconcileDeleted_def finalizeAgentTask_def request_defs
    by (intro wp_intro; auto simp: concluded_def at_rest_def)
qed

lemma Reconcile_concludes:
  "wp (Reconcile (shared_env others) k) (\<lambda>r s. calm r \<longrightarrow> concludes_read k (st_log s)) (start w)"
  unfolding Reconcile_def GetTask_def UpdateTask_def
  by (intro wp_intro wp_conseq [OF branches_conclude(1)] wp_conseq [OF branches_conclude(2)])
     (auto simp: concludes_read_def concluded_def active_def deleting_def has_finalizer_def
        set_finalizers_def object_key_def)

subsection \<open>A task at rest is left alone\<close>

text \<open>Its deadline has not passed and it has not outlived its time to live.\<close>

definition not_due :: "instant \<Rightarrow> AgentTask \<Rightarrow> bool" where
  "not_due now t \<longleftrightarrow> (\<forall>d. deadline t = Some d \<longrightarrow> now \<le> d)
     \<and> (\<forall>ttl c. spec_TTLSecondsAfterFinished (task_Spec t) = Some ttl \<longrightarrow>
          status_CompletionTime (task_Status t) = Some c \<longrightarrow> now \<le> c + sint ttl * 1000000000)"

abbreviation unchanged :: "cluster \<Rightarrow> reconcile_result \<Rightarrow> cluster st \<Rightarrow> bool" where
  "unchanged w r s \<equiv> calm r \<and> st_world s = w"

lemma checkTimeout_in_time:
  "not_due (cl_now (st_world s)) t \<Longrightarrow>
     wp (checkTimeout cluster_env t) (\<lambda>late s'. \<not> late \<and> st_world s' = st_world s) s"
  unfolding checkTimeout_def task_deadline Let_def
  by (auto simp: wp_simps not_due_def deadline_def time_after_def split: option.split)

lemma rest_handled:
  assumes "\<not> deleting t" "at_rest t (\<lambda>p. map_of (cl_pods (st_world s)) (pod_key t) = Some p)"
    and "not_due (cl_now (st_world s)) t"
  shows "wp (reconcilePhase cluster_env t) (unchanged (st_world s)) s"
proof -
  have scheduled: "wp (reconcileScheduled cluster_env t) (\<lambda>r s'. r = None \<and> st_world s' = st_world s) s"
    if "task_Phase t = AgentTaskPhaseScheduled"
    using assms(1,2) that
    by (auto simp: reconcileScheduled_def at_rest_def waits_for_def awaits_def wp_simps)
  have running: "wp (reconcileRunning cluster_env t) (\<lambda>r s'. r = None \<and> st_world s' = st_world s) s"
    if "task_Phase t = AgentTaskPhaseRunning"
    using assms(1,2) that
    by (auto simp: reconcileRunning_def at_rest_def waits_for_def awaits_def wp_simps)
  have finished: "wp (reconcileFinished cluster_env t) (unchanged (st_world s)) s"
    using assms(3)
    by (auto simp: reconcileFinished_def wp_simps not_due_def time_add_def sint_seconds_0 time_after_def
        Let_def split: option.split)
  show ?thesis
    unfolding reconcilePhase_def
    by (intro wp_ifI wp_bindI wp_conseq [OF scheduled] wp_conseq [OF running] finished)
       (use assms(1,2) in \<open>auto simp: wp_simps at_rest_def\<close>)
qed

lemma resting_unchanged:
  assumes "map_of (cl_tasks w) k = Some t" "at_rest t (\<lambda>p. map_of (cl_pods w) (pod_key t) = Some p)"
    and "not_due (cl_now w) t"
  shows "answers (\<lambda>r w'. calm r \<and> w' = w) w k"
proof -
  have "wp (reconcileActive cluster_env t) (unchanged (st_world s)) s"
    if "\<not> deleting t" "st_world s = w" for s
    unfolding reconcileActive_def
    by (intro wp_ifI wp_bindI wp_conseq [OF checkTimeout_in_time])
       (use assms that rest_handled in \<open>auto simp: at_rest_def wp_simps\<close>)
  then show ?thesis
    using assms(1,2)
    by (auto simp: answers_def Reconcile_def reconcileDeleted_def wp_simps deleting_def at_rest_def
        has_finalizer_def)
qed

end
