(* ===== verification/Convergence.thy ===== *)
theory Convergence
  imports QuietReconcile
begin

text \<open>
  Level-triggered control: on a quiescent API server, at a fixed time, reconciling a task again and
  again reaches a state in which a further reconcile changes nothing and asks for nothing, whatever
  the state it starts from. Each reconcile leaves everything as it is, or takes the task to a state
  of lower rank; the one exception is a task past its deadline, whose timeout is written anew once.
\<close>

subsection \<open>Rank\<close>

definition phase_rank :: "bool \<Rightarrow> string \<Rightarrow> nat" where
  "phase_rank canceled p =
     (if p = '''' then 7
      else if p = AgentTaskPhasePending then 6
      else if p = AgentTaskPhaseScheduled then 5
      else if p = AgentTaskPhaseRunning then 4
      else if canceled then
        (if p \<in> {AgentTaskPhaseSucceeded, AgentTaskPhaseFailed, AgentTaskPhaseCanceled} then 2 else 3)
      else (if p = AgentTaskPhaseTimeout then 2 else 3))"

definition task_rank :: "AgentTask \<Rightarrow> nat" where
  "task_rank t = (if om_Finalizers (task_Meta t) = [] then 8
     else if deleting t then 1
     else phase_rank (spec_Canceled (task_Spec t)) (task_Phase t))"

subsection \<open>The handlers on a quiescent server\<close>

definition started :: "string \<Rightarrow> bool" where
  "started p \<longleftrightarrow> p \<in> {AgentTaskPhaseRunning, AgentTaskPhaseSucceeded, AgentTaskPhaseFailed}"

definition concluded_phase :: "string \<Rightarrow> bool" where
  "concluded_phase p \<longleftrightarrow> p \<in> {AgentTaskPhaseSucceeded, AgentTaskPhaseFailed}"

lemma phase_kinds [simp]:
  "started AgentTaskPhaseRunning" "started AgentTaskPhaseSucceeded" "started AgentTaskPhaseFailed"
  "concluded_phase AgentTaskPhaseSucceeded" "concluded_phase AgentTaskPhaseFailed"
  by (simp_all add: started_def concluded_phase_def)

lemma handled_reached: "wp m (handled P k) s \<Longrightarrow> wp m (\<lambda>r s'. st_world s' = w \<or> reached P k (st_world s')) s"
  by (erule wp_conseq) (simp add: handled_def)

lemma handlers_move:
  assumes "adopted (st_world s) k t"
  shows "wp (reconcileScheduled cluster_env t)
      (\<lambda>r s'. st_world s' = st_world s \<or> reached started k (st_world s')) s"
    and "wp (reconcileRunning cluster_env t)
      (\<lambda>r s'. st_world s' = st_world s \<or> reached concluded_phase k (st_world s')) s"
  using assms
  by (auto simp: reconcileScheduled_def reconcileRunning_def wp_simps store_get_def not_found_def
      status_write [of _ k t] past_status
      intro!: handled_reached updatePhaseFailure_handled handlePod_handled split: option.split)

lemma canceled_moves:
  assumes "adopted (st_world s) k t"
  shows "wp (reconcileCanceled cluster_env t) (\<lambda>r s'. \<exists>t'. adopted (st_world s') k t'
     \<and> task_Phase t' = AgentTaskPhaseCanceled \<and> task_Spec t' = task_Spec t) s"
proof -
  have wf: "cluster_wf (st_world s)" using assms by (simp add: adopted_def)
  have stored: "adopted ((st_world s)\<lparr>cl_tasks := AList.update k (t\<lparr>task_Status := st\<rparr>) (cl_tasks (st_world s))\<rparr>) k
      (t\<lparr>task_Status := st\<rparr>)" for st
    by (rule adopted_status [OF assms])
  have pods: "adopted ((st_world s)\<lparr>cl_pods := AList.delete q (cl_pods (st_world s))\<rparr>) k t" for q
    using assms by (simp add: adopted_def cluster_wf_def stored_under_key_delete)
  show ?thesis
    by (cases "map_of (cl_pods (st_world s)) (pod_key t)"; cases "status_StartTime (task_Status t)")
       (use assms wf pods stored adopted_status [OF pods] in \<open>auto simp: reconcileCanceled_def wp_simps Let_def
          cl_delete_pod_found status_write [of _ k t] intro!: exI\<close>)
qed

subsection \<open>A timeout is written anew once\<close>

definition timed_out :: "instant \<Rightarrow> AgentTask \<Rightarrow> AgentTask" where
  "timed_out now t = t\<lparr>task_Status := stored_status ((task_Status t)\<lparr>status_Phase := AgentTaskPhaseTimeout,
     status_CompletionTime := Some now, status_Reason := AgentTaskReasonTimeout,
     status_Message := ''Task execution exceeded the timeout limit.''\<rparr>)\<rparr>"

lemma whole_seconds_idem [simp]: "whole_seconds (whole_seconds x) = whole_seconds x"
  by (simp add: whole_seconds_def)

lemma stored_status_idem [simp]: "stored_status (stored_status st) = stored_status st"
  by (simp add: stored_status_def option.map_comp comp_def)

lemma timed_out_simps [simp]:
  "task_Meta (timed_out n t) = task_Meta t" "task_Spec (timed_out n t) = task_Spec t"
  "task_Phase (timed_out n t) = AgentTaskPhaseTimeout" "deleting (timed_out n t) = deleting t"
  "status_PodRef (task_Status (timed_out n t)) = status_PodRef (task_Status t)"
  "status_StartTime (task_Status (timed_out n t)) = map_option whole_seconds (status_StartTime (task_Status t))"
  "pod_key (timed_out n t) = pod_key t"
  by (simp_all add: timed_out_def deleting_def pod_key_def stored_status_def)

lemma timed_out_idem [simp]: "timed_out n (timed_out n t) = timed_out n t"
  by (simp add: timed_out_def stored_status_def option.map_comp comp_def)

lemma deadline_timed_out:
  "\<lbrakk>deadline t = Some d; d < now\<rbrakk> \<Longrightarrow> \<exists>d' < now. deadline (timed_out n t) = Some d'"
  using whole_seconds_bounds(1) [of "the (status_StartTime (task_Status t))"]
  by (auto simp: deadline_def split: if_splits)

text \<open>The task is overdue, at the server's time.\<close>

definition late :: "cluster \<Rightarrow> AgentTask \<Rightarrow> bool" where
  "late w t \<longleftrightarrow> (\<exists>d. deadline t = Some d \<and> d < cl_now w)"

definition after_timeout :: "cluster \<Rightarrow> NamespacedName \<Rightarrow> AgentTask \<Rightarrow> cluster" where
  "after_timeout w k t = w\<lparr>cl_tasks := AList.update k (timed_out (cl_now w) t) (cl_tasks w),
     cl_pods := (if pod_gone w t then cl_pods w else AList.delete (pod_key t) (cl_pods w))\<rparr>"

lemma reconcile_late:
  assumes "adopted w k t" "\<not> deleting t" "\<not> spec_Canceled (task_Spec t)" "task_Phase t \<noteq> ''''" "late w t"
  shows "after w k = after_timeout w k t"
proof -
  obtain d where d: "deadline t = Some d" "d < cl_now w" using assms(5) by (auto simp: late_def)
  obtain b where b: "status_StartTime (task_Status t) = Some b" using d deadline_started by blast
  show ?thesis
    by (rule afterI, cases "map_of (cl_pods w) (pod_key t)")
       (use assms(1-4) d b adopted_key [OF assms(1)] in \<open>simp_all add: Reconcile_def wp_simps adopted_def
          deleting_def reconcileActive_def reconcileTimeout_def Let_def pod_gone_def after_timeout_def
          timed_out_def cl_delete_pod_found cl_update_status_found\<close>)
qed

lemma after_timeout_adopted:
  assumes "adopted w k t"
  shows "adopted (after_timeout w k t) k (timed_out (cl_now w) t)"
proof -
  have "adopted (w\<lparr>cl_tasks := AList.update k (timed_out (cl_now w) t) (cl_tasks w)\<rparr>) k (timed_out (cl_now w) t)"
    unfolding timed_out_def by (rule adopted_status [OF assms])
  from adopted_pods [OF this, of "cl_pods (after_timeout w k t)"] assms show ?thesis
    by (simp add: after_timeout_def adopted_def cluster_wf_def stored_under_key_delete)
qed

lemma late_twice:
  assumes "adopted w k t" "\<not> deleting t" "\<not> spec_Canceled (task_Spec t)" "task_Phase t \<noteq> ''''" "late w t"
  shows "after (after w k) k = after w k"
proof -
  let ?w = "after_timeout w k t" and ?t = "timed_out (cl_now w) t"
  have now: "cl_now ?w = cl_now w" by (simp add: after_timeout_def)
  have gone: "pod_gone ?w ?t" by (simp add: pod_gone_def after_timeout_def)
  have "late ?w ?t"
    using assms(5) deadline_timed_out unfolding late_def now by blast
  then have "after ?w k = after_timeout ?w k ?t"
    using after_timeout_adopted [OF assms(1)] assms(2,3) by (intro reconcile_late) simp_all
  moreover have "AList.update k ?t (cl_tasks ?w) = cl_tasks ?w"
    by (rule update_triv) (simp add: after_timeout_def)
  ultimately have "after ?w k = ?w"
    using gone now by (simp add: after_timeout_def [of ?w])
  then show ?thesis by (simp add: reconcile_late [OF assms])
qed

subsection \<open>One reconcile\<close>

lemma effect_now: "cl_now (effect cluster_env e w) = cl_now w"
  by (cases e)
     (auto simp: cluster_env_def cl_create_task_def cl_update_task_def cl_update_status_def
        cl_delete_task_def cl_create_pod_def cl_delete_pod_def cl_create_configmap_def
        cl_create_netpol_def cl_create_sandbox_def cl_list_tasks_def Let_def split: prod.split option.split)

lemma replay_now: "cl_now (replay cluster_env es w) = cl_now w"
  by (induction es arbitrary: w) (simp_all add: effect_now)

lemma after_now: "cl_now (after w k) = cl_now w"
  using replays_Reconcile [of cluster_env k] unfolding replays_def after_def
  by (metis replay_now start_simps(1))

lemma reconcileFinished_moves:
  assumes "adopted (st_world s) k t" "cl_now (st_world s) \<noteq> zero_time"
  shows "wp (reconcileFinished cluster_env t) (\<lambda>r s'. st_world s' = st_world s
     \<or> (\<exists>t'. adopted (st_world s') k t' \<and> deleting t')) s"
proof -
  let ?t = "t\<lparr>task_Meta := (task_Meta t)\<lparr>om_DeletionTimestamp := Some (cl_now (st_world s))\<rparr>\<rparr>"
  have "adopted ((st_world s)\<lparr>cl_tasks := AList.update k ?t (cl_tasks (st_world s))\<rparr>) k ?t"
    by (rule adopted_update)
       (use assms adopted_key [OF assms(1)] in \<open>auto simp: adopted_def object_key_def\<close>)
  moreover have "deleting ?t" using assms(2) by (simp add: deleting_def time_is_zero_def)
  ultimately have marked: "\<exists>t'. adopted ((st_world s)\<lparr>cl_tasks := AList.update k ?t (cl_tasks (st_world s))\<rparr>) k t'
      \<and> deleting t'"
    by blast
  show ?thesis
    using assms adopted_key [OF assms(1)] marked
    by (auto simp: reconcileFinished_def wp_simps Let_def cl_delete_task_def adopted_def
        split: option.split)
qed

text \<open>Where one reconcile leads.\<close>

lemma task_rank_adopted:
  "adopted w k t \<Longrightarrow> task_rank t =
     (if deleting t then 1 else phase_rank (spec_Canceled (task_Spec t)) (task_Phase t))"
  by (simp add: task_rank_def adopted_def)

definition lower :: "NamespacedName \<Rightarrow> nat \<Rightarrow> cluster \<Rightarrow> bool" where
  "lower k n w \<longleftrightarrow> (\<exists>t. adopted w k t \<and> task_rank t < n)"

lemma lower_reached:
  assumes "reached P k w" "\<And>p c. P p \<Longrightarrow> phase_rank c p < n" "1 < n"
  shows "lower k n w"
proof -
  obtain t where t: "adopted w k t" "P (task_Phase t)" using assms(1) by (auto simp: reached_def)
  then have "task_rank t < n" using assms(2,3) by (simp add: task_rank_adopted)
  then show ?thesis using t(1) by (auto simp: lower_def)
qed

lemma phase_rank_bounds:
  "started p \<Longrightarrow> phase_rank c p < 5" "concluded_phase p \<Longrightarrow> phase_rank c p < 4"
  "beyond_pending p \<Longrightarrow> phase_rank c p < 6" "1 < phase_rank c p"
  by (auto simp: phase_rank_def started_def concluded_phase_def beyond_pending_def)

lemma reconcilePhase_moves:
  assumes "adopted (st_world s) k t" "\<not> deleting t" "task_Phase t \<noteq> ''''" "cl_now (st_world s) \<noteq> zero_time"
  shows "wp (reconcilePhase cluster_env t)
     (\<lambda>r s'. st_world s' = st_world s \<or> lower k (task_rank t) (st_world s')) s"
proof -
  have rank: "task_rank t = phase_rank (spec_Canceled (task_Spec t)) (task_Phase t)"
    using task_rank_adopted [OF assms(1)] assms(2) by simp
  have branch: "wp (do { e \<leftarrow> m; (case e of Some err \<Rightarrow> ret (x, Some err) | None \<Rightarrow> ret (y, None)) })
      (\<lambda>r s'. st_world s' = st_world s \<or> lower k (task_rank t) (st_world s')) s"
    if "wp m (\<lambda>r s'. st_world s' = st_world s \<or> reached P k (st_world s')) s"
      "\<And>p c. P p \<Longrightarrow> phase_rank c p < task_rank t" "1 < task_rank t" for m P and x y :: Result
    by (intro wp_bindI wp_conseq [OF that(1)] wp_intro)
       (use lower_reached [of P k _ "task_rank t"] that(2,3) in auto)
  have finished: "wp (reconcileFinished cluster_env t)
      (\<lambda>r s'. st_world s' = st_world s \<or> lower k (task_rank t) (st_world s')) s"
  proof (rule wp_conseq [OF reconcileFinished_moves [OF assms(1,4)]])
    fix r s'
    assume "st_world s' = st_world s \<or> (\<exists>t'. adopted (st_world s') k t' \<and> deleting t')"
    moreover have "lower k (task_rank t) (st_world s')" if "adopted (st_world s') k t'" "deleting t'" for t'
    proof -
      have "task_rank t' < task_rank t"
        using phase_rank_bounds(4) that(2) by (simp add: rank task_rank_adopted [OF that(1)])
      then show ?thesis using that(1) by (auto simp: lower_def)
    qed
    ultimately show "st_world s' = st_world s \<or> lower k (task_rank t) (st_world s')" by blast
  qed
  have pending: "wp (reconcilePending cluster_env t)
      (\<lambda>r s'. st_world s' = st_world s \<or> reached beyond_pending k (st_world s')) s"
    by (rule wp_conseq [OF reconcilePending_handled [OF assms(1)]]) (simp add: handled_def)
  show ?thesis
    unfolding reconcilePhase_def
    by (intro wp_ifI wp_returnI finished branch [OF pending]
        branch [OF handlers_move(1) [OF assms(1)]] branch [OF handlers_move(2) [OF assms(1)]])
       (use phase_rank_bounds in \<open>auto simp: rank phase_rank_def\<close>)
qed

lemma absent_fixed: "map_of (cl_tasks w) k = None \<Longrightarrow> after w k = w"
  by (rule afterI) (simp add: Reconcile_def wp_simps)

lemma round_active:
  assumes "adopted w k t" "\<not> deleting t"
    and "\<And>s. st_world s = w \<Longrightarrow> wp (reconcileActive cluster_env t)
      (\<lambda>r s'. st_world s' = w \<or> lower k (task_rank t) (st_world s')) s"
  shows "after w k = w \<or> lower k (task_rank t) (after w k)"
  by (rule afterI) (use assms in \<open>simp add: Reconcile_def wp_simps adopted_def deleting_def\<close>)

text \<open>From an adopted task: nothing changes, or the rank sinks, or the task is gone, or its timeout
  is written.\<close>

lemma round_cases:
  assumes "adopted w k t" "cl_now w \<noteq> zero_time"
  obtains (fixed) "after w k = w" | (lower) "lower k (task_rank t) (after w k)"
    | (gone) "map_of (cl_tasks (after w k)) k = None"
    | (late) "\<not> deleting t" "\<not> spec_Canceled (task_Spec t)" "task_Phase t \<noteq> ''''" "late w t"
proof (cases "deleting t")
  case True
  then show ?thesis using released [OF assms(1)] gone by blast
next
  case live: False
  note rank = task_rank_adopted [OF assms(1)]
  show ?thesis
  proof (cases "task_Phase t = ''''")
    case True
    have "task_rank (accepted (cl_now w) t) < task_rank t"
      using rank live True settle_new(2) [OF assms(1) live True]
      by (simp add: task_rank_adopted phase_rank_def)
    then show ?thesis using settle_new(2) [OF assms(1) live True] lower by (auto simp: lower_def)
  next
    case phase: False
    consider (late) "\<not> spec_Canceled (task_Spec t)" "late w t"
      | (active) "spec_Canceled (task_Spec t) \<or> \<not> late w t" by blast
    then show ?thesis
    proof cases
      case late
      then show ?thesis using that(4) live phase by blast
    next
      case active
      have canceled: "wp (reconcileCanceled cluster_env t)
          (\<lambda>r s'. st_world s' = w \<or> lower k (task_rank t) (st_world s')) s"
        if "st_world s = w" "spec_Canceled (task_Spec t)" "task_Phase t \<notin> {AgentTaskPhaseSucceeded,
          AgentTaskPhaseFailed, AgentTaskPhaseCanceled}" for s
      proof (rule wp_conseq [OF canceled_moves [of s k t]])
        fix r s'
        assume "\<exists>t'. adopted (st_world s') k t' \<and> task_Phase t' = AgentTaskPhaseCanceled \<and> task_Spec t' = task_Spec t"
        then obtain t' where t': "adopted (st_world s') k t'" "task_Phase t' = AgentTaskPhaseCanceled"
            "task_Spec t' = task_Spec t" by blast
        have "task_rank t' < task_rank t"
          using that(2,3) phase live t'(2,3)
          by (simp add: task_rank_adopted [OF t'(1)] rank phase_rank_def)
        then show "st_world s' = w \<or> lower k (task_rank t) (st_world s')"
          using t'(1) by (auto simp: lower_def)
      qed (use assms(1) that(1) in simp)
      have moves: "wp (reconcilePhase cluster_env t)
          (\<lambda>r s'. st_world s' = w \<or> lower k (task_rank t) (st_world s')) s" if "st_world s = w" for s
        using reconcilePhase_moves [of s k t] assms live phase that by simp
      define Q where "Q = (\<lambda>(r :: reconcile_result) (s' :: cluster st). st_world s' = w \<or> lower k (task_rank t) (st_world s'))"
      have "wp (reconcileActive cluster_env t) Q s" if at: "st_world s = w" for s
      proof -
        have phase_step: "wp (reconcilePhase cluster_env t) Q s'" if "st_world s' = st_world s" for s'
          using moves at that unfolding Q_def by simp
        have stay: "Q r s'" if "st_world s' = st_world s" for r s'
          using that at unfolding Q_def by simp
        have cancel_step: "spec_Canceled (task_Spec t) \<Longrightarrow> task_Phase t \<notin> {AgentTaskPhaseSucceeded,
            AgentTaskPhaseFailed, AgentTaskPhaseCanceled} \<Longrightarrow> wp (reconcileCanceled cluster_env t) Q s"
          using canceled at unfolding Q_def by blast
        show ?thesis
          using active phase cancel_step at
          by (auto simp: reconcileActive_def wp_simps late_def phase_step stay split: option.split)
      qed
      then have "after w k = w \<or> lower k (task_rank t) (after w k)"
        by (intro round_active [OF assms(1) live]) (simp add: Q_def)
      then show ?thesis using fixed lower by blast
    qed
  qed
qed

lemma round_moves:
  assumes "adopted w k t" "cl_now w \<noteq> zero_time"
  shows "after (after w k) k = after w k \<or> lower k (task_rank t) (after w k)"
  using assms
  by (cases rule: round_cases) (use late_twice [OF assms(1)] absent_fixed in auto)

text \<open>A task stays adopted until it is gone.\<close>

definition settled_or_gone :: "cluster \<Rightarrow> NamespacedName \<Rightarrow> bool" where
  "settled_or_gone w k \<longleftrightarrow> map_of (cl_tasks w) k = None \<or> (\<exists>t. adopted w k t)"

lemma round_keeps:
  assumes "adopted w k t" "cl_now w \<noteq> zero_time"
  shows "settled_or_gone (after w k) k"
  using assms
  by (cases rule: round_cases)
     (use after_timeout_adopted [OF assms(1)] reconcile_late [OF assms(1)] assms(1) in
       \<open>auto simp: settled_or_gone_def lower_def\<close>)

subsection \<open>The fixed point needs no retry\<close>

definition calm_at :: "cluster \<Rightarrow> NamespacedName \<Rightarrow> bool" where
  "calm_at w k \<longleftrightarrow> answers (\<lambda>r w'. calm r) w k"

text \<open>The retry loop, started where a reconcile changes nothing, can only end at once.\<close>

lemma settle_fixed:
  assumes "settle cluster_env k w = Some v" "after w k = w"
  shows "calm_at w k"
proof -
  have "cluster_env = cluster_env \<longrightarrow> after w k = w \<longrightarrow> calm_at w k"
  proof (rule settle.raw_induct [where P = "\<lambda>E k w v. E = cluster_env \<longrightarrow> after w k = w \<longrightarrow> calm_at w k",
      OF _ assms(1)])
    fix loop :: "cluster env \<Rightarrow> NamespacedName \<Rightarrow> cluster \<Rightarrow> cluster option" and E k w v
    assume hyp: "\<And>E k w v. loop E k w = Some v \<Longrightarrow> E = cluster_env \<longrightarrow> after w k = w \<longrightarrow> calm_at w k"
      and body: "(case run_state (Reconcile E k) (start w) of (r, s) \<Rightarrow>
        if snd r \<noteq> None \<or> res_Requeue (fst r) then loop E k (st_world s) else Some (st_world s)) = Some v"
    show "E = cluster_env \<longrightarrow> after w k = w \<longrightarrow> calm_at w k"
    proof (intro impI)
      assume "E = cluster_env" "after w k = w"
      then have "calm_at w k \<or> loop cluster_env k w = Some v"
        using body by (auto simp: calm_at_def answers_def calm_def wp_def after_def split: prod.splits if_splits)
      then show "calm_at w k" using hyp \<open>after w k = w\<close> by blast
    qed
  qed
  then show ?thesis using assms(2) by blast
qed

text \<open>Nothing is left to do: a reconcile changes nothing, reports no error and asks for no retry.\<close>

definition steady :: "cluster \<Rightarrow> NamespacedName \<Rightarrow> bool" where
  "steady w k \<longleftrightarrow> after w k = w \<and> calm_at w k"

lemma adopted_steady: "\<lbrakk>adopted w k t; after w k = w\<rbrakk> \<Longrightarrow> steady w k"
  using settles [of w k t] settle_fixed by (auto simp: steady_def)

lemma absent_steady: "map_of (cl_tasks w) k = None \<Longrightarrow> steady w k"
  by (simp add: steady_def absent_fixed calm_at_def answers_def calm_def Reconcile_def wp_simps no_result_def
      IgnoreNotFound_def)

lemma unfinalized_steady:
  assumes "map_of (cl_tasks w) k = Some t" "om_Finalizers (task_Meta t) = []" "deleting t"
  shows "steady w k"
proof -
  have "wp (Reconcile cluster_env k) (\<lambda>r s. calm r \<and> st_world s = w) (start w)"
    using assms by (simp add: Reconcile_def reconcileDeleted_def deleting_def wp_simps calm_def no_result_def)
  then show ?thesis
    by (auto simp: steady_def calm_at_def answers_def after_def wp_def split: prod.splits)
qed

lemma settled_steady: "\<lbrakk>settled_or_gone w k; after w k = w\<rbrakk> \<Longrightarrow> steady w k"
  using adopted_steady absent_steady by (auto simp: settled_or_gone_def)

subsection \<open>Convergence\<close>

lemma rounds_Suc: "rounds (Suc n) k w = rounds n k (after w k)"
  by (simp add: funpow_Suc_right del: funpow.simps)

lemma converges_from:
  assumes "adopted w k t" "cl_now w \<noteq> zero_time"
  shows "\<exists>n \<le> task_rank t. steady (rounds n k w) k"
  using assms
proof (induction "task_rank t" arbitrary: w t rule: less_induct)
  case less
  have pos: "1 \<le> task_rank t"
    using task_rank_adopted [OF less.prems(1)] phase_rank_bounds(4) less_imp_le by auto
  from round_moves [OF less.prems] show ?case
  proof
    assume "after (after w k) k = after w k"
    then have "steady (rounds 1 k w) k" using settled_steady [OF round_keeps [OF less.prems]] by simp
    then show ?thesis using pos by blast
  next
    assume "lower k (task_rank t) (after w k)"
    then obtain t' where t': "adopted (after w k) k t'" "task_rank t' < task_rank t"
      by (auto simp: lower_def)
    obtain n where "n \<le> task_rank t'" "steady (rounds n k (after w k)) k"
      using less.hyps [OF t'(2,1)] less.prems(2) by (auto simp: after_now)
    then show ?thesis using t'(2) by (intro exI [of _ "Suc n"]) (simp add: rounds_Suc del: funpow.simps)
  qed
qed

text \<open>From any stored task that carries no finalizer but the operator's.\<close>

definition manageable :: "cluster \<Rightarrow> NamespacedName \<Rightarrow> bool" where
  "manageable w k \<longleftrightarrow> (case map_of (cl_tasks w) k of None \<Rightarrow> True
     | Some t \<Rightarrow> om_Finalizers (task_Meta t) = [] \<or> om_Finalizers (task_Meta t) = [agentTaskFinalizer])"

lemma task_rank_le: "adopted w k t \<Longrightarrow> task_rank t \<le> 7"
  by (simp add: task_rank_adopted phase_rank_def)

lemma unfinalized_adopted:
  assumes "cluster_wf w" "map_of (cl_tasks w) k = Some t" "om_Finalizers (task_Meta t) = []" "\<not> deleting t"
  shows "\<exists>t'. adopted (after w k) k t'"
  unfolding after_adoption [OF assms]
  by (rule exI, rule adopted_update) (use assms cluster_wfD(1) [OF assms(1,2)] in simp_all)

lemma converges:
  assumes "cluster_wf w" "manageable w k" "cl_now w \<noteq> zero_time"
  shows "\<exists>n \<le> 8. steady (rounds n k w) k"
proof (cases "map_of (cl_tasks w) k")
  case None
  then show ?thesis using absent_steady by (intro exI [of _ 0]) simp
next
  case (Some t)
  then consider (adopted) "adopted w k t" | (gone) "om_Finalizers (task_Meta t) = []" "deleting t"
    | (new) "om_Finalizers (task_Meta t) = []" "\<not> deleting t"
    using assms(1,2) by (auto simp: manageable_def adopted_def)
  then show ?thesis
  proof cases
    case adopted
    then show ?thesis using converges_from [OF adopted assms(3)] task_rank_le [OF adopted]
      by (meson le_trans nat_le_linear numeral_le_iff semiring_norm(69,72))
  next
    case gone
    then show ?thesis using unfinalized_steady [OF Some] by (intro exI [of _ 0]) simp
  next
    case new
    then obtain t' where t': "adopted (after w k) k t'"
      using unfinalized_adopted [OF assms(1) Some] by blast
    then obtain n where "n \<le> 7" "steady (rounds n k (after w k)) k"
      using converges_from [OF t'] task_rank_le [OF t'] assms(3) by (auto simp: after_now intro: le_trans)
    then show ?thesis by (intro exI [of _ "Suc n"]) (simp add: rounds_Suc del: funpow.simps)
  qed
qed

subsection \<open>The control loop\<close>

text \<open>
  A task is served again as long as its reconcile fails, asks for a retry, or changes what is
  stored: the watches report every change of the task and its pod, so waking the task on any
  change is the busiest the loop can be.
\<close>

partial_function (option) control_loop :: "'w env \<Rightarrow> NamespacedName \<Rightarrow> 'w \<Rightarrow> 'w option" where
  "control_loop E k w = (case run_state (Reconcile E k) (start w) of (r, s) \<Rightarrow>
     if snd r \<noteq> None \<or> res_Requeue (fst r) \<or> st_world s \<noteq> w then control_loop E k (st_world s)
     else Some w)"

lemma control_loop_steady: "steady w k \<Longrightarrow> control_loop cluster_env k w = Some w"
  by (subst control_loop.simps)
     (auto simp: steady_def calm_at_def answers_def calm_def after_def wp_def split: prod.splits)

lemma control_loop_again: "\<not> steady w k \<Longrightarrow> control_loop cluster_env k w = control_loop cluster_env k (after w k)"
  by (subst control_loop.simps)
     (auto simp: steady_def calm_at_def answers_def calm_def after_def wp_def split: prod.splits)

lemma control_loop_rounds:
  "steady (rounds n k w) k \<Longrightarrow> \<exists>m \<le> n. control_loop cluster_env k w = Some (rounds m k w) \<and> steady (rounds m k w) k"
proof (induction n arbitrary: w)
  case 0
  then show ?case by (auto simp: control_loop_steady)
next
  case (Suc n)
  show ?case
  proof (cases "steady w k")
    case True
    then show ?thesis by (intro exI [of _ 0]) (simp add: control_loop_steady)
  next
    case False
    obtain m where "m \<le> n" "control_loop cluster_env k (after w k) = Some (rounds m k (after w k))"
        "steady (rounds m k (after w k)) k"
      using Suc.IH [of "after w k"] Suc.prems by (auto simp: rounds_Suc simp del: funpow.simps)
    then show ?thesis
      using control_loop_again [OF False]
      by (intro exI [of _ "Suc m"]) (simp add: rounds_Suc del: funpow.simps)
  qed
qed



end
