(* ===== verification/GoStrings.thy ===== *)
theory GoStrings
  imports GoRuntime "HOL-Library.Sublist"
begin

text \<open>
  The string functions of Go's standard library the command line tool uses: the base name and
  the extension of a path on Unix, suffix trimming, replacement of one byte by another and
  lower-casing. A string is its list of bytes. Lower-casing ASCII text maps the letters; for
  other text it needs the Unicode tables, which are a parameter.
\<close>

definition is_slash :: "char \<Rightarrow> bool" where
  "is_slash c \<longleftrightarrow> c = CHR ''/''"

text \<open>\<^verbatim>\<open>filepath.Base\<close>.\<close>

definition path_base :: "string \<Rightarrow> string" where
  "path_base path =
     (if path = '''' then ''.''
      else let trimmed = rev (dropWhile is_slash (rev path));
               last = rev (takeWhile (\<lambda>c. \<not> is_slash c) (rev trimmed))
           in if last = '''' then ''/'' else last)"

text \<open>\<^verbatim>\<open>filepath.Ext\<close>: from the last dot of the last element, if it has one.\<close>

definition path_ext :: "string \<Rightarrow> string" where
  "path_ext path =
     (let last = takeWhile (\<lambda>c. \<not> is_slash c) (rev path)
      in if CHR ''.'' \<in> set last
         then CHR ''.'' # rev (takeWhile (\<lambda>c. c \<noteq> CHR ''.'') last) else '''')"

definition trim_suffix :: "string \<Rightarrow> string \<Rightarrow> string" where
  "trim_suffix s suf = (if suffix suf s then take (length s - length suf) s else s)"

definition replace_char :: "char \<Rightarrow> char \<Rightarrow> string \<Rightarrow> string" where
  "replace_char old new s = map (\<lambda>c. if c = old then new else c) s"

definition is_ascii :: "string \<Rightarrow> bool" where
  "is_ascii s = (\<forall>c \<in> set s. of_char c < (128 :: nat))"

definition is_upper :: "char \<Rightarrow> bool" where
  "is_upper c \<longleftrightarrow> (65 :: nat) \<le> of_char c \<and> of_char c \<le> (90 :: nat)"

definition char_lower :: "char \<Rightarrow> char" where
  "char_lower c = (if is_upper c then char_of (of_char c + (32 :: nat)) else c)"

definition to_lower :: "(string \<Rightarrow> string) \<Rightarrow> string \<Rightarrow> string" where
  "to_lower unicode s = (if is_ascii s then map char_lower s else unicode s)"

subsection \<open>What the functions return\<close>

lemma path_base_no_slash:
  "path_base path \<noteq> ''/'' \<Longrightarrow> CHR ''/'' \<notin> set (path_base path)"
  by (auto simp: path_base_def Let_def is_slash_def dest: set_takeWhileD split: if_splits)

lemma path_base_nonempty: "path_base path \<noteq> ''''"
  by (simp add: path_base_def Let_def)

text \<open>Base name and extension fit together: a base name is its stem followed by its extension.\<close>

lemma split_at_first: "c \<in> set xs \<Longrightarrow> \<exists>ys. xs = takeWhile (\<lambda>a. a \<noteq> c) xs @ c # ys"
  by (induction xs) auto

lemma path_ext_suffix: "suffix (path_ext path) path"
proof (cases "CHR ''.'' \<in> set (takeWhile (\<lambda>c. \<not> is_slash c) (rev path))")
  case True
  let ?last = "takeWhile (\<lambda>c. \<not> is_slash c) (rev path)"
  obtain ys where "?last = takeWhile (\<lambda>c. c \<noteq> CHR ''.'') ?last @ CHR ''.'' # ys"
    using split_at_first [OF True] by blast
  then have "rev path = takeWhile (\<lambda>c. c \<noteq> CHR ''.'') ?last @ CHR ''.'' # ys
      @ dropWhile (\<lambda>c. \<not> is_slash c) (rev path)"
    by (metis append.assoc append_Cons takeWhile_dropWhile_id)
  then have "path = rev (ys @ dropWhile (\<lambda>c. \<not> is_slash c) (rev path))
      @ CHR ''.'' # rev (takeWhile (\<lambda>c. c \<noteq> CHR ''.'') ?last)"
    by (metis append.assoc append_Cons append_Nil rev.simps(2) rev_append rev_rev_ident)
  then show ?thesis
    using True unfolding path_ext_def Let_def suffix_def by (simp only: if_True) blast
qed (simp add: path_ext_def Let_def)

lemma trim_suffix_append: "suffix suf s \<Longrightarrow> trim_suffix s suf @ suf = s"
  by (auto simp: trim_suffix_def suffix_def)

lemma trim_suffix_prefix: "\<exists>zs. s = trim_suffix s suf @ zs"
  by (auto simp: trim_suffix_def intro: exI [of _ "drop (length s - length suf) s"])

lemma replace_char_gone: "new \<noteq> old \<Longrightarrow> old \<notin> set (replace_char old new s)"
  by (auto simp: replace_char_def)

lemma of_char_lower:
  "of_char (char_lower c) = (if is_upper c then of_char c + 32 else of_char c :: nat)"
  by (simp add: char_lower_def is_upper_def)

lemma char_lower_not_upper: "\<not> is_upper (char_lower c)"
  by (simp add: is_upper_def [of "char_lower c"] of_char_lower) (simp add: is_upper_def)

text \<open>Lower-casing does not produce a byte below the lower-case letters.\<close>

lemma char_lower_eq_low:
  assumes "of_char d < (97 :: nat)" and "char_lower c = d"
  shows "c = d"
proof (cases "is_upper c")
  case True
  then have "(97 :: nat) \<le> of_char (char_lower c)"
    by (simp add: of_char_lower is_upper_def)
  with assms show ?thesis by simp
next
  case False
  with assms(2) show ?thesis by (simp add: char_lower_def)
qed

lemma set_trim_suffix: "set (trim_suffix s suf) \<subseteq> set s"
  by (auto simp: trim_suffix_def dest: in_set_takeD)

lemma set_path_base: "set (path_base path) \<subseteq> insert (CHR ''.'') (insert (CHR ''/'') (set path))"
  by (auto simp: path_base_def Let_def dest!: set_takeWhileD set_dropWhileD)

end
