(* ===== verification/Startup.thy ===== *)
theory Startup
  imports GoStrings KubeObjects
begin

text \<open>
  The entry point of the operator (cmd/main.go): its command line flags, parsed as Go's package
  flag does, the options of the webhook server, the metrics server and the manager computed from
  them, and the sequence of start-up steps, each of which ends the process when it fails. Flags
  other packages register on the same command line (zap, the kube config) are the parameter
  \<open>others\<close>, with their own state \<^typ>\<open>'z\<close>; the calls into controller-runtime are the parameter
  \<open>boot\<close>, which answers each step with an error or none and the next world.
\<close>

subsection \<open>Package flag\<close>

text \<open>A flag: whether it is boolean, so that it needs no argument, and what setting it does.\<close>

datatype 's flag = Flag (is_bool: bool) (set_flag: "string \<Rightarrow> 's \<Rightarrow> 's option")

datatype flag_error =
    HelpRequested
  | BadSyntax string
  | NotDefined string
  | NeedsArgument string
  | InvalidValue string string

definition ParseBool :: "string \<Rightarrow> bool option" where
  "ParseBool s =
     (if s \<in> set [''1'', ''t'', ''T'', ''true'', ''TRUE'', ''True''] then Some True
      else if s \<in> set [''0'', ''f'', ''F'', ''false'', ''FALSE'', ''False''] then Some False
      else None)"

definition StringVar :: "((string \<Rightarrow> string) \<Rightarrow> 's \<Rightarrow> 's) \<Rightarrow> 's flag" where
  "StringVar upd = Flag False (\<lambda>v s. Some (upd (\<lambda>_. v) s))"

definition BoolVar :: "((bool \<Rightarrow> bool) \<Rightarrow> 's \<Rightarrow> 's) \<Rightarrow> 's flag" where
  "BoolVar upd = Flag True (\<lambda>v s. map_option (\<lambda>b. upd (\<lambda>_. b) s) (ParseBool v))"

text \<open>\<^verbatim>\<open>parseOne\<close>: the first argument stops the parsing, is a flag, or is an error.\<close>

datatype 's parsed = Stop "string list" | Next 's "string list" | Failed flag_error

definition flag_body :: "string \<Rightarrow> string" where
  "flag_body s = (if s ! 1 = CHR ''-'' then drop 2 s else drop 1 s)"

definition flag_key :: "string \<Rightarrow> string" where
  "flag_key s = takeWhile (\<lambda>c. c \<noteq> CHR ''='') (flag_body s)"

definition set_value :: "'s flag \<Rightarrow> string \<Rightarrow> string \<Rightarrow> string list \<Rightarrow> 's \<Rightarrow> 's parsed" where
  "set_value f key v args st =
     (case set_flag f v st of None \<Rightarrow> Failed (InvalidValue key v) | Some st' \<Rightarrow> Next st' args)"

definition parse_one ::
  "(string \<Rightarrow> 's flag option) \<Rightarrow> string \<Rightarrow> string list \<Rightarrow> 's \<Rightarrow> 's parsed" where
  "parse_one look s args st =
     (if length s < 2 \<or> s ! 0 \<noteq> CHR ''-'' then Stop (s # args)
      else if s = ''--'' then Stop args
      else if flag_body s = '''' \<or> hd (flag_body s) \<in> {CHR ''-'', CHR ''=''} then Failed (BadSyntax s)
      else
        let key = flag_key s;
            rest = dropWhile (\<lambda>c. c \<noteq> CHR ''='') (flag_body s)
        in case look key of
             None \<Rightarrow> Failed (if key = ''help'' \<or> key = ''h'' then HelpRequested else NotDefined key)
           | Some f \<Rightarrow>
               if is_bool f then set_value f key (if rest = '''' then ''true'' else tl rest) args st
               else if rest \<noteq> '''' then set_value f key (tl rest) args st
               else (case args of [] \<Rightarrow> Failed (NeedsArgument key)
                     | v # args' \<Rightarrow> set_value f key v args' st))"

lemma parse_one_shorter: "parse_one look s args st = Next st' args' \<Longrightarrow> length args' \<le> length args"
  by (auto simp: parse_one_def set_value_def Let_def split: if_splits option.splits list.splits)

function parse_flags ::
  "(string \<Rightarrow> 's flag option) \<Rightarrow> string list \<Rightarrow> 's \<Rightarrow> flag_error + 's \<times> string list" where
  "parse_flags look args st =
     (case args of
        [] \<Rightarrow> Inr (st, [])
      | s # args' \<Rightarrow>
          (case parse_one look s args' st of
             Stop rest \<Rightarrow> Inr (st, rest)
           | Failed e \<Rightarrow> Inl e
           | Next st' rest \<Rightarrow> parse_flags look rest st'))"
  by pat_completeness auto
termination
  by (relation "measure (\<lambda>(look, args, st). length args)") (auto dest: parse_one_shorter)

declare parse_flags.simps [simp del]

text \<open>The exit status of a failed parse: the command line is parsed with
  \<^verbatim>\<open>ExitOnError\<close>.\<close>

definition parse_exit :: "flag_error \<Rightarrow> nat" where
  "parse_exit e = (if e = HelpRequested then 0 else 2)"

subsection \<open>The operator's flags\<close>

record OperatorFlags =
  metricsAddr :: string
  probeAddr :: string
  enableLeaderElection :: bool
  secureMetrics :: bool
  webhookCertPath :: string
  webhookCertName :: string
  webhookCertKey :: string
  metricsCertPath :: string
  metricsCertName :: string
  metricsCertKey :: string
  enableHTTP2 :: bool

definition default_flags :: OperatorFlags where
  "default_flags = \<lparr>metricsAddr = ''0'', probeAddr = '':8081'', enableLeaderElection = False,
     secureMetrics = True, webhookCertPath = '''', webhookCertName = ''tls.crt'',
     webhookCertKey = ''tls.key'', metricsCertPath = '''', metricsCertName = ''tls.crt'',
     metricsCertKey = ''tls.key'', enableHTTP2 = False\<rparr>"

definition operator_flags :: "(string \<times> OperatorFlags flag) list" where
  "operator_flags =
     [(''metrics-bind-address'', StringVar metricsAddr_update),
      (''health-probe-bind-address'', StringVar probeAddr_update),
      (''leader-elect'', BoolVar enableLeaderElection_update),
      (''metrics-secure'', BoolVar secureMetrics_update),
      (''webhook-cert-path'', StringVar webhookCertPath_update),
      (''webhook-cert-name'', StringVar webhookCertName_update),
      (''webhook-cert-key'', StringVar webhookCertKey_update),
      (''metrics-cert-path'', StringVar metricsCertPath_update),
      (''metrics-cert-name'', StringVar metricsCertName_update),
      (''metrics-cert-key'', StringVar metricsCertKey_update),
      (''enable-http2'', BoolVar enableHTTP2_update)]"

text \<open>The command line holds the operator's flags and those of the other packages.\<close>

fun own_flag :: "'s flag \<Rightarrow> ('s \<times> 'z) flag" where
  "own_flag (Flag b f) = Flag b (\<lambda>v (s, z). map_option (\<lambda>s'. (s', z)) (f v s))"

fun other_flag :: "'z flag \<Rightarrow> ('s \<times> 'z) flag" where
  "other_flag (Flag b f) = Flag b (\<lambda>v (s, z). map_option (\<lambda>z'. (s, z')) (f v z))"

definition command_line :: "(string \<Rightarrow> 'z flag option) \<Rightarrow> string \<Rightarrow> (OperatorFlags \<times> 'z) flag option" where
  "command_line others key =
     (case map_of operator_flags key of
        Some f \<Rightarrow> Some (own_flag f)
      | None \<Rightarrow> map_option other_flag (others key))"

definition Parse ::
  "(string \<Rightarrow> 'z flag option) \<Rightarrow> string list \<Rightarrow> 'z \<Rightarrow> flag_error + (OperatorFlags \<times> 'z) \<times> string list" where
  "Parse others args z = parse_flags (command_line others) args (default_flags, z)"

subsection \<open>Server and manager options\<close>

text \<open>The part of \<^verbatim>\<open>tls.Config\<close> the options change; a TLS option changes a
  configuration.\<close>

record tls_config =
  NextProtos :: "string list"

type_synonym tls_option = "tls_config \<Rightarrow> tls_config"

definition disableHTTP2 :: tls_option where
  "disableHTTP2 c = c\<lparr>NextProtos := [''http/1.1'']\<rparr>"

definition tlsOpts :: "OperatorFlags \<Rightarrow> tls_option list" where
  "tlsOpts F = (if \<not> enableHTTP2 F then [disableHTTP2] else [])"

record webhook_options =
  wh_TLSOpts :: "tls_option list"
  wh_CertDir :: string
  wh_CertName :: string
  wh_KeyName :: string

definition webhookServerOptions :: "OperatorFlags \<Rightarrow> webhook_options" where
  "webhookServerOptions F =
     (let options = \<lparr>wh_TLSOpts = tlsOpts F, wh_CertDir = '''', wh_CertName = '''', wh_KeyName = ''''\<rparr>
      in if 0 < length (webhookCertPath F) then
           options\<lparr>wh_CertDir := webhookCertPath F, wh_CertName := webhookCertName F,
             wh_KeyName := webhookCertKey F\<rparr>
         else options)"

datatype filter_provider = WithAuthenticationAndAuthorization

record metrics_options =
  ms_BindAddress :: string
  ms_SecureServing :: bool
  ms_TLSOpts :: "tls_option list"
  ms_FilterProvider :: "filter_provider option"
  ms_CertDir :: string
  ms_CertName :: string
  ms_KeyName :: string

definition metricsServerOptions :: "OperatorFlags \<Rightarrow> metrics_options" where
  "metricsServerOptions F =
     (let options = \<lparr>ms_BindAddress = metricsAddr F, ms_SecureServing = secureMetrics F,
            ms_TLSOpts = tlsOpts F, ms_FilterProvider = None, ms_CertDir = '''',
            ms_CertName = '''', ms_KeyName = ''''\<rparr>;
          options = (if secureMetrics F
            then options\<lparr>ms_FilterProvider := Some WithAuthenticationAndAuthorization\<rparr> else options)
      in if 0 < length (metricsCertPath F) then
           options\<lparr>ms_CertDir := metricsCertPath F, ms_CertName := metricsCertName F,
             ms_KeyName := metricsCertKey F\<rparr>
         else options)"

record manager_options =
  mo_Metrics :: metrics_options
  mo_WebhookServer :: webhook_options
  mo_HealthProbeBindAddress :: string
  mo_LeaderElection :: bool
  mo_LeaderElectionID :: string

definition manager_options_of :: "OperatorFlags \<Rightarrow> manager_options" where
  "manager_options_of F = \<lparr>mo_Metrics = metricsServerOptions F,
     mo_WebhookServer = webhookServerOptions F, mo_HealthProbeBindAddress = probeAddr F,
     mo_LeaderElection = enableLeaderElection F, mo_LeaderElectionID = ''8cafa428.agenttask.io''\<rparr>"

subsection \<open>Start-up\<close>

text \<open>What the builders of the controller and of the webhook complete: the kinds the controller
  is for and owns, and the kind the validator checks.\<close>

datatype object_kind = AgentTask_kind | Pod_kind

record controller_spec =
  ctl_For :: object_kind
  ctl_Owns :: "object_kind list"
  ctl_Named :: string

definition agenttask_controller :: controller_spec where
  "agenttask_controller = \<lparr>ctl_For = AgentTask_kind, ctl_Owns = [Pod_kind], ctl_Named = ''agenttask''\<rparr>"

datatype boot_step =
    GetConfigOrDie
  | NewManager manager_options
  | CompleteController controller_spec
  | CompleteWebhook object_kind
  | AddHealthzCheck string
  | AddReadyzCheck string
  | StartManager

type_synonym 'w boot = "boot_step \<Rightarrow> 'w \<Rightarrow> gerror option \<times> 'w"

definition SetupWithManager :: "'w boot \<Rightarrow> 'w \<Rightarrow> gerror option \<times> 'w" where
  "SetupWithManager boot = boot (CompleteController agenttask_controller)"

definition SetupAgentTaskWebhookWithManager :: "'w boot \<Rightarrow> 'w \<Rightarrow> gerror option \<times> 'w" where
  "SetupAgentTaskWebhookWithManager boot = boot (CompleteWebhook AgentTask_kind)"

text \<open>A step that fails ends the process with status 1.\<close>

definition or_exit :: "('w \<Rightarrow> gerror option \<times> 'w) \<Rightarrow> ('w \<Rightarrow> nat \<times> 'w) \<Rightarrow> 'w \<Rightarrow> nat \<times> 'w" where
  "or_exit step next w = (case step w of (Some err, w') \<Rightarrow> (1, w') | (None, w') \<Rightarrow> next w')"

definition startup :: "'w boot \<Rightarrow> (string \<Rightarrow> string) \<Rightarrow> OperatorFlags \<Rightarrow> 'w \<Rightarrow> nat \<times> 'w" where
  "startup boot Getenv F =
     or_exit (boot GetConfigOrDie)
     (or_exit (boot (NewManager (manager_options_of F)))
     (or_exit (SetupWithManager boot)
     ((if Getenv ''ENABLE_WEBHOOKS'' \<noteq> ''false''
       then or_exit (SetupAgentTaskWebhookWithManager boot) else id)
     (or_exit (boot (AddHealthzCheck ''healthz''))
     (or_exit (boot (AddReadyzCheck ''readyz''))
     (or_exit (boot StartManager)
     (\<lambda>w. (0, w))))))))"

definition main ::
  "(string \<Rightarrow> 'z flag option) \<Rightarrow> 'z \<Rightarrow> 'w boot \<Rightarrow> (string \<Rightarrow> string) \<Rightarrow> string list \<Rightarrow> 'w \<Rightarrow> nat \<times> 'w" where
  "main others z boot Getenv args w =
     (case Parse others args z of
        Inl e \<Rightarrow> (parse_exit e, w)
      | Inr ((F, z'), rest) \<Rightarrow> startup boot Getenv F w)"

subsection \<open>The command line of some flags\<close>

definition show_bool :: "bool \<Rightarrow> string" where
  "show_bool b = (if b then ''true'' else ''false'')"

definition flag_arg :: "string \<Rightarrow> string \<Rightarrow> string" where
  "flag_arg key v = ''--'' @ key @ ''='' @ v"

definition print_flags :: "OperatorFlags \<Rightarrow> string list" where
  "print_flags F =
     [flag_arg ''metrics-bind-address'' (metricsAddr F),
      flag_arg ''health-probe-bind-address'' (probeAddr F),
      flag_arg ''leader-elect'' (show_bool (enableLeaderElection F)),
      flag_arg ''metrics-secure'' (show_bool (secureMetrics F)),
      flag_arg ''webhook-cert-path'' (webhookCertPath F),
      flag_arg ''webhook-cert-name'' (webhookCertName F),
      flag_arg ''webhook-cert-key'' (webhookCertKey F),
      flag_arg ''metrics-cert-path'' (metricsCertPath F),
      flag_arg ''metrics-cert-name'' (metricsCertName F),
      flag_arg ''metrics-cert-key'' (metricsCertKey F),
      flag_arg ''enable-http2'' (show_bool (enableHTTP2 F))]"

definition proper_key :: "string \<Rightarrow> bool" where
  "proper_key key \<longleftrightarrow> key \<noteq> '''' \<and> hd key \<noteq> CHR ''-'' \<and> CHR ''='' \<notin> set key"

lemma takeWhile_key: "c \<notin> set key \<Longrightarrow> takeWhile (\<lambda>a. a \<noteq> c) (key @ c # v) = key"
  by (induction key) auto

lemma dropWhile_key: "c \<notin> set key \<Longrightarrow> dropWhile (\<lambda>a. a \<noteq> c) (key @ c # v) = c # v"
  by (induction key) auto

lemma parse_flag_arg:
  assumes "proper_key key" "look key = Some f" "set_flag f v st = Some st'"
  shows "parse_flags look (flag_arg key v # args) st = parse_flags look args st'"
proof -
  have "key \<noteq> ''''" "hd key \<noteq> CHR ''-''" "hd key \<noteq> CHR ''=''" "CHR ''='' \<notin> set key"
    using assms(1) by (auto simp: proper_key_def dest: hd_in_set)
  then have "parse_one look (flag_arg key v) args st = Next st' args"
    using assms(2,3)
    by (simp add: parse_one_def flag_arg_def flag_body_def flag_key_def takeWhile_key dropWhile_key
        Let_def set_value_def)
  then show ?thesis by (subst parse_flags.simps) simp
qed

lemma parse_own_flag:
  assumes "map_of operator_flags key = Some f" "proper_key key" "set_flag f v F = Some F'"
  shows "parse_flags (command_line others) (flag_arg key v # args) (F, z) =
    parse_flags (command_line others) args (F', z)"
  by (rule parse_flag_arg [of key _ "own_flag f"])
     (use assms in \<open>cases f; simp add: command_line_def\<close>)+

lemma ParseBool_show_bool [simp]: "ParseBool (show_bool b) = Some b"
  by (simp add: ParseBool_def show_bool_def)

lemma parse_string_flag:
  assumes "map_of operator_flags key = Some (StringVar upd)" "proper_key key"
  shows "parse_flags (command_line others) (flag_arg key v # args) (F, z) =
    parse_flags (command_line others) args (upd (\<lambda>_. v) F, z)"
  by (rule parse_own_flag [OF assms]) (simp add: StringVar_def)

lemma parse_bool_flag:
  assumes "map_of operator_flags key = Some (BoolVar upd)" "proper_key key"
  shows "parse_flags (command_line others) (flag_arg key (show_bool b) # args) (F, z) =
    parse_flags (command_line others) args (upd (\<lambda>_. b) F, z)"
  by (rule parse_own_flag [OF assms]) (simp add: BoolVar_def)

lemma string_flags:
  "map_of operator_flags ''metrics-bind-address'' = Some (StringVar metricsAddr_update)"
  "map_of operator_flags ''health-probe-bind-address'' = Some (StringVar probeAddr_update)"
  "map_of operator_flags ''webhook-cert-path'' = Some (StringVar webhookCertPath_update)"
  "map_of operator_flags ''webhook-cert-name'' = Some (StringVar webhookCertName_update)"
  "map_of operator_flags ''webhook-cert-key'' = Some (StringVar webhookCertKey_update)"
  "map_of operator_flags ''metrics-cert-path'' = Some (StringVar metricsCertPath_update)"
  "map_of operator_flags ''metrics-cert-name'' = Some (StringVar metricsCertName_update)"
  "map_of operator_flags ''metrics-cert-key'' = Some (StringVar metricsCertKey_update)"
  by (simp_all add: operator_flags_def)

lemma bool_flags:
  "map_of operator_flags ''leader-elect'' = Some (BoolVar enableLeaderElection_update)"
  "map_of operator_flags ''metrics-secure'' = Some (BoolVar secureMetrics_update)"
  "map_of operator_flags ''enable-http2'' = Some (BoolVar enableHTTP2_update)"
  by (simp_all add: operator_flags_def)

text \<open>C33: The command line carries the flags. Every choice of the eleven flags, printed as
  arguments, is parsed back to itself, whatever flags the other packages register, with nothing
  left over: names and defaults of the flags are distinct and each flag sets its own field only.\<close>

theorem flags_roundtrip:
  "Parse others (print_flags F) z = Inr ((F, z), [])"
  unfolding Parse_def print_flags_def
  by (simp add: string_flags [THEN parse_string_flag] bool_flags [THEN parse_bool_flag]
        proper_key_def default_flags_def parse_flags.simps [of _ "[]"])

subsection \<open>Flags that are not given\<close>

definition names_flag :: "string \<Rightarrow> string \<Rightarrow> bool" where
  "names_flag key a \<longleftrightarrow> prefix (''-'' @ key) a \<or> prefix (''--'' @ key) a"

lemma flag_key_named:
  assumes "\<not> length a < 2" "a ! 0 = CHR ''-''"
  shows "names_flag (flag_key a) a"
proof -
  from assms obtain b rest where a: "a = CHR ''-'' # b # rest"
    by (cases a rule: remdups_adj.cases) auto
  have "prefix (takeWhile P xs) xs" for P and xs :: string
    by (metis prefixI takeWhile_dropWhile_id)
  then show ?thesis
    by (simp add: names_flag_def a flag_key_def flag_body_def)
qed

lemma parse_flags_keeps:
  assumes "parse_flags look args st = Inr (st', rest)"
    and "\<And>key f v st st'. \<lbrakk>look key = Some f; key \<noteq> key0; set_flag f v st = Some st'\<rbrakk> \<Longrightarrow> P st' = P st"
    and "\<forall>a \<in> set args. \<not> names_flag key0 a"
  shows "P st' = P st"
  using assms(1,3)
proof (induction "length args" arbitrary: args st rule: less_induct)
  case less
  show ?case
  proof (cases args)
    case Nil
    then show ?thesis using less.prems by (simp add: parse_flags.simps)
  next
    case (Cons s args')
    show ?thesis
    proof (cases "parse_one look s args' st")
      case (Next st1 args1)
      then have s: "\<not> length s < 2" "s ! 0 = CHR ''-''"
        and sub: "set args1 \<subseteq> set args'"
        and "\<exists>f v. look (flag_key s) = Some f \<and> set_flag f v st = Some st1"
        by (auto simp: parse_one_def set_value_def Let_def split: if_splits option.splits list.splits)
      moreover have "flag_key s \<noteq> key0"
        using flag_key_named [OF s] less.prems(2) Cons by auto
      ultimately have "P st1 = P st" using assms(2) by blast
      moreover have "P st' = P st1"
        using less.hyps [of args1 st1] less.prems Cons Next sub parse_one_shorter [OF Next]
        by (auto simp: parse_flags.simps [of look "s # args'"])
      ultimately show ?thesis by simp
    qed (use less.prems(1) Cons in \<open>simp_all add: parse_flags.simps [of look "s # args'"]\<close>)
  qed
qed

text \<open>The protocols a server offers when its options have changed a configuration.\<close>

definition offered :: "tls_option list \<Rightarrow> tls_config \<Rightarrow> string list" where
  "offered opts c = NextProtos (fold (\<lambda>opt. opt) opts c)"

lemma set_other_flag:
  "set_flag (other_flag f) v (F, z) = Some (F', z') \<Longrightarrow> F' = F"
  by (cases f) auto

lemma set_own_flag:
  "set_flag (own_flag f) v (F, z) = Some (F', z') \<Longrightarrow> set_flag f v F = Some F'"
  by (cases f) auto

definition keeps :: "('s \<Rightarrow> 'b) \<Rightarrow> 's flag \<Rightarrow> bool" where
  "keeps g f \<longleftrightarrow> (\<forall>v F F'. set_flag f v F = Some F' \<longrightarrow> g F' = g F)"

lemma keepsD: "\<lbrakk>keeps g f; set_flag f v F = Some F'\<rbrakk> \<Longrightarrow> g F' = g F"
  by (auto simp: keeps_def)

lemma keeps_StringVar: "(\<And>v F. g (upd (\<lambda>_. v) F) = g F) \<Longrightarrow> keeps g (StringVar upd)"
  by (simp add: keeps_def StringVar_def)

lemma keeps_BoolVar: "(\<And>b F. g (upd (\<lambda>_. b) F) = g F) \<Longrightarrow> keeps g (BoolVar upd)"
  by (auto simp: keeps_def BoolVar_def)

lemma own_flags_keep_http2:
  "\<lbrakk>map_of operator_flags key = Some f; key \<noteq> ''enable-http2''\<rbrakk> \<Longrightarrow> keeps enableHTTP2 f"
  unfolding operator_flags_def map_of.simps fst_conv snd_conv fun_upd_apply
  by (simp only: split: if_splits) (auto simp: keeps_StringVar keeps_BoolVar)

lemma http2_flag_kept:
  assumes "Parse others args z = Inr ((F, z'), rest)"
    and "\<forall>a \<in> set args. \<not> names_flag ''enable-http2'' a"
  shows "\<not> enableHTTP2 F"
proof -
  have "(enableHTTP2 \<circ> fst) (F, z') = (enableHTTP2 \<circ> fst) (default_flags, z)"
  proof (rule parse_flags_keeps [OF assms(1) [unfolded Parse_def] _ assms(2)])
    fix key v and f :: "(OperatorFlags \<times> 'a) flag" and st st'
    assume "command_line others key = Some f" "key \<noteq> ''enable-http2''" "set_flag f v st = Some st'"
    then show "(enableHTTP2 \<circ> fst) st' = (enableHTTP2 \<circ> fst) st"
      by (cases st; cases st')
         (auto simp: command_line_def split: option.splits
           dest!: set_other_flag set_own_flag dest: keepsD [OF own_flags_keep_http2])
  qed
  then show ?thesis by (simp add: default_flags_def)
qed

text \<open>C31: HTTP/2 is off unless it is asked for. Whatever the command line holds, if no argument of it
  names the flag enable-http2, both servers of the manager offer HTTP/1.1 only, whatever
  configuration their options start from: no other flag, no value of a flag and no flag of
  another package turns HTTP/2 on.\<close>

theorem http2_off_unless_asked:
  assumes "Parse others args z = Inr ((F, z'), rest)"
    and "\<forall>a \<in> set args. \<not> names_flag ''enable-http2'' a"
  shows "offered (wh_TLSOpts (mo_WebhookServer (manager_options_of F))) c = [''http/1.1'']
     \<and> offered (ms_TLSOpts (mo_Metrics (manager_options_of F))) c = [''http/1.1'']"
  using http2_flag_kept [OF assms]
  by (simp add: manager_options_of_def webhookServerOptions_def metricsServerOptions_def tlsOpts_def
      offered_def disableHTTP2_def Let_def)

subsection \<open>Order of the start-up\<close>

text \<open>The steps of a start-up that succeeds, and the run of a list of steps up to the first that
  fails. The steps with their answers are recorded beside the world.\<close>

definition startup_plan :: "(string \<Rightarrow> string) \<Rightarrow> OperatorFlags \<Rightarrow> boot_step list" where
  "startup_plan Getenv F =
     [GetConfigOrDie, NewManager (manager_options_of F), CompleteController agenttask_controller]
     @ (if Getenv ''ENABLE_WEBHOOKS'' = ''false'' then [] else [CompleteWebhook AgentTask_kind])
     @ [AddHealthzCheck ''healthz'', AddReadyzCheck ''readyz'', StartManager]"

fun run_plan :: "'w boot \<Rightarrow> boot_step list \<Rightarrow> 'w \<Rightarrow> nat \<times> 'w" where
  "run_plan boot [] w = (0, w)"
| "run_plan boot (step # steps) w =
     (case boot step w of (Some err, w') \<Rightarrow> (1, w') | (None, w') \<Rightarrow> run_plan boot steps w')"

definition recorded :: "'w boot \<Rightarrow> ('w \<times> (boot_step \<times> gerror option) list) boot" where
  "recorded boot step = (\<lambda>(w, log). case boot step w of (r, w') \<Rightarrow> (r, (w', log @ [(step, r)])))"

lemma startup_runs_plan: "startup boot Getenv F w = run_plan boot (startup_plan Getenv F) w"
  by (auto simp: startup_def startup_plan_def or_exit_def SetupWithManager_def
      SetupAgentTaskWebhookWithManager_def split: prod.splits option.splits)

lemma recorded_simps:
  "recorded boot step (w, log) = (case boot step w of (r, w') \<Rightarrow> (r, (w', log @ [(step, r)])))"
  by (simp add: recorded_def)

definition run_log :: "nat \<Rightarrow> boot_step list \<Rightarrow> (boot_step \<times> gerror option) list \<Rightarrow> bool" where
  "run_log code steps log \<longleftrightarrow> prefix (map fst log) steps
     \<and> (code = 0 \<longrightarrow> map fst log = steps \<and> list_all (\<lambda>(s, r). r = None) log)
     \<and> (code \<noteq> 0 \<longrightarrow> code = 1 \<and> log \<noteq> [] \<and> snd (last log) \<noteq> None
          \<and> list_all (\<lambda>(s, r). r = None) (butlast log))"

lemma run_log_Nil: "run_log 0 [] []"
  by (simp add: run_log_def)

lemma run_log_ok: "run_log code steps log \<Longrightarrow> run_log code (s # steps) ((s, None) # log)"
  by (cases "code = 0") (simp_all add: run_log_def)

lemma run_log_failed: "run_log 1 (s # steps) [(s, Some err)]"
  by (simp add: run_log_def)

lemma run_plan_record:
  "run_plan (recorded boot) steps (w, log) = (code, (w', log')) \<Longrightarrow>
     \<exists>done_steps. log' = log @ done_steps \<and> run_log code steps done_steps"
proof (induction steps arbitrary: w log)
  case Nil
  then show ?case by (simp add: run_log_Nil)
next
  case (Cons s steps)
  obtain r w1 where step: "boot s w = (r, w1)" by fastforce
  show ?case
  proof (cases r)
    case None
    with Cons.prems step have "run_plan (recorded boot) steps (w1, log @ [(s, None)]) = (code, (w', log'))"
      by (simp add: recorded_simps)
    from Cons.IH [OF this] run_log_ok show ?thesis by fastforce
  next
    case (Some err)
    with Cons.prems step have "log' = log @ [(s, Some err)]" "code = 1"
      by (simp_all add: recorded_simps)
    with run_log_failed show ?thesis by blast
  qed
qed

lemma startup_log:
  "startup (recorded boot) Getenv F (w, []) = (code, (w', log)) \<Longrightarrow> run_log code (startup_plan Getenv F) log"
  unfolding startup_runs_plan by (drule run_plan_record) simp

text \<open>C32: The start-up is in order and stops at the first failure. For every behaviour of the
  libraries, the steps the process attempts are a prefix of the plan (the kube config, the
  manager with the options of the flags, the controller, the webhook unless the environment
  disables it, the two probes, the run of the manager); each step but the last has succeeded;
  the exit status is 0 exactly when the whole plan has succeeded and 1 when a step failed. So the
  manager never runs with a controller, a webhook or a probe missing.\<close>

theorem startup_stops_at_first_failure:
  assumes "startup (recorded boot) Getenv F (w, []) = (code, (w', log))"
  shows "prefix (map fst log) (startup_plan Getenv F)
     \<and> (code = 0 \<longrightarrow> map fst log = startup_plan Getenv F \<and> list_all (\<lambda>(s, r). r = None) log)
     \<and> (code \<noteq> 0 \<longrightarrow> code = 1 \<and> log \<noteq> [] \<and> snd (last log) \<noteq> None
          \<and> list_all (\<lambda>(s, r). r = None) (butlast log))"
  by (rule startup_log [OF assms, unfolded run_log_def])

text \<open>A bad command line starts nothing: when the flags cannot be parsed the process exits,
  with status 0 for a request for help and 2 otherwise, and no step of the start-up is
  attempted.\<close>

theorem bad_flags_start_nothing:
  assumes "Parse others args z = Inl e"
  shows "main others z (recorded boot) Getenv args (w, []) = (if e = HelpRequested then 0 else 2, (w, []))"
  using assms by (simp add: main_def parse_exit_def)

subsection \<open>The properties at a concrete command line\<close>

definition sample_args :: "string list" where
  "sample_args = [''--leader-elect'', ''-metrics-bind-address'', '':8443'',
     ''--health-probe-bind-address=:8081'']"

definition sample_flags :: OperatorFlags where
  "sample_flags = default_flags\<lparr>enableLeaderElection := True, metricsAddr := '':8443''\<rparr>"

definition sample_boot :: "unit boot" where
  "sample_boot step w = (if step = StartManager then Some NilDereference else None, w)"

lemma sample_parse: "Parse (\<lambda>_. None) sample_args () = Inr ((sample_flags, ()), [])"
  by (simp add: Parse_def sample_args_def parse_flags.simps parse_one_def flag_body_def flag_key_def
      command_line_def operator_flags_def set_value_def StringVar_def BoolVar_def ParseBool_def Let_def
      sample_flags_def default_flags_def)

lemma http2_off_unless_asked_witness:
  "offered (wh_TLSOpts (mo_WebhookServer (manager_options_of sample_flags)))
       \<lparr>NextProtos = [''h2'']\<rparr> = [''http/1.1'']
   \<and> offered (ms_TLSOpts (mo_Metrics (manager_options_of sample_flags)))
       \<lparr>NextProtos = [''h2'']\<rparr> = [''http/1.1'']"
  by (rule http2_off_unless_asked [OF sample_parse])
     (simp add: sample_args_def names_flag_def)

lemma startup_stops_at_first_failure_witness:
  "\<exists>code log. code \<noteq> 0 \<and> snd (last log) = Some NilDereference
     \<and> startup (recorded sample_boot) (\<lambda>_. '''') sample_flags ((), []) = (code, ((), log))
     \<and> prefix (map fst log) (startup_plan (\<lambda>_. '''') sample_flags)"
proof -
  obtain code log where run:
    "startup (recorded sample_boot) (\<lambda>_. '''') sample_flags ((), []) = (code, ((), log))"
    by (metis old.unit.exhaust prod.exhaust)
  moreover from run have "code = 1" "snd (last log) = Some NilDereference"
    by (auto simp: startup_runs_plan startup_plan_def recorded_def sample_boot_def)
  ultimately show ?thesis
    using startup_stops_at_first_failure [OF run] by auto
qed

lemma bad_flags_start_nothing_witness:
  "main (\<lambda>_. None) () (recorded sample_boot) (\<lambda>_. '''') [''--no-such-flag''] ((), []) = (2, ((), []))"
proof -
  have "Parse (\<lambda>_. None) [''--no-such-flag''] () = Inl (NotDefined ''no-such-flag'')"
    by (simp add: Parse_def parse_flags.simps parse_one_def flag_body_def flag_key_def
        command_line_def operator_flags_def Let_def)
  from bad_flags_start_nothing [OF this] show ?thesis by simp
qed

end
