(* ===== verification/WorkQueue.thy ===== *)
theory WorkQueue
  imports QuietReconcile Startup
begin

text \<open>
  Event-driven control: the work queue of the controller, the watches its builder sets up
  (agenttask_controller.go, SetupWithManager), the reconciler and the API server with its other
  actors, composed. A key is taken from the queue, served by one reconcile, and put back when the
  reconcile fails or asks for it; every change a watch reports puts a key into the queue, also
  while it is served. The watches are the parameter \<open>notify\<close>, which turns a change of the API
  server's state into keys; what it is relied on is what the builder documents for the
  kinds the controller is for and owns.
\<close>

subsection \<open>Watches\<close>

abbreviation pods :: "shared \<Rightarrow> NamespacedName \<rightharpoonup> Pod" where
  "pods w \<equiv> map_of (cl_pods (sh_cluster w))"

text \<open>The task without its resource version: an update that changes nothing has no event.\<close>

definition content :: "AgentTask \<Rightarrow> AgentTask" where
  "content t = t\<lparr>task_Meta := (task_Meta t)\<lparr>om_ResourceVersion := ''''\<rparr>\<rparr>"

text \<open>The AgentTask that controls a pod: its first controlling owner, in the pod's namespace.\<close>

definition controller_key :: "Pod \<Rightarrow> NamespacedName option" where
  "controller_key p = (case find (\<lambda>r. or_Controller r = Some True) (om_OwnerReferences (pod_Meta p)) of
     None \<Rightarrow> None
   | Some r \<Rightarrow> (if or_Kind r = ''AgentTask'' \<and> or_APIVersion r = ''execution.agenttask.io/v1alpha1''
       then Some (NamespacedName (om_Namespace (pod_Meta p)) (or_Name r)) else None))"

type_synonym watch = "shared \<Rightarrow> shared \<Rightarrow> NamespacedName set"

definition watches :: "controller_spec \<Rightarrow> watch \<Rightarrow> bool" where
  "watches spec notify \<longleftrightarrow>
     (ctl_For spec = AgentTask_kind \<longrightarrow> (\<forall>w w' k.
        map_option content (tasks w k) \<noteq> map_option content (tasks w' k) \<longrightarrow> k \<in> notify w w'))
   \<and> (Pod_kind \<in> set (ctl_Owns spec) \<longrightarrow> (\<forall>w w' q p k.
        pods w q \<noteq> pods w' q \<longrightarrow> pods w q = Some p \<or> pods w' q = Some p \<longrightarrow>
        controller_key p = Some k \<longrightarrow> k \<in> notify w w'))"

text \<open>The keys heard of while a history is made, by the other actors' changes and by its own.\<close>

fun heard :: "(nat \<Rightarrow> shared \<Rightarrow> shared) \<Rightarrow> watch \<Rightarrow> event list \<Rightarrow> shared \<Rightarrow> NamespacedName set" where
  "heard others notify [] w = {}"
| "heard others notify (e # es) w =
     (let v = before_request others e w; w' = effect (shared_env others) e w in
      notify w v \<union> notify v w' \<union> heard others notify es w')"

lemma heard_append [simp]:
  "heard others notify (xs @ ys) w =
     heard others notify xs w \<union> heard others notify ys (replay (shared_env others) xs w)"
  by (induction xs arbitrary: w) (auto simp: Let_def)

subsection \<open>The composed system\<close>

text \<open>
  What the operator relies on: a pod under the name the operator gives a task's pod is controlled
  by that task, and a scheduled or running task refers to its own pod or to a sandbox. The first
  is asked of the other actors; the second the operator keeps.
\<close>

definition tidy :: "shared \<Rightarrow> bool" where
  "tidy w \<longleftrightarrow> (\<forall>q p. pods w q = Some p \<longrightarrow> object_key (pod_Meta p) = q
     \<and> (\<forall>k. q = own_pod_key k \<longrightarrow> controller_key p = Some k))"

definition ref_own :: "NamespacedName \<Rightarrow> AgentTask \<Rightarrow> bool" where
  "ref_own k t \<longleftrightarrow> (task_Phase t \<in> {AgentTaskPhaseScheduled, AgentTaskPhaseRunning} \<longrightarrow>
     ref_Kind (status_PodRef (task_Status t)) = ''Sandbox'' \<or> pod_key t = own_pod_key k)"

definition own_refs :: "shared \<Rightarrow> bool" where
  "own_refs w \<longleftrightarrow> (\<forall>k t. tasks w k = Some t \<longrightarrow> ref_own k t)"

definition leaves_tidy :: "(nat \<Rightarrow> shared \<Rightarrow> shared) \<Rightarrow> bool" where
  "leaves_tidy others \<longleftrightarrow> (\<forall>n w. tidy w \<longrightarrow> tidy (others n w))"

text \<open>
  The queue is a set: adding a key twice is adding it once. The informers start by queueing
  every stored task. Timers and resyncs may add any key at any time.
\<close>

inductive system ::
  "(nat \<Rightarrow> shared \<Rightarrow> shared) \<Rightarrow> watch \<Rightarrow> shared \<Rightarrow> NamespacedName set \<Rightarrow> bool"
  for others notify where
  boot: "\<lbrakk>shared_wf w; tidy w; own_refs w; dom (tasks w) \<subseteq> Q\<rbrakk> \<Longrightarrow> system others notify w Q"
| serve: "\<lbrakk>system others notify w Q; k \<in> Q; run_state (Reconcile (shared_env others) k) (start w) = (r, s)\<rbrakk>
     \<Longrightarrow> system others notify (st_world s)
           (Q - {k} \<union> (if calm r then {} else {k}) \<union> heard others notify (st_log s) w)"
| act: "\<lbrakk>system others notify w Q; user_step w w'; tidy w'\<rbrakk> \<Longrightarrow> system others notify w' (Q \<union> notify w w')"
| spurious: "\<lbrakk>system others notify w Q; Q \<subseteq> Q'\<rbrakk> \<Longrightarrow> system others notify w Q'"

definition rests :: "shared \<Rightarrow> NamespacedName \<Rightarrow> AgentTask \<Rightarrow> bool" where
  "rests w k t \<longleftrightarrow> at_rest t (\<lambda>p. pods w (own_pod_key k) = Some p)"

text \<open>What a task's reconcile can see of the world, and when it stays the same.\<close>

definition same :: "NamespacedName \<Rightarrow> shared \<Rightarrow> shared \<Rightarrow> bool" where
  "same k w w' \<longleftrightarrow> map_option content (tasks w k) = map_option content (tasks w' k)
     \<and> pods w (own_pod_key k) = pods w' (own_pod_key k)"

lemma same_refl [simp]: "same k w w"
  by (simp add: same_def)

lemma same_trans: "\<lbrakk>same k w v; same k v w'\<rbrakk> \<Longrightarrow> same k w w'"
  by (simp add: same_def)

lemma unheard_same:
  assumes "watches agenttask_controller notify" "tidy w" "tidy w'" "k \<notin> notify w w'"
  shows "same k w w'"
proof -
  let ?q = "own_pod_key k"
  have "pods w ?q = pods w' ?q"
  proof (rule ccontr)
    assume d: "pods w ?q \<noteq> pods w' ?q"
    then obtain p where p: "pods w ?q = Some p \<or> pods w' ?q = Some p"
      by (metis option.exhaust)
    then have "controller_key p = Some k"
      using assms(2,3) by (auto simp: tidy_def)
    with assms(1,4) d p show False
      by (auto simp: watches_def agenttask_controller_def)
  qed
  then show ?thesis
    using assms(1,4) by (auto simp: same_def watches_def agenttask_controller_def)
qed

lemma content_simps:
  assumes "content t = content t'"
  shows "task_Status t = task_Status t'" "task_Spec t = task_Spec t'" "deleting t = deleting t'"
    "has_finalizer t = has_finalizer t'"
proof -
  have eq: "task_Status (content t) = task_Status (content t')" "task_Spec (content t) = task_Spec (content t')"
    "deleting (content t) = deleting (content t')" "has_finalizer (content t) = has_finalizer (content t')"
    using assms by simp_all
  show "task_Status t = task_Status t'" "task_Spec t = task_Spec t'" "deleting t = deleting t'"
    "has_finalizer t = has_finalizer t'"
    using eq by (simp_all add: content_def deleting_def has_finalizer_def)
qed

lemma at_rest_content: "content t = content t' \<Longrightarrow> at_rest t pod = at_rest t' pod"
  by (simp add: at_rest_def waits_for_def content_simps [of t t'])

lemma rests_same:
  assumes "same k w w'" "\<And>t. tasks w k = Some t \<Longrightarrow> rests w k t" "tasks w' k = Some t"
  shows "rests w' k t"
proof -
  obtain u where "tasks w k = Some u" "content u = content t"
    using assms(1,3) by (auto simp: same_def map_option_case split: option.splits)
  then have "rests w k t"
    using assms(2) at_rest_content unfolding rests_def by blast
  moreover have "pods w (own_pod_key k) = pods w' (own_pod_key k)"
    using assms(1) by (simp add: same_def)
  ultimately show ?thesis
    by (simp add: rests_def)
qed

subsection \<open>What every request keeps\<close>

text \<open>The pods after a request.\<close>

fun pods_after :: "event \<Rightarrow> (NamespacedName \<rightharpoonup> Pod) \<Rightarrow> (NamespacedName \<rightharpoonup> Pod)" where
  "pods_after (Create_Pod p r) m = (let q = object_key (pod_Meta p) in if m q = None then m(q \<mapsto> p) else m)"
| "pods_after (Delete_Pod p r) m = m(object_key (pod_Meta p) := None)"
| "pods_after e m = m"

lemma on_cluster_simps:
  "sh_cluster (snd (on_cluster f w)) = snd (f (sh_cluster w))" "fst (on_cluster f w) = fst (f (sh_cluster w))"
  by (simp_all add: on_cluster_def split: prod.split)

lemma write_pods [simp]:
  "cl_pods (sh_cluster (snd (sh_create_task t w))) = cl_pods (sh_cluster w)"
  "cl_pods (sh_cluster (snd (sh_update_task t w))) = cl_pods (sh_cluster w)"
  "cl_pods (sh_cluster (snd (sh_update_status t w))) = cl_pods (sh_cluster w)"
  "cl_pods (sh_cluster (snd (sh_delete_task t w))) = cl_pods (sh_cluster w)"
  by (simp_all add: sh_create_task_def sh_update_task_def sh_update_status_def sh_delete_task_def
      put_def drop_task_def Let_def split: option.split)

lemma effect_pods:
  "pods (effect (shared_env others) e w) = pods_after e (pods (before_request others e w))"
  by (cases e)
     (auto simp: shared_env_def Let_def on_cluster_simps cluster_env_def cl_create_pod_def
        cl_delete_pod_def cl_create_configmap_def cl_create_netpol_def cl_create_sandbox_def
        cl_list_tasks_def store_create_def store_delete_def fun_eq_iff split: prod.split option.split)

text \<open>Reads and writes that succeed, in the state they find.\<close>

lemma genuine_read:
  assumes "genuine (shared_env others) (Get_Task k r) w"
  shows "r = store_get (cl_tasks (sh_cluster (meanwhile others w))) k"
  using assms by (auto simp: shared_env_def Let_def on_cluster_simps cluster_env_def)

lemma genuine_pod_read:
  assumes "genuine (shared_env others) (Get_Pod q r) w"
  shows "r = store_get (cl_pods (sh_cluster (meanwhile others w))) q"
  using assms by (auto simp: shared_env_def Let_def on_cluster_simps cluster_env_def)

lemma genuine_pod_create:
  "genuine (shared_env others) (Create_Pod q (Inr p)) w \<Longrightarrow> p = q"
  by (auto simp: shared_env_def Let_def on_cluster_simps cluster_env_def cl_create_pod_def
      store_create_def split: option.splits)

lemma ref_own_status: "task_Status t = task_Status t' \<Longrightarrow> ref_own k t = ref_own k t'"
  by (simp add: ref_own_def pod_key_def)

lemma ref_own_new [simp]: "task_Phase t = '''' \<Longrightarrow> ref_own k t"
  by (simp add: ref_own_def)

lemma own_refs_put:
  "\<lbrakk>own_refs w; ref_own (object_key (task_Meta t)) t\<rbrakk> \<Longrightarrow> own_refs (put t w)"
  by (simp add: own_refs_def)

lemma own_refs_drop: "own_refs w \<Longrightarrow> own_refs (drop_task k w)"
  by (simp add: own_refs_def)

lemma requests_refs:
  assumes "shared_wf w" "own_refs w"
  shows "own_refs (snd (sh_create_task t w))" "own_refs (snd (sh_update_task t w))"
    "own_refs (snd (sh_delete_task t w))"
proof -
  have old: "ref_own k old" "object_key (task_Meta old) = k" if "tasks w k = Some old" for k old
    using assms that by (auto simp: own_refs_def shared_wf_def)
  have stamped: "own_refs (put (stamp v d u) w)"
    if "tasks w (object_key (task_Meta u)) = Some old" "task_Status u = task_Status old" for v d u old
    by (rule own_refs_put [OF assms(2)])
       (use old(1) [OF that(1)] ref_own_status [of "stamp v d u" old] that(2) in simp)
  have created: "own_refs (put (stamp v d (created_task c t)) w)" for v d c
    by (rule own_refs_put [OF assms(2)]) (simp add: empty_status_def)
  show "own_refs (snd (sh_create_task t w))"
    by (auto simp: sh_create_task_def Let_def assms(2) split: option.split intro: created)
  show "own_refs (snd (sh_update_task t w))"
    by (auto simp: sh_update_task_def Let_def assms(2) split: option.split
        intro!: own_refs_drop stamped)
  show "own_refs (snd (sh_delete_task t w))"
    by (auto simp: sh_delete_task_def Let_def assms(2) old(2) split: option.split
        intro!: own_refs_drop stamped)
qed

lemma own_refs_cong: "tasks w' = tasks w \<Longrightarrow> own_refs w' = own_refs w"
  by (simp add: own_refs_def)

lemma user_step_refs: "\<lbrakk>user_step w w'; shared_wf w; own_refs w\<rbrakk> \<Longrightarrow> own_refs w'"
  by (erule user_step.cases) (auto simp: requests_refs intro: own_refs_cong [THEN iffD2])

lemma users_refs:
  assumes "user_step\<^sup>*\<^sup>* w w'" "shared_wf w" "own_refs w"
  shows "shared_wf w' \<and> own_refs w'"
  using assms by (induction rule: rtranclp_induct) (auto intro: user_step_refs moved_wf user_step_moved)

text \<open>Before a request.\<close>

lemma ticks_keep [simp]:
  "tidy (w\<lparr>sh_ticks := n\<rparr>) = tidy w" "own_refs (w\<lparr>sh_ticks := n\<rparr>) = own_refs w"
  by (simp_all add: tidy_def own_refs_def)

lemma before_request_tidy:
  assumes "fair_others others" "leaves_tidy others" "shared_wf w" "tidy w" "own_refs w"
  shows "tidy (before_request others e w) \<and> own_refs (before_request others e w)"
proof -
  have "tidy (meanwhile others w)" "own_refs (meanwhile others w)"
    using assms users_refs [of w "others (sh_ticks w) w"]
    by (simp_all add: meanwhile_def leaves_tidy_def fair_others_def)
  then show ?thesis using assms(4,5) by (cases e) simp_all
qed

text \<open>A request and its history.\<close>

definition own_answers :: "event list \<Rightarrow> bool" where
  "own_answers h \<longleftrightarrow> (\<forall>t0 p q. fetched h = Some t0 \<longrightarrow>
     Get_Pod (own_pod t0) (Inr p) \<in> set (recent h) \<or> Create_Pod q (Inr p) \<in> set (recent h) \<longrightarrow>
     object_key (pod_Meta p) = own_pod t0)"

definition orderly :: "shared \<Rightarrow> event list \<Rightarrow> bool" where
  "orderly w h \<longleftrightarrow> tracked w h \<and> tidy w \<and> own_refs w \<and> own_answers h"

lemma own_pod_Meta: "task_Meta t = task_Meta t' \<Longrightarrow> own_pod t = own_pod t'"
  by simp

lemma pod_key_of_ref:
  "status_PodRef (task_Status t) = pod_ref p \<Longrightarrow> pod_key t = object_key (pod_Meta p)"
  by (simp add: pod_key_def pod_ref_def object_key_def)

lemma written_ref:
  assumes ok: "reconcile_ok (shared_env others) h (Update_Status t r)"
    and t0: "fetched h = Some t0" and answers: "own_answers h"
    and stored: "ref_own (object_key (task_Meta t0)) t0"
  shows "ref_own (object_key (task_Meta t0)) t"
proof (cases "task_Phase t = AgentTaskPhaseScheduled")
  case True
  then have refs: "refers_to_own t (recent h)" and meta: "task_Meta t = task_Meta t0"
    using ok t0 by (auto simp: reconcile_ok_def)
  have "pod_key t = own_pod t0" if "ref_Kind (status_PodRef (task_Status t)) \<noteq> ''Sandbox''"
  proof -
    from refs that obtain p where p: "status_PodRef (task_Status t) = pod_ref p"
        "Get_Pod (own_pod t0) (Inr p) \<in> set (recent h) \<or> (\<exists>q. Create_Pod q (Inr p) \<in> set (recent h))"
      by (auto simp: refers_to_own_def meta)
    then have "object_key (pod_Meta p) = own_pod t0"
      using answers t0 by (auto simp: own_answers_def)
    then show ?thesis using pod_key_of_ref [OF p(1)] by simp
  qed
  then show ?thesis by (auto simp: ref_own_def own_pod_key_def object_key_def)
next
  case False
  then have "status_PodRef (task_Status t) = status_PodRef (task_Status t0)"
      "phase_step (task_Phase t0) (task_Phase t)"
    using ok t0 by (auto simp: reconcile_ok_def phase_allowed_def)
  then show ?thesis
    using stored False by (auto simp: ref_own_def pod_key_def phase_step_to_simps)
qed

lemma status_write_refs:
  assumes "reconcile_ok (shared_env others) h (Update_Status t r)" "orderly w h"
  shows "own_refs (snd (sh_update_status t w))"
proof -
  obtain t0 where t0: "fetched h = Some t0" "task_Meta t = task_Meta t0"
    using assms(1) by (auto simp: reconcile_ok_def)
  have known: "known w t0" and refs: "own_refs w" and answers: "own_answers h"
    using assms(2) t0(1) by (auto simp: orderly_def tracked_def)
  show ?thesis
  proof (cases "\<exists>old. tasks w (object_key (task_Meta t)) = Some old \<and> version t = version old")
    case True
    then have stored: "tasks w (object_key (task_Meta t0)) = Some t0"
      using update_finds [OF known] t0(2) by metis
    then have "ref_own (object_key (task_Meta t0)) t0"
      using refs by (simp add: own_refs_def)
    then have "ref_own (object_key (task_Meta t0)) t"
      by (rule written_ref [OF assms(1) t0(1) answers])
    then have "ref_own (object_key (task_Meta t0)) (stamp v d (t0\<lparr>task_Status := stored_status (task_Status t)\<rparr>))" for v d
      by (simp add: ref_own_def pod_key_def stored_status_def)
    then show ?thesis
      using stored t0(2) own_refs_put [OF refs]
      by (simp add: sh_update_status_def Let_def)
  qed (simp add: update_refused refs)
qed

lemma effect_refs:
  assumes "reconcile_ok (shared_env others) h e" "orderly (before_request others e w) h"
  shows "own_refs (effect (shared_env others) e w)"
proof (cases "writes_task e")
  case False
  then show ?thesis
    using own_refs_cong [OF effect_elsewhere(1)] assms(2) by (simp add: orderly_def)
next
  case True
  have "shared_wf (before_request others e w)" "own_refs (before_request others e w)"
    using assms(2) by (simp_all add: orderly_def tracked_def)
  then show ?thesis
    using True assms requests_refs status_write_refs [of others h]
    by (cases e) (simp_all add: shared_env_def Let_def)
qed

lemma created_controller:
  assumes "owned_by (shared_env others) t ''-pod'' (pod_Meta p)"
  shows "object_key (pod_Meta p) = own_pod t"
    and "controller_key p = Some (object_key (task_Meta t))"
  using assms
  by (simp_all add: owned_by_def object_key_def controller_key_def task_owner_def shared_env_def Let_def
      cluster_env_def WithKind_def GroupVersion_def)

lemma own_pod_key_inject [simp]: "own_pod_key k = own_pod_key k' \<longleftrightarrow> k = k'"
  by (cases k; cases k') (simp add: own_pod_key_def)

lemma effect_tidy:
  assumes "reconcile_ok (shared_env others) h e" "tidy (before_request others e w)"
  shows "tidy (effect (shared_env others) e w)"
proof (cases e)
  case (Create_Pod p r)
  with assms(1) obtain t0 where "owned_by (shared_env others) t0 ''-pod'' (pod_Meta p)"
    by (auto simp: reconcile_ok_def)
  note c = created_controller [OF this]
  have "controller_key p = Some k" if "object_key (pod_Meta p) = own_pod_key k" for k
    using that c own_pod_key_inject unfolding own_pod_def by metis
  then show ?thesis
    using assms(2) unfolding tidy_def effect_pods by (auto simp: Create_Pod Let_def)
qed (use assms(2) in \<open>unfold tidy_def effect_pods, auto\<close>)

lemma effect_answers:
  assumes ok: "reconcile_ok (shared_env others) h e" and gen: "genuine (shared_env others) e w"
    and tidy: "tidy (before_request others e w)" and answers: "own_answers h"
  shows "own_answers (h @ [e])"
proof (cases e)
  case (Create_Pod q r)
  have "object_key (pod_Meta p) = own_pod t0" if "r = Inr p" "fetched h = Some t0" for p t0
    using ok gen that created_controller(1) [of others t0 p] genuine_pod_create [of others q p w]
    by (auto simp: Create_Pod reconcile_ok_def)
  then show ?thesis
    using answers by (auto simp: own_answers_def Create_Pod)
next
  case (Get_Pod q r)
  have "object_key (pod_Meta p) = q" if "r = Inr p" for p
    using genuine_pod_read [OF gen [unfolded Get_Pod]] that tidy
    by (auto simp: Get_Pod tidy_def store_get_def split: option.splits)
  then show ?thesis
    using answers by (auto simp: own_answers_def Get_Pod)
next
  case (Get_Task q r)
  then show ?thesis by (cases r) (auto simp: own_answers_def)
qed (use answers in \<open>auto simp: own_answers_def\<close>)

lemma orderly_before:
  assumes "fair_others others" "leaves_tidy others" "orderly w h"
  shows "orderly (before_request others e w) h"
  using assms tracked_before [OF assms(1)] before_request_tidy [OF assms(1,2)]
  by (auto simp: orderly_def tracked_def)

lemma orderly_step:
  assumes "fair_others others" "leaves_tidy others" "orderly w h"
    and "reconcile_ok (shared_env others) h e" "genuine (shared_env others) e w"
  shows "orderly (effect (shared_env others) e w) (h @ [e])"
proof -
  have before: "orderly (before_request others e w) h"
    by (rule orderly_before [OF assms(1-3)])
  have "tracked w h" "own_answers h" using assms(3) by (simp_all add: orderly_def)
  then show ?thesis
    using tracked_step [OF assms(1) _ assms(4,5)] effect_refs [OF assms(4) before]
      effect_tidy [OF assms(4)] effect_answers [OF assms(4,5)] before
    by (simp add: orderly_def)
qed

subsection \<open>What an unheard reconcile has seen\<close>

text \<open>What a successful request shows of the task and its pod is so in the world.\<close>

fun reveals :: "NamespacedName \<Rightarrow> shared \<Rightarrow> event \<Rightarrow> bool" where
  "reveals k w (Get_Task q (Inl e)) = (q = k \<longrightarrow> tasks w k = None)"
| "reveals k w (Get_Task q (Inr t)) = (q = k \<longrightarrow> map_option content (tasks w k) = Some (content t))"
| "reveals k w (Get_Pod q (Inr p)) = (q = own_pod_key k \<longrightarrow> pods w q = Some p)"
| "reveals k w (Update_Status u (Inr v)) =
     (object_key (task_Meta u) = k \<longrightarrow> map_option task_Phase (tasks w k) = Some (task_Phase u))"
| "reveals k w (Update_Task u (Inr v)) =
     (object_key (task_Meta u) = k \<longrightarrow> map_option has_finalizer (tasks w k) = Some (has_finalizer u))"
| "reveals k w e = True"

lemma same_views:
  assumes "same k w w'"
  shows "tasks w k = None \<longleftrightarrow> tasks w' k = None" "map_option content (tasks w k) = map_option content (tasks w' k)"
    "map_option task_Phase (tasks w k) = map_option task_Phase (tasks w' k)"
    "map_option has_finalizer (tasks w k) = map_option has_finalizer (tasks w' k)"
    "pods w (own_pod_key k) = pods w' (own_pod_key k)"
proof -
  have views: "map_option task_Phase m = map_option task_Phase (map_option content m)"
    "map_option has_finalizer m = map_option has_finalizer (map_option content m)"
    "m = None \<longleftrightarrow> map_option content m = None" for m
    by (cases m; simp add: content_def has_finalizer_def)+
  show eq: "map_option content (tasks w k) = map_option content (tasks w' k)"
    "pods w (own_pod_key k) = pods w' (own_pod_key k)"
    using assms by (simp_all add: same_def)
  show "tasks w k = None \<longleftrightarrow> tasks w' k = None"
    unfolding views(3) [of "tasks w k"] views(3) [of "tasks w' k"] eq(1) ..
  show "map_option task_Phase (tasks w k) = map_option task_Phase (tasks w' k)"
    unfolding views(1) [of "tasks w k"] views(1) [of "tasks w' k"] eq(1) ..
  show "map_option has_finalizer (tasks w k) = map_option has_finalizer (tasks w' k)"
    unfolding views(2) [of "tasks w k"] views(2) [of "tasks w' k"] eq(1) ..
qed

lemma reveals_same: "same k w w' \<Longrightarrow> reveals k w e \<longleftrightarrow> reveals k w' e"
  by (cases "(k, w, e)" rule: reveals.cases)
     (simp_all add: same_views [of k w w'] del: map_option_eq_Some)

lemma reveals_after:
  fixes others
  defines "E \<equiv> shared_env others"
  assumes wf: "shared_wf (before_request others e w)" and gen: "genuine E e w"
    and same: "same k (before_request others e w) (effect E e w)"
  shows "reveals k (effect E e w) e"
proof (cases "(k, w, e)" rule: reveals.cases)
  case (1 k' w' q err)
  with gen have "store_get (cl_tasks (sh_cluster (meanwhile others w))) q = Inl err"
    using genuine_read [of others q "Inl err" w] by (simp add: E_def)
  then show ?thesis
    using 1 effect_elsewhere(1) [of e others w] by (auto simp: E_def store_get_def split: option.splits)
next
  case (2 k' w' q t)
  with gen have "store_get (cl_tasks (sh_cluster (meanwhile others w))) q = Inr t"
    using genuine_read [of others q "Inr t" w] by (simp add: E_def)
  then show ?thesis
    using 2 effect_elsewhere(1) [of e others w] by (auto simp: E_def store_get_def split: option.splits)
next
  case (3 k' w' q p)
  with gen have "store_get (cl_pods (sh_cluster (meanwhile others w))) q = Inr p"
    using genuine_pod_read [of others q "Inr p" w] by (simp add: E_def)
  then show ?thesis
    using 3 effect_pods [of others e w] by (auto simp: E_def store_get_def split: option.splits)
next
  case (4 k' w' u v)
  then show ?thesis
    using gen wf by (auto simp: E_def sh_update_status_def Let_def shared_wf_def split: option.splits if_splits)
next
  case (5 k' w' u v)
  let ?k = "object_key (task_Meta u)" and ?v = "meanwhile others w"
  from 5 gen obtain old where old: "tasks ?v ?k = Some old" "version u = version old"
    by (auto simp: E_def sh_update_task_def Let_def split: option.splits if_splits)
  have "tasks (effect E e w) k \<noteq> None" if "k = ?k"
    using same_views(1) [OF same] 5 old(1) that by simp
  then show ?thesis
    using 5 old by (auto simp: E_def sh_update_task_def Let_def split: if_splits)
qed simp_all

definition followed :: "(nat \<Rightarrow> shared \<Rightarrow> shared) \<Rightarrow> watch \<Rightarrow> NamespacedName \<Rightarrow> shared \<Rightarrow> shared \<Rightarrow> event list \<Rightarrow> bool" where
  "followed others notify k w0 w h \<longleftrightarrow> orderly w h \<and> replay (shared_env others) h w0 = w
     \<and> (k \<notin> heard others notify h w0 \<longrightarrow> same k w0 w \<and> list_all (reveals k w0) h)"

lemma followed_step:
  fixes others
  defines "E \<equiv> shared_env others"
  assumes fair: "fair_others others" "leaves_tidy others" and watch: "watches agenttask_controller notify"
    and now: "followed others notify k w0 w h" and ok: "reconcile_ok E h e" "genuine E e w"
  shows "followed others notify k w0 (effect E e w) (h @ [e])"
proof -
  let ?v = "before_request others e w" and ?w' = "effect E e w"
  have "orderly w h" and w: "replay E h w0 = w"
    using now by (simp_all add: followed_def E_def)
  note o = this(1) orderly_before [OF fair this(1), of e]
    orderly_step [OF fair this(1) ok [unfolded E_def], folded E_def]
  have "same k w0 ?w' \<and> list_all (reveals k w0) (h @ [e])" if "k \<notin> heard others notify (h @ [e]) w0"
  proof -
    have out: "k \<notin> heard others notify h w0" "k \<notin> notify w ?v" "k \<notin> notify ?v ?w'"
      using that w by (auto simp: E_def Let_def)
    have "same k w ?v" "same k ?v ?w'"
      using o out by (auto simp: orderly_def intro: unheard_same [OF watch])
    moreover have "same k w0 w" "list_all (reveals k w0) h"
      using now out(1) by (simp_all add: followed_def)
    moreover have "reveals k ?w' e"
      unfolding E_def
      by (rule reveals_after) (use o ok(2) \<open>same k ?v ?w'\<close> in \<open>simp_all add: orderly_def tracked_def E_def\<close>)
    ultimately show ?thesis
      using same_trans [of k w0] reveals_same [of k w0 ?w' e] by simp blast
  qed
  then show ?thesis
    using o(3) w by (simp add: followed_def E_def)
qed

lemma reconcile_run:
  assumes "run_state (Reconcile E k) (start w) = (r, s)"
  shows "st_world s = replay E (st_log s) w" "genuine_all E (st_log s) w" "conforms (reconcile_ok E) (st_log s)"
proof -
  obtain es where "st_log s = es" "st_world s = replay E es w" "genuine_all E es w"
    using replays_Reconcile [of E k] assms unfolding replays_def
    by (metis append_Nil snd_conv start_simps)
  then show "st_world s = replay E (st_log s) w" "genuine_all E (st_log s) w" by simp_all
  have "reconciled E r s"
    by (rule wp_runD [OF Reconcile_conform assms]) simp
  then show "conforms (reconcile_ok E) (st_log s)" by (simp add: reconciled_def)
qed

definition settled_store :: "shared \<Rightarrow> bool" where
  "settled_store w \<longleftrightarrow> shared_wf w \<and> tidy w \<and> own_refs w"

lemma served:
  assumes "fair_others others" "leaves_tidy others" "watches agenttask_controller notify"
    and "settled_store w" "run_state (Reconcile (shared_env others) k) (start w) = (r, s)"
  shows "followed others notify j w (st_world s) (st_log s)"
proof -
  note run = reconcile_run [OF assms(5)]
  have "followed others notify j w w []"
    using assms(4) by (simp add: followed_def orderly_def tracked_def own_answers_def settled_store_def)
  from this run(3,2) show ?thesis
    unfolding run(1) by (rule replay_invariant) (rule followed_step [OF assms(1-3)])
qed

lemma followed_settled: "followed others notify k w0 w h \<Longrightarrow> settled_store w"
  by (simp add: followed_def orderly_def tracked_def settled_store_def)

text \<open>A served task that was not heard of and needs no retry is at rest.\<close>

lemma concluded_rests:
  assumes w0: "settled_store w0" and same: "same k w0 w" and shown: "list_all (reveals k w0) es"
    and read: "concludes_read k es" and t: "tasks w k = Some t"
  shows "rests w k t"
proof -
  obtain t0 where t0: "tasks w0 k = Some t0" "content t0 = content t"
    using same t by (auto simp: same_def map_option_case split: option.splits)
  have evidence: "reveals k w0 e" if "e \<in> set es" for e
    using shown that by (simp add: list_all_iff)
  have "Get_Task k (Inl e) \<notin> set es" for e
    using evidence [of "Get_Task k (Inl e)"] t0 by auto
  then obtain u where u: "Get_Task k (Inr u) \<in> set es" "concluded u es"
    using read by (auto simp: concludes_read_def)
  then have c: "content u = content t0"
    using evidence [OF u(1)] t0 by simp
  have key: "object_key (task_Meta t0) = k" and ref: "ref_own k t0"
    using w0 t0(1) by (auto simp: settled_store_def shared_wf_def own_refs_def)
  have "object_key (task_Meta (content u)) = object_key (task_Meta (content t0))" using c by simp
  then have ukey: "object_key (task_Meta u) = k"
    using key by (simp add: content_def object_key_def)
  from u(2) consider (rest) "at_rest u (\<lambda>p. Get_Pod (pod_key u) (Inr p) \<in> set es)"
    | (fin) e where "e \<in> set es" "writes_finalizer u e"
    | (phase) e where "e \<in> set es" "writes_phase (\<lambda>q. q \<noteq> task_Phase u) u e"
    by (auto simp: concluded_def list_ex_iff)
  then show ?thesis
  proof cases
    case rest
    have "pods w0 (own_pod_key k) = Some p" if "Get_Pod (own_pod_key k) (Inr p) \<in> set es" for p
      using evidence [OF that] by simp
    moreover have "ref_own k u"
      using ref ref_own_status [of u t0] content_simps(1) [OF c] by simp
    ultimately have "rests w0 k u"
      using rest by (auto simp: rests_def at_rest_def waits_for_def ref_own_def)
    then have "rests w0 k t0" using at_rest_content [OF c] by (simp add: rests_def)
    then show ?thesis by (intro rests_same [OF same _ t]) (use t0 in simp)
  next
    case fin
    obtain v x where e: "e = Update_Task v (Inr x)" "object_key (task_Meta v) = k"
        "has_finalizer v \<noteq> has_finalizer t0"
      using fin(2) ukey content_simps(4) [OF c]
      by (cases "(u, e)" rule: writes_finalizer.cases; simp; blast)
    then show ?thesis
      using evidence [OF fin(1)] t0(1) by simp
  next
    case phase
    obtain v x where e: "e = Update_Status v (Inr x)" "object_key (task_Meta v) = k"
        "task_Phase v \<noteq> task_Phase t0"
      using phase(2) ukey content_simps(1) [OF c]
      by (cases "(\<lambda>q. q \<noteq> task_Phase u, u, e)" rule: writes_phase.cases; simp; blast)
    then show ?thesis
      using evidence [OF phase(1)] t0(1) by simp
  qed
qed

subsection \<open>No lost wake-ups\<close>

definition attended :: "shared \<Rightarrow> NamespacedName set \<Rightarrow> bool" where
  "attended w Q \<longleftrightarrow> settled_store w \<and> (\<forall>k t. tasks w k = Some t \<longrightarrow> k \<notin> Q \<longrightarrow> rests w k t)"

lemma attended_serve:
  assumes env: "fair_others others" "leaves_tidy others" "watches agenttask_controller notify"
    and now: "attended w Q" and run: "run_state (Reconcile (shared_env others) k) (start w) = (r, s)"
  shows "attended (st_world s)
    (Q - {k} \<union> (if calm r then {} else {k}) \<union> heard others notify (st_log s) w)"
proof -
  have w: "settled_store w" using now by (simp add: attended_def)
  note follow = served [OF env w run]
  have "rests (st_world s) j t"
    if t: "tasks (st_world s) j = Some t"
      and out: "j \<notin> Q - {k} \<union> (if calm r then {} else {k}) \<union> heard others notify (st_log s) w" for j t
  proof -
    have seen: "same j w (st_world s)" "list_all (reveals j w) (st_log s)"
      using follow [of j] out by (simp_all add: followed_def)
    show ?thesis
    proof (cases "j = k")
      case True
      then have "calm r" using out by (auto split: if_splits)
      then have "concludes_read j (st_log s)"
        using wp_runD [OF Reconcile_concludes run] True by simp
      then show ?thesis by (rule concluded_rests [OF w seen _ t])
    next
      case False
      then have "\<And>t. tasks w j = Some t \<Longrightarrow> rests w j t"
        using now out by (auto simp: attended_def)
      then show ?thesis by (rule rests_same [OF seen(1) _ t])
    qed
  qed
  then show ?thesis
    using followed_settled [OF follow] by (auto simp: attended_def)
qed

lemma attended_act:
  assumes "watches agenttask_controller notify" "attended w Q" "user_step w w'" "tidy w'"
  shows "attended w' (Q \<union> notify w w')"
proof -
  have w: "shared_wf w" "tidy w" "own_refs w" using assms(2) by (simp_all add: attended_def settled_store_def)
  have "settled_store w'"
    using moved_wf [OF user_step_moved [OF assms(3)] w(1)] user_step_refs [OF assms(3) w(1,3)] assms(4)
    by (simp add: settled_store_def)
  moreover have "rests w' k t" if "tasks w' k = Some t" "k \<notin> Q \<union> notify w w'" for k t
    using that unheard_same [OF assms(1) w(2) assms(4)] assms(2)
    by (intro rests_same [of k w w']) (auto simp: attended_def)
  ultimately show ?thesis by (simp add: attended_def)
qed

lemma system_attended:
  assumes "fair_others others" "leaves_tidy others" "watches agenttask_controller notify"
    and "system others notify w Q"
  shows "attended w Q"
  using assms(4)
proof induction
  case (boot w Q)
  then show ?case by (auto simp: attended_def settled_store_def)
next
  case (serve w Q k r s)
  then show ?case by (intro attended_serve assms)
next
  case (act w Q w')
  then show ?case by (intro attended_act assms)
next
  case (spurious w Q Q')
  then show ?case by (auto simp: attended_def)
qed


subsection \<open>A running task whose pod is running\<close>

text \<open>The watches as the builder sets them up, and nothing more.\<close>

definition exact_watch :: watch where
  "exact_watch w w' = {k. map_option content (tasks w k) \<noteq> map_option content (tasks w' k)
     \<or> (\<exists>q p. pods w q \<noteq> pods w' q \<and> (pods w q = Some p \<or> pods w' q = Some p) \<and> controller_key p = Some k)}"

lemma exact_watch: "watches spec exact_watch"
  by (auto simp: watches_def exact_watch_def)

lemma no_others: "fair_others no_others" "leaves_tidy no_others"
  by (simp_all add: fair_others_def leaves_tidy_def no_others_def)

definition running_pod :: Pod where
  "running_pod = (task_pod cluster_env sample_task ''sum-code'' ''python:3.11-slim'')
     \<lparr>pod_Status := \<lparr>pst_Phase = PodRunning, pst_ContainerStatuses = []\<rparr>\<rparr>"

definition running_task :: AgentTask where
  "running_task = set_PodRef (pod_ref running_pod) (set_Phase AgentTaskPhaseRunning adopted_sample)"

definition running_shared :: shared where
  "running_shared = (sample_shared running_task)\<lparr>sh_cluster :=
     (sh_cluster (sample_shared running_task))\<lparr>cl_pods := [(NamespacedName ''default'' ''sum-pod'', running_pod)]\<rparr>\<rparr>"

lemmas running_defs = running_shared_def running_task_def running_pod_def sample_shared_def
  adopted_sample_def sample_task_def set_finalizers_def object_key_def empty_meta_def

lemma sum_pod: "NamespacedName ''default'' ''sum-pod'' = own_pod_key k \<longleftrightarrow> k = sample_name"
proof -
  have "NamespacedName ''default'' ''sum-pod'' = own_pod_key sample_name"
    by (simp add: own_pod_key_def)
  then show ?thesis by (metis own_pod_key_inject)
qed

lemma running_settled: "settled_store running_shared"
  unfolding settled_store_def
proof (intro conjI)
  show "shared_wf running_shared"
    using sample_shared_wf [of running_task] by (simp add: shared_wf_def running_shared_def old_version_def)
  show "tidy running_shared"
    by (simp add: tidy_def running_defs sum_pod task_pod_def controller_key_def task_owner_def
        cluster_env_def WithKind_def GroupVersion_def)
  show "own_refs running_shared"
    by (simp add: own_refs_def ref_own_def running_defs pod_key_def own_pod_key_def pod_ref_def task_pod_def)
qed

lemma running_reconciled:
  "\<exists>t p n. run_state (Reconcile (shared_env no_others) sample_name) (start running_shared)
     = ((no_result, None), \<lparr>st_world = running_shared\<lparr>sh_ticks := 2\<rparr>,
          st_log = [Get_Task sample_name (Inr t), Get_Pod n (Inr p)]\<rparr>)"
  by (simp add: Reconcile_def reconcileActive_def checkTimeout_def reconcilePhase_def reconcileRunning_def
      request_defs call_def start_def
      shared_env_def on_cluster_def cluster_env_def meanwhile_def no_others_def running_defs
      Let_def store_get_def stamp_def time_is_zero_def empty_status_def empty_spec_def pod_key_def
      pod_ref_def task_pod_def empty_cluster_def)

lemma exact_watch_none [simp]:
  "\<lbrakk>tasks w = tasks w'; pods w = pods w'\<rbrakk> \<Longrightarrow> exact_watch w w' = {}"
  by (simp add: exact_watch_def)

lemma reads_unheard:
  "heard no_others exact_watch [Get_Task k r, Get_Pod n p] w = {}"
  by (simp add: Let_def meanwhile_def no_others_def shared_env_def on_cluster_def cluster_env_def)

lemma running_system:
  "system no_others exact_watch (running_shared\<lparr>sh_ticks := 2\<rparr>) {}"
proof -
  obtain t p n where run: "run_state (Reconcile (shared_env no_others) sample_name) (start running_shared)
      = ((no_result, None), \<lparr>st_world = running_shared\<lparr>sh_ticks := 2\<rparr>,
          st_log = [Get_Task sample_name (Inr t), Get_Pod n (Inr p)]\<rparr>)"
    using running_reconciled by blast
  have "dom (tasks running_shared) \<subseteq> {sample_name}"
    by (auto simp: running_defs split: if_splits)
  then have "system no_others exact_watch running_shared {sample_name}"
    using running_settled by (intro system.boot) (simp_all add: settled_store_def)
  from system.serve [OF this _ run] show ?thesis
    by (simp add: reads_unheard del: heard.simps)
qed


subsection \<open>Rest\<close>

text \<open>Rest is a fixed point. On a quiescent API server a task at rest whose deadline and time to
  live have not passed is left alone: a reconcile of it ends without an error, asks for no retry and
  changes neither the task nor any other object.\<close>

theorem rest_is_stable:
  assumes "map_of (cl_tasks w) k = Some t" "at_rest t (\<lambda>p. map_of (cl_pods w) (pod_key t) = Some p)"
    and "not_due (cl_now w) t"
  shows "\<exists>r s. run_state (Reconcile cluster_env k) (start w) = (r, s)
     \<and> snd r = None \<and> \<not> res_Requeue (fst r) \<and> st_world s = w"
  using resting_unchanged [OF assms]
  by (auto simp: answers_def wp_def calm_def split: prod.splits)

lemma rest_is_stable_witness:
  "\<exists>r s. run_state (Reconcile cluster_env sample_name) (start (sh_cluster running_shared)) = (r, s)
     \<and> snd r = None \<and> \<not> res_Requeue (fst r) \<and> st_world s = sh_cluster running_shared"
proof (rule rest_is_stable)
  show "map_of (cl_tasks (sh_cluster running_shared)) sample_name = Some (stamp 0 None running_task)"
    by (simp add: running_defs)
  show "at_rest (stamp 0 None running_task)
      (\<lambda>p. map_of (cl_pods (sh_cluster running_shared)) (pod_key (stamp 0 None running_task)) = Some p)"
    by (simp add: at_rest_def waits_for_def awaits_def deleting_def time_is_zero_def has_finalizer_def
        running_defs stamp_def pod_key_def pod_ref_def task_pod_def empty_spec_def)
  show "not_due (cl_now (sh_cluster running_shared)) (stamp 0 None running_task)"
    by (simp add: not_due_def deadline_def running_defs empty_status_def empty_spec_def)
qed

subsection \<open>A missed expiry\<close>

text \<open>An expiry can be missed. The clean-up of a finished task reads the clock twice, to test
  whether its time to live is over and to compute what is left of it. When it ends exactly at the
  first reading, or between the two, the task is not deleted and the reconcile asks to be called
  again after a delay that is not positive, which the work queue takes as no delay at all.\<close>

theorem expiry_can_be_missed:
  assumes "spec_TTLSecondsAfterFinished (task_Spec t) = Some ttl"
    and "status_CompletionTime (task_Status t) = Some c"
    and "env_Now E w = (n1, w1)" "env_Now E w1 = (n2, w2)"
    and "n1 \<le> c + sint ttl * 1000000000" "c + sint ttl * 1000000000 \<le> n2"
  shows "\<exists>d. sint d \<le> 0 \<and> run_state (reconcileFinished E t) (start w) =
     ((no_result\<lparr>res_RequeueAfter := d\<rparr>, None),
      \<lparr>st_world = w2, st_log = [Read_Clock n1, Read_Clock n2]\<rparr>)"
  using assms
  by (intro exI [of _ "time_sub (c + sint ttl * 1000000000) n2"])
     (simp add: reconcileFinished_def Now_def run_call Let_def time_add_def sint_seconds_0
      time_after_def sint_time_sub start_def)

text \<open>A second that ends at the first reading: the work queue hears of no delay.\<close>

lemma expiry_can_be_missed_witness:
  "\<exists>d s. sint d \<le> 0 \<and> run_state (reconcileFinished cluster_env (sample_at AgentTaskPhaseSucceeded))
     (start (sample_cluster (sample_at AgentTaskPhaseSucceeded) 10000000000))
       = ((no_result\<lparr>res_RequeueAfter := d\<rparr>, None), s)"
proof -
  have "sint (10 :: int32) = 10" by simp
  then show ?thesis
    using expiry_can_be_missed [of "sample_at AgentTaskPhaseSucceeded" 10 0 cluster_env
        "sample_cluster (sample_at AgentTaskPhaseSucceeded) 10000000000" 10000000000 _ 10000000000]
    by (simp add: cluster_env_def sample_cluster_def) blast
qed

subsection \<open>A timeout wakes its own task\<close>

lemma deadline_stored:
  "\<lbrakk>deadline t = Some d; task_Spec t' = task_Spec t;
    status_StartTime (task_Status t') = map_option whole_seconds (status_StartTime (task_Status t))\<rbrakk>
   \<Longrightarrow> \<exists>d' \<le> d. deadline t' = Some d'"
  using div_mult_mod_eq [of "the (status_StartTime (task_Status t))" 1000000000]
  by (auto simp: deadline_def whole_seconds_def split: if_splits)

text \<open>An overdue task on a quiet server.\<close>

definition overdue_task :: "shared \<Rightarrow> NamespacedName \<Rightarrow> AgentTask \<Rightarrow> bool" where
  "overdue_task w k t \<longleftrightarrow> settled_store w \<and> tasks w k = Some t \<and> active t
     \<and> \<not> spec_Canceled (task_Spec t) \<and> task_Phase t \<noteq> ''''
     \<and> (\<exists>d < cl_now (sh_cluster w). deadline t = Some d)"

abbreviation timeout_counted :: "event list \<Rightarrow> bool" where
  "timeout_counted es \<equiv> Counter_Inc ''Timeout'' AgentTaskReasonTimeout \<in> set es"

lemma overdue_reconciled:
  assumes "overdue_task w k t"
  shows "wp (Reconcile (shared_env no_others) k) (\<lambda>r s. timeout_counted (st_log s)
     \<and> (\<exists>t'. tasks (st_world s) k = Some t' \<and> task_Phase t' = AgentTaskPhaseTimeout
          \<and> active t' \<and> task_Spec t' = task_Spec t
          \<and> status_StartTime (task_Status t') = map_option whole_seconds (status_StartTime (task_Status t)))
     \<and> cl_now (sh_cluster (st_world s)) = cl_now (sh_cluster w)) (start w)"
proof -
  from assms obtain d where t: "tasks w k = Some t" "active t" "\<not> spec_Canceled (task_Spec t)" "task_Phase t \<noteq> ''''"
    and d: "d < cl_now (sh_cluster w)" "deadline t = Some d" and wf: "shared_wf w" "tidy w"
    by (auto simp: overdue_task_def settled_store_def)
  have key: "object_key (task_Meta t) = k" using wf(1) t(1) by (simp add: shared_wf_def)
  from d(2) obtain st where st: "status_StartTime (task_Status t) = Some st"
      "0 < sint (spec_TimeoutSeconds (task_Spec t))"
      "d = st + (sint (spec_TimeoutSeconds (task_Spec t)) + 2) * 1000000000"
    by (auto simp: deadline_def split: if_splits)
  have live: "time_is_zero (om_DeletionTimestamp (task_Meta t))"
      "agentTaskFinalizer \<in> set (om_Finalizers (task_Meta t))"
    using t(2) by (simp_all add: active_def deleting_def has_finalizer_def)
  have pod: "object_key (pod_Meta p) = q" if "pods w q = Some p" for p q
    using wf(2) that by (simp add: tidy_def)
  have now: "cl_now (sh_cluster (put u v)) = cl_now (sh_cluster v)" for u v
    by (simp add: put_def)
  show ?thesis
    by (cases "pods w (pod_key t)")
       (use t(1,3,4) key st d live pod [of "pod_key t"] in
        \<open>simp_all add: Reconcile_def reconcileActive_def checkTimeout_def task_deadline
          reconcileTimeout_def observe_duration_def effect_defs wp_simps start_def shared_env_def
          on_cluster_def cluster_env_def meanwhile_def no_others_def store_get_def time_after_def
          Let_def sh_update_status_def cl_delete_pod_def store_delete_def active_def deleting_def
          has_finalizer_def now\<close>)
qed

text \<open>C19: Every timeout is counted twice. On an otherwise quiet API server, the reconcile that gives
  an overdue task the phase Timeout is itself heard by the watch on tasks, so the task is queued
  again, and the reconcile that follows finds it still overdue and counts another timeout.\<close>

theorem timeout_counted_twice:
  assumes "watches agenttask_controller notify" and "overdue_task w k t"
    and "task_Phase t \<noteq> AgentTaskPhaseTimeout"
    and "run_state (Reconcile (shared_env no_others) k) (start w) = (r, s)"
    and "run_state (Reconcile (shared_env no_others) k) (start (st_world s)) = (r', s')"
  shows "k \<in> heard no_others notify (st_log s) w \<and> timeout_counted (st_log s)
     \<and> timeout_counted (st_log s')"
proof -
  from assms(2) obtain d where t: "settled_store w" "tasks w k = Some t" "task_Phase t \<noteq> ''''"
    and d: "deadline t = Some d" "d < cl_now (sh_cluster w)"
    by (auto simp: overdue_task_def)
  from wp_runD [OF overdue_reconciled [OF assms(2)] assms(4)] obtain t' where
    once: "timeout_counted (st_log s)" and t': "tasks (st_world s) k = Some t'"
      "task_Phase t' = AgentTaskPhaseTimeout" "active t'" "task_Spec t' = task_Spec t"
      "status_StartTime (task_Status t') = map_option whole_seconds (status_StartTime (task_Status t))"
    and now: "cl_now (sh_cluster (st_world s)) = cl_now (sh_cluster w)"
    by auto
  have follow: "followed no_others notify k w (st_world s) (st_log s)"
    by (rule served [OF no_others assms(1) t(1) assms(4)])
  have heard: "k \<in> heard no_others notify (st_log s) w"
  proof (rule ccontr)
    assume "k \<notin> heard no_others notify (st_log s) w"
    then have "same k w (st_world s)" using follow by (simp add: followed_def)
    then have "task_Phase t = task_Phase t'"
      using same_views(3) [of k w "st_world s"] t(2) t'(1) by simp
    then show False using assms(3) t'(2) by simp
  qed
  obtain d' where "d' \<le> d" "deadline t' = Some d'"
    using deadline_stored [OF d(1) t'(4,5)] by blast
  then have "overdue_task (st_world s) k t'"
    using t' assms(2) d(2) now followed_settled [OF follow]
    by (auto simp: overdue_task_def)
  then show ?thesis
    using wp_runD [OF overdue_reconciled assms(5)] heard once by blast
qed

definition late_task :: AgentTask where
  "late_task = set_status (\<lambda>st. st\<lparr>status_StartTime := Some 0\<rparr>) running_task"

definition late_shared :: shared where
  "late_shared = running_shared\<lparr>sh_cluster := (sh_cluster running_shared)\<lparr>
     cl_tasks := [(sample_name, stamp 0 None late_task)], cl_now := 100000000000\<rparr>\<rparr>"

lemma late_overdue: "overdue_task late_shared sample_name (stamp 0 None late_task)"
proof -
  have "shared_wf (sample_shared late_task)" by (rule sample_shared_wf)
  then have "shared_wf late_shared"
    by (simp add: shared_wf_def old_version_def late_shared_def sample_shared_def running_shared_def
        late_task_def running_task_def adopted_sample_def set_finalizers_def object_key_def)
  moreover have "tidy late_shared"
    using running_settled by (simp add: settled_store_def tidy_def late_shared_def)
  moreover have "own_refs late_shared"
    by (simp add: own_refs_def ref_own_def late_shared_def late_task_def running_defs pod_key_def
        own_pod_key_def pod_ref_def task_pod_def)
  moreover have "sint (60 :: int32) = 60" by simp
  ultimately show ?thesis
    by (simp add: overdue_task_def settled_store_def late_shared_def late_task_def running_defs active_def
        deleting_def time_is_zero_def has_finalizer_def deadline_def empty_spec_def)
qed

lemma timeout_counted_twice_witness:
  "\<exists>r s r' s'. run_state (Reconcile (shared_env no_others) sample_name) (start late_shared) = (r, s)
     \<and> run_state (Reconcile (shared_env no_others) sample_name) (start (st_world s)) = (r', s')
     \<and> sample_name \<in> heard no_others exact_watch (st_log s) late_shared
     \<and> timeout_counted (st_log s) \<and> timeout_counted (st_log s')"
proof -
  obtain r s where run: "run_state (Reconcile (shared_env no_others) sample_name) (start late_shared) = (r, s)"
    by fastforce
  obtain r' s' where again: "run_state (Reconcile (shared_env no_others) sample_name) (start (st_world s)) = (r', s')"
    by fastforce
  have "task_Phase (stamp 0 None late_task) \<noteq> AgentTaskPhaseTimeout"
    by (simp add: late_task_def running_task_def)
  from timeout_counted_twice [OF exact_watch late_overdue this run again] run again show ?thesis
    by blast
qed

end
