(* ===== verification/Quota.thy ===== *)
theory Quota
  imports Webhook
begin

text \<open>
  The limit on active tasks under concurrency. The API server calls the webhook before it
  stores an object, and reviews several creations at the same time; the limit is checked
  against the tasks stored when the review lists them. The step relation interleaves reviews,
  stores, status writes along the phase machine, updates and deletions of one namespace with
  anything that leaves that namespace's tasks alone; at most \<open>m\<close> creations are between
  review and store at any time.
\<close>

definition active_entry :: "string \<Rightarrow> NamespacedName \<times> AgentTask \<Rightarrow> bool" where
  "active_entry ns kt \<longleftrightarrow> nn_Namespace (fst kt) = ns \<and> task_active (snd kt)"

definition active_in :: "string \<Rightarrow> cluster \<Rightarrow> nat" where
  "active_in ns w = length (filter (active_entry ns) (cl_tasks w))"

inductive quota_step ::
  "nat \<Rightarrow> string \<Rightarrow> cluster \<times> AgentTask list \<Rightarrow> cluster \<times> AgentTask list \<Rightarrow> bool"
  for m :: nat and ns :: string where
  review: "\<lbrakk>length fl < m; task_Namespace t = ns;
      snd (fst (run_state (ValidateCreate cluster_env t) (start w))) = None\<rbrakk>
    \<Longrightarrow> quota_step m ns (w, fl) (w, fl @ [t])"
| store: "quota_step m ns (w, fl @ t # fl') (snd (env_CreateTask cluster_env t w), fl @ fl')"
| status_write: "\<lbrakk>map_of (cl_tasks w) (object_key (task_Meta t)) = Some old;
      phase_step (task_Phase old) (task_Phase t)\<rbrakk>
    \<Longrightarrow> quota_step m ns (w, fl) (snd (env_UpdateTaskStatus cluster_env t w), fl)"
| update: "quota_step m ns (w, fl) (snd (env_UpdateTask cluster_env t w), fl)"
| delete: "quota_step m ns (w, fl) (snd (env_DeleteTask cluster_env t w), fl)"
| elsewhere: "filter (\<lambda>kt. nn_Namespace (fst kt) = ns) (cl_tasks w') =
      filter (\<lambda>kt. nn_Namespace (fst kt) = ns) (cl_tasks w)
    \<Longrightarrow> quota_step m ns (w, fl) (w', fl)"

subsection \<open>The bound\<close>

lemma length_filter_update_absent:
  "map_of m k = None \<Longrightarrow> length (filter P (AList.update k x m)) \<le> Suc (length (filter P m))"
  by (induction m) auto

lemma length_filter_update_present:
  "\<lbrakk>map_of m k = Some old; P (k, x) \<Longrightarrow> P (k, old)\<rbrakk>
   \<Longrightarrow> length (filter P (AList.update k x m)) \<le> length (filter P m)"
  by (induction m) auto

lemma length_filter_delete: "length (filter P (AList.delete k m)) \<le> length (filter P m)"
  by (induction m) auto

lemmas active_simps = cluster_env_def active_in_def active_entry_def

lemma listed_active:
  "\<exists>l. fst (env_ListTasks cluster_env ns w) = Inr l
     \<and> length (filter (\<lambda>u. task_Phase u \<notin> terminal_phases) (list_Items l)) = active_in ns w"
  by (simp add: cluster_env_def cl_list_tasks_def filter_map o_def active_in_def
      active_entry_def [abs_def] task_active_terminal [symmetric] conj_commute)

lemma review_admits:
  "snd (fst (run_state (ValidateCreate cluster_env t) (start w))) = None \<longleftrightarrow>
     validateAgentTask t = None \<and> active_in (task_Namespace t) w < 5"
  using listed_active [of "task_Namespace t" w] by (auto simp: ValidateCreate_accepts)

lemma create_active:
  "active_in ns (snd (env_CreateTask cluster_env t w)) \<le> Suc (active_in ns w)"
  by (auto simp: cluster_env_def active_in_def cl_create_task_def store_create_def Let_def
      length_filter_update_absent split: option.splits)

lemma status_write_active:
  assumes "map_of (cl_tasks w) (object_key (task_Meta t)) = Some old"
    and "phase_step (task_Phase old) (task_Phase t)"
  shows "active_in ns (snd (env_UpdateTaskStatus cluster_env t w)) \<le> active_in ns w"
  using assms phase_step_stays_terminal
  by (auto simp: active_simps cl_update_status_def stored_status_def task_active_terminal Let_def
      intro!: length_filter_update_present)

lemma update_active: "active_in ns (snd (env_UpdateTask cluster_env t w)) \<le> active_in ns w"
  by (auto simp: active_simps cl_update_task_def Let_def length_filter_delete task_active_def
      intro!: length_filter_update_present split: option.splits)

lemma delete_active: "active_in ns (snd (env_DeleteTask cluster_env t w)) \<le> active_in ns w"
  by (auto simp: active_simps cl_delete_task_def Let_def length_filter_delete task_active_def
      intro!: length_filter_update_present split: option.splits)

lemma elsewhere_active:
  assumes "filter (\<lambda>kt. nn_Namespace (fst kt) = ns) (cl_tasks w') =
      filter (\<lambda>kt. nn_Namespace (fst kt) = ns) (cl_tasks w)"
  shows "active_in ns w' = active_in ns w"
proof -
  have "active_in ns v = length (filter (\<lambda>kt. task_active (snd kt))
      (filter (\<lambda>kt. nn_Namespace (fst kt) = ns) (cl_tasks v)))" for v
    by (simp add: active_in_def active_entry_def [abs_def] conj_commute)
  then show ?thesis by (simp only: assms)
qed

definition within_limit :: "nat \<Rightarrow> string \<Rightarrow> cluster \<times> AgentTask list \<Rightarrow> bool" where
  "within_limit m ns c \<longleftrightarrow> length (snd c) \<le> m \<and> active_in ns (fst c) + length (snd c) \<le> 4 + m"

lemma quota_step_within_limit:
  assumes "quota_step m ns c c'" and "within_limit m ns c"
  shows "within_limit m ns c'"
  using assms
proof (induction rule: quota_step.induct)
  case (review fl t w)
  then show ?case by (auto simp: within_limit_def review_admits)
next
  case (store w fl t fl')
  then show ?case using create_active [of ns t w] by (simp add: within_limit_def)
next
  case (status_write w t old fl)
  then show ?case using status_write_active [of w t old ns] by (simp add: within_limit_def)
next
  case (update w fl t)
  then show ?case using update_active [of ns t w] by (simp add: within_limit_def)
next
  case (delete w fl t)
  then show ?case using delete_active [of ns t w] by (simp add: within_limit_def)
next
  case (elsewhere w' w fl)
  then show ?case using elsewhere_active [of ns w' w] by (simp add: within_limit_def)
qed

lemma quota_reachable_within_limit:
  "(quota_step m ns)\<^sup>*\<^sup>* c c' \<Longrightarrow> within_limit m ns c \<Longrightarrow> within_limit m ns c'"
  by (induction rule: rtranclp_induct) (auto intro: quota_step_within_limit)


subsection \<open>The bound is reached\<close>

definition numbered :: "nat \<Rightarrow> AgentTask" where
  "numbered i = sample_task\<lparr>task_Meta :=
     (task_Meta sample_task)\<lparr>om_Name := replicate i CHR ''x''\<rparr>\<rparr>"

definition crowd :: "nat \<Rightarrow> cluster" where
  "crowd n = empty_cluster\<lparr>cl_tasks :=
     map (\<lambda>i. (object_key (task_Meta (numbered i)), numbered i)) [0..<n]\<rparr>"

lemma numbered_simps [simp]:
  "task_Namespace (numbered i) = ''default''" "task_active (numbered i)"
  "validateAgentTask (numbered i) = None"
  "created_task w (numbered i) = numbered i"
  "object_key (task_Meta (numbered i)) = NamespacedName ''default'' (replicate i CHR ''x'')"
  by (simp_all add: numbered_def sample_task_def empty_meta_def task_active_def
      empty_status_def empty_spec_def validateAgentTask_def allowedProfiles_def object_key_def
      created_task_def generated_name_def
      phase_defs)

lemma active_crowd [simp]: "active_in ''default'' (crowd n) = n"
  by (induction n) (simp_all add: active_in_def crowd_def active_entry_def [abs_def])

lemma crowd_0 [simp]: "crowd 0 = empty_cluster"
  by (simp add: crowd_def empty_cluster_def)

lemma review_crowd:
  "n < 5 \<Longrightarrow> snd (fst (run_state (ValidateCreate cluster_env (numbered i)) (start (crowd n)))) = None"
  by (simp add: review_admits)

lemma update_absent: "map_of m k = None \<Longrightarrow> AList.update k x m = m @ [(k, x)]"
  by (induction m) (auto split: if_splits)

lemma create_crowd: "snd (env_CreateTask cluster_env (numbered n) (crowd n)) = crowd (Suc n)"
proof -
  have "map_of (cl_tasks (crowd n)) (object_key (task_Meta (numbered n))) = None"
    by (auto simp: crowd_def map_of_eq_None_iff)
  then show ?thesis
    by (simp add: cluster_env_def cl_create_task_def store_create_def update_absent Let_def
        del: map_of_update)
       (simp add: crowd_def)
qed

lemma reviews:
  assumes "n < 5"
  shows "length fl + k \<le> m \<Longrightarrow>
    (quota_step m ''default'')\<^sup>*\<^sup>* (crowd n, fl) (crowd n, fl @ map numbered [j..<j + k])"
proof (induction k)
  case (Suc k)
  then have "quota_step m ''default'' (crowd n, fl @ map numbered [j..<j + k])
      (crowd n, (fl @ map numbered [j..<j + k]) @ [numbered (j + k)])"
    by (intro quota_step.review) (simp_all add: review_crowd assms)
  with Suc show ?case by simp
qed simp

lemma stores:
  "(quota_step m ''default'')\<^sup>*\<^sup>* (crowd n, map numbered [n..<n + k]) (crowd (n + k), [])"
proof (induction k arbitrary: n)
  case (Suc k)
  have "quota_step m ''default'' (crowd n, [] @ numbered n # map numbered [Suc n..<Suc n + k])
      (crowd (Suc n), [] @ map numbered [Suc n..<Suc n + k])"
    using quota_step.store [of m "''default''" "crowd n" "[]" "numbered n"]
    by (simp only: create_crowd)
  moreover have "[n..<n + Suc k] = n # [Suc n..<Suc n + k]"
    by (simp add: upt_conv_Cons)
  ultimately show ?case
    using Suc [of "Suc n"] by (simp add: converse_rtranclp_into_rtranclp del: upt_Suc)
qed simp

lemma batch:
  "\<lbrakk>n < 5; k \<le> m\<rbrakk> \<Longrightarrow> (quota_step m ''default'')\<^sup>*\<^sup>* (crowd n, []) (crowd (n + k), [])"
  using reviews [of n "[]" k m n] stores [of m n k] by auto

lemma one_by_one: "n \<le> 4 \<Longrightarrow> (quota_step (Suc m) ''default'')\<^sup>*\<^sup>* (crowd 0, []) (crowd n, [])"
proof (induction n)
  case (Suc n)
  then show ?case using batch [of n 1 "Suc m"] by auto
qed simp

text \<open>C22: The limit is not a guarantee: with \<open>m\<close> concurrent creations (\<open>m\<close> at least one) a namespace
  can end with \<open>4 + m\<close> stored active tasks, because every review lists the namespace before any
  of the others is stored. Two concurrent creations already exceed the limit of five.\<close>

theorem quota_exceeded_by_race:
  "\<exists>w. (quota_step (Suc m) ''default'')\<^sup>*\<^sup>* (empty_cluster, []) (w, []) \<and> active_in ''default'' w = 5 + m"
proof -
  have "(quota_step (Suc m) ''default'')\<^sup>*\<^sup>* (crowd 4, []) (crowd (4 + Suc m), [])"
    by (rule batch) simp_all
  with one_by_one [of 4 m] have "(quota_step (Suc m) ''default'')\<^sup>*\<^sup>* (crowd 0, []) (crowd (4 + Suc m), [])"
    by (rule rtranclp_trans) simp
  moreover have "active_in ''default'' (crowd (4 + Suc m)) = 5 + m"
    by (simp only: active_crowd)
  ultimately show ?thesis by (auto simp only: crowd_0)
qed


end
