(* ===== verification/GoTime.thy ===== *)
theory GoTime
  imports GoRuntime
begin

text \<open>
  Calendar dates and the layout RFC 3339 of Go's package time: the year, month and day of a day
  counted from the Unix epoch, by cycles of 400, 100, 4 and 1 years as the standard library
  computes them, and the text of an instant in a time zone. The offset of the zone from UTC
  in seconds is a parameter (the local zone belongs to the system). The date is proved to be
  the date of that day: counting its days gives the day back.
\<close>

subsection \<open>Dates\<close>

definition leap_year :: "int \<Rightarrow> bool" where
  "leap_year y \<longleftrightarrow> y mod 4 = 0 \<and> (y mod 100 \<noteq> 0 \<or> y mod 400 = 0)"

text \<open>Days before each month of a common year.\<close>

definition days_before :: "int list" where
  "days_before = [0, 31, 59, 90, 120, 151, 181, 212, 243, 273, 304, 334, 365]"

text \<open>Year (less one) and day of the year of a day counted from January 1 of year 1.\<close>

definition year_and_day :: "int \<Rightarrow> int \<times> int" where
  "year_and_day d =
     (let n400 = d div 146097; d400 = d mod 146097;
          n100 = min 3 (d400 div 36524); d100 = d400 - 36524 * n100;
          n4 = d100 div 1461; d4 = d100 mod 1461;
          n1 = min 3 (d4 div 365)
      in (400 * n400 + 100 * n100 + 4 * n4 + n1, d4 - 365 * n1))"

definition month_and_day :: "bool \<Rightarrow> int \<Rightarrow> int \<times> int" where
  "month_and_day leap yday =
     (if leap \<and> yday = 59 then (2, 29)
      else let day = (if leap \<and> 59 < yday then yday - 1 else yday);
               m = day div 31;
               later = days_before ! nat (m + 1)
           in if later \<le> day then (m + 2, day - later + 1)
              else (m + 1, day - days_before ! nat m + 1))"

text \<open>Days are counted from the epoch; it is day 719162 of the calendar.\<close>

definition civil_date :: "int \<Rightarrow> int \<times> int \<times> int" where
  "civil_date d =
     (case year_and_day (d + 719162) of (y, yday) \<Rightarrow>
        (case month_and_day (leap_year (y + 1)) yday of (m, day) \<Rightarrow> (y + 1, m, day)))"

text \<open>The number of a date's day.\<close>

definition day_of_year :: "bool \<Rightarrow> int \<Rightarrow> int \<Rightarrow> int" where
  "day_of_year leap m day =
     days_before ! nat (m - 1) + (if leap \<and> 2 < m then 1 else 0) + day - 1"

definition days_of_date :: "int \<times> int \<times> int \<Rightarrow> int" where
  "days_of_date = (\<lambda>(y, m, day).
     365 * (y - 1) + (y - 1) div 4 - (y - 1) div 100 + (y - 1) div 400
       + day_of_year (leap_year y) m day - 719162)"

lemma month_and_day_inverse:
  assumes "0 \<le> yday" "yday < (if leap then 366 else 365)"
  shows "(case month_and_day leap yday of (m, day) \<Rightarrow> day_of_year leap m day) = yday"
    and "(case month_and_day leap yday of (m, day) \<Rightarrow> 1 \<le> m \<and> m \<le> 12 \<and> 1 \<le> day \<and> day \<le> 31)"
proof -
  define d where "d = (if leap \<and> 59 < yday then yday - 1 else yday)"
  have d: "0 \<le> d" "d < 365" using assms by (auto simp: d_def split: if_splits)
  have "m \<in> {0, 1, 2, 3, 4, 5, 6, 7, 8, 9, 10, 11}" if "0 \<le> m" "m < 12" for m :: int
    using that by simp presburger
  from this [of "d div 31"] d have "d div 31 \<in> {0, 1, 2, 3, 4, 5, 6, 7, 8, 9, 10, 11}" by simp
  then have both: "(case month_and_day leap yday of (m, day) \<Rightarrow> day_of_year leap m day) = yday
      \<and> (case month_and_day leap yday of (m, day) \<Rightarrow> 1 \<le> m \<and> m \<le> 12 \<and> 1 \<le> day \<and> day \<le> 31)"
  proof (cases "leap \<and> yday = 59")
    case False
    have "month_and_day leap yday = (if days_before ! nat (d div 31 + 1) \<le> d
        then (d div 31 + 2, d - days_before ! nat (d div 31 + 1) + 1)
        else (d div 31 + 1, d - days_before ! nat (d div 31) + 1))"
      unfolding month_and_day_def Let_def if_not_P [OF False] d_def [symmetric] by (rule refl)
    moreover have "31 * (d div 31) \<le> d" "d < 31 * (d div 31) + 31" by presburger+
    ultimately show ?thesis
      using \<open>d div 31 \<in> _\<close> d False assms
      by (elim insertE emptyE; cases leap)
         (simp_all add: days_before_def day_of_year_def d_def split: if_splits)
  qed (simp add: month_and_day_def day_of_year_def days_before_def)
  show "(case month_and_day leap yday of (m, day) \<Rightarrow> day_of_year leap m day) = yday"
    by (rule conjunct1 [OF both])
  show "(case month_and_day leap yday of (m, day) \<Rightarrow> 1 \<le> m \<and> m \<le> 12 \<and> 1 \<le> day \<and> day \<le> 31)"
    by (rule conjunct2 [OF both])
qed

lemma year_and_day_split:
  assumes "year_and_day d = (y, yday)"
  obtains e a b c where "y = 400 * e + 100 * a + 4 * b + c"
    and "d = 146097 * e + 36524 * a + 1461 * b + 365 * c + yday"
    and "0 \<le> a" "a \<le> 3" "0 \<le> b" "b \<le> 24" "0 \<le> c" "c \<le> 3" "0 \<le> yday" "yday \<le> 365"
    and "yday = 365 \<longrightarrow> c = 3 \<and> (b = 24 \<longrightarrow> a = 3)"
proof -
  define e where "e = d div 146097"
  define d400 where "d400 = d mod 146097"
  define a where "a = min 3 (d400 div 36524)"
  define d100 where "d100 = d400 - 36524 * a"
  define b where "b = d100 div 1461"
  define d4 where "d4 = d100 mod 1461"
  define c where "c = min 3 (d4 div 365)"
  have d: "d = 146097 * e + d400" "0 \<le> d400" "d400 < 146097"
    by (simp_all add: e_def d400_def)
  have a: "0 \<le> a" "a \<le> 3" "0 \<le> d100" "d100 \<le> 36524" "d100 = 36524 \<Longrightarrow> a = 3"
  proof -
    obtain n r where n: "d400 = 36524 * n + r" "0 \<le> r" "r < 36524" "n = d400 div 36524"
      by (rule that [of "d400 div 36524" "d400 mod 36524"]) simp_all
    have "a = min 3 n" by (simp add: a_def n(4))
    then show "0 \<le> a" "a \<le> 3" "0 \<le> d100" "d100 \<le> 36524" "d100 = 36524 \<Longrightarrow> a = 3"
      using d(2,3) n(1-3) by (auto simp: d100_def min_def split: if_splits)
  qed
  have b: "d100 = 1461 * b + d4" "0 \<le> d4" "d4 \<le> 1460" "0 \<le> b" "b \<le> 24"
    using a by (simp_all add: b_def d4_def)
  have c: "0 \<le> c" "c \<le> 3" "0 \<le> d4 - 365 * c" "d4 - 365 * c \<le> 365" "d4 - 365 * c = 365 \<Longrightarrow> c = 3"
  proof -
    obtain n r where n: "d4 = 365 * n + r" "0 \<le> r" "r < 365" "n = d4 div 365"
      by (rule that [of "d4 div 365" "d4 mod 365"]) simp_all
    have "c = min 3 n" by (simp add: c_def n(4))
    then show "0 \<le> c" "c \<le> 3" "0 \<le> d4 - 365 * c" "d4 - 365 * c \<le> 365"
      "d4 - 365 * c = 365 \<Longrightarrow> c = 3"
      using b(2,3) n(1-3) by (auto simp: min_def split: if_splits)
  qed
  have y: "y = 400 * e + 100 * a + 4 * b + c" "yday = d4 - 365 * c"
    using assms
    unfolding year_and_day_def Let_def c_def d4_def b_def d100_def a_def d400_def e_def prod.inject
    by (elim conjE, simp only:)+
  show ?thesis
  proof (rule that [of e a b c])
    show "d = 146097 * e + 36524 * a + 1461 * b + 365 * c + yday"
      using d(1) b(1) y(2) unfolding d100_def by linarith
    show "yday = 365 \<longrightarrow> c = 3 \<and> (b = 24 \<longrightarrow> a = 3)"
    proof
      assume "yday = 365"
      then have "c = 3" "d4 = 1460" using c(5) y(2) by simp_all
      then show "c = 3 \<and> (b = 24 \<longrightarrow> a = 3)" using b(1) a(5) by simp
    qed
  qed (use a(1,2) b(4,5) c(1-4) y in simp_all)
qed

lemma day_in_year:
  assumes "year_and_day d = (y, yday)"
  shows "0 \<le> yday" and "yday < (if leap_year (y + 1) then 366 else 365)"
proof -
  obtain e a b c where
    y: "y = 400 * e + 100 * a + 4 * b + c"
    and "d = 146097 * e + 36524 * a + 1461 * b + 365 * c + yday"
    and bounds: "0 \<le> a" "a \<le> 3" "0 \<le> b" "b \<le> 24" "0 \<le> c" "c \<le> 3" "0 \<le> yday" "yday \<le> 365"
    and last: "yday = 365 \<longrightarrow> c = 3 \<and> (b = 24 \<longrightarrow> a = 3)"
    by (rule year_and_day_split [OF assms])
  show "0 \<le> yday" by (rule bounds)
  have leap: "leap_year (y + 1)" if "yday = 365"
  proof (cases "b = 24")
    case True
    then have "y + 1 = 4 * (100 * (e + 1))" "y + 1 = 400 * (e + 1)" using last that y by simp_all
    then show ?thesis by (simp add: leap_year_def)
  next
    case False
    then have "y + 1 = 4 * (100 * e + 25 * a + b + 1)" "y + 1 = 100 * (4 * e + a) + (4 * b + 4)"
      using last that y by simp_all
    moreover from this(2) have "(y + 1) mod 100 = 4 * b + 4"
      by (rule int_mod_pos_eq) (use False bounds in simp_all)
    ultimately show ?thesis using bounds by (simp add: leap_year_def)
  qed
  show "yday < (if leap_year (y + 1) then 366 else 365)"
    using leap bounds by fastforce
qed

lemma days_of_civil_date: "days_of_date (civil_date d) = d"
proof -
  obtain y yday where yd: "year_and_day (d + 719162) = (y, yday)" by fastforce
  obtain e a b c where
    y: "y = 400 * e + 100 * a + 4 * b + c"
    and d: "d + 719162 = 146097 * e + 36524 * a + 1461 * b + 365 * c + yday"
    and bounds: "0 \<le> a" "a \<le> 3" "0 \<le> b" "b \<le> 24" "0 \<le> c" "c \<le> 3"
    by (rule year_and_day_split [OF yd])
  have q: "y div 4 = 100 * e + 25 * a + b" "y div 100 = 4 * e + a" "y div 400 = e"
    by (rule int_div_pos_eq [of _ _ _ c] int_div_pos_eq [of _ _ _ "4 * b + c"]
          int_div_pos_eq [of _ _ _ "100 * a + 4 * b + c"]; use y bounds in simp)+
  from month_and_day_inverse(1) [OF day_in_year [OF yd]] show ?thesis
    using yd q d y by (simp add: civil_date_def days_of_date_def split: prod.splits)
qed

lemma civil_date_bounds:
  assumes "civil_date d = (y, m, day)"
  shows "1 \<le> m \<and> m \<le> 12 \<and> 1 \<le> day \<and> day \<le> 31"
proof -
  obtain y' yday where yd: "year_and_day (d + 719162) = (y', yday)" by fastforce
  then have "0 \<le> yday" "yday < (if leap_year (y' + 1) then 366 else 365)"
    by (rule day_in_year)+
  from month_and_day_inverse(2) [OF this] show ?thesis
    using yd assms by (simp add: civil_date_def split: prod.splits)
qed

subsection \<open>RFC 3339\<close>

text \<open>\<^verbatim>\<open>appendInt\<close>: decimal digits, padded with zeros to a width.\<close>

definition pad_nat :: "nat \<Rightarrow> nat \<Rightarrow> string" where
  "pad_nat k n = replicate (k - length (show_nat n)) (CHR ''0'') @ show_nat n"

definition append_int :: "nat \<Rightarrow> int \<Rightarrow> string" where
  "append_int k i = (if i < 0 then CHR ''-'' # pad_nat k (nat (- i)) else pad_nat k (nat i))"

text \<open>The second of an instant, and its zone: minutes are the offset divided by 60,
  truncated.\<close>

definition unix_second :: "instant \<Rightarrow> int" where
  "unix_second t = t div 1000000000"

definition zone_text :: "int \<Rightarrow> string" where
  "zone_text off =
     (if off = 0 then ''Z''
      else let minutes = \<bar>off\<bar> div 60
           in (if off < 0 \<and> minutes \<noteq> 0 then ''-'' else ''+'')
                @ append_int 2 (minutes div 60) @ '':'' @ append_int 2 (minutes mod 60))"

definition rfc3339_date :: "int \<Rightarrow> string" where
  "rfc3339_date local_second =
     (case civil_date (local_second div 86400) of (y, m, day) \<Rightarrow>
        append_int 4 y @ ''-'' @ append_int 2 m @ ''-'' @ append_int 2 day)"

definition rfc3339_clock :: "int \<Rightarrow> string" where
  "rfc3339_clock local_second =
     (let sec = local_second mod 86400
      in append_int 2 (sec div 3600) @ '':'' @ append_int 2 (sec div 60 mod 60) @ '':''
           @ append_int 2 (sec mod 60))"

definition rfc3339 :: "(instant \<Rightarrow> int) \<Rightarrow> instant \<Rightarrow> string" where
  "rfc3339 zone t =
     (let local_second = unix_second t + zone t
      in rfc3339_date local_second @ ''T'' @ rfc3339_clock local_second @ zone_text (zone t))"

subsection \<open>Reading it back\<close>

definition field_value :: "nat \<Rightarrow> nat \<Rightarrow> string \<Rightarrow> int" where
  "field_value i k s = digits_value (take k (drop i s))"

definition zone_value :: "string \<Rightarrow> int" where
  "zone_value z =
     (if z = ''Z'' then 0
      else (if hd z = CHR ''-'' then - 1 else 1)
             * (field_value 1 2 z * 3600 + field_value 4 2 z * 60))"

text \<open>The second since the epoch a text of the fixed-width layout denotes.\<close>

definition rfc3339_second :: "string \<Rightarrow> int" where
  "rfc3339_second s =
     days_of_date (field_value 0 4 s, field_value 5 2 s, field_value 8 2 s) * 86400
       + field_value 11 2 s * 3600 + field_value 14 2 s * 60 + field_value 17 2 s
       - zone_value (drop 19 s)"

lemma digits_value_zeros: "digits_value (replicate k (CHR ''0'') @ s) = digits_value s"
proof (induction k)
  case (Suc k)
  then show ?case by (simp add: digits_value_def)
qed simp

lemma length_show_nat: "n < 10 ^ Suc k \<Longrightarrow> length (show_nat n) \<le> Suc k"
proof (induction k arbitrary: n)
  case 0
  then show ?case by (subst show_nat.simps) simp
next
  case (Suc k)
  show ?case
  proof (cases "n < 10")
    case True
    then show ?thesis by (subst show_nat.simps) simp
  next
    case False
    have "n div 10 < 10 ^ Suc k" using Suc.prems by (simp add: less_mult_imp_div_less mult.commute)
    from Suc.IH [OF this] False show ?thesis by (subst show_nat.simps) simp
  qed
qed

lemma append_int_fixed:
  assumes "0 \<le> i" "i < 10 ^ Suc k"
  shows "length (append_int (Suc k) i) = Suc k" and "digits_value (append_int (Suc k) i) = i"
proof -
  have "nat i < 10 ^ Suc k" using assms by (simp add: nat_less_iff)
  from length_show_nat [OF this] show "length (append_int (Suc k) i) = Suc k"
    using assms(1) by (simp add: append_int_def pad_nat_def)
  show "digits_value (append_int (Suc k) i) = i"
    using assms(1) by (simp add: append_int_def pad_nat_def digits_value_zeros digits_value_show)
qed

lemma field_value_skip: "length p = i \<Longrightarrow> field_value (i + j) k (p @ s) = field_value j k s"
  by (simp add: field_value_def)

lemma field_value_here: "length p = k \<Longrightarrow> field_value 0 k (p @ s) = digits_value p"
  by (simp add: field_value_def)


text \<open>The years whose layout has four digits and the zones whose layout has two.\<close>

definition printable :: "(instant \<Rightarrow> int) \<Rightarrow> instant \<Rightarrow> bool" where
  "printable zone t \<longleftrightarrow>
     fst (civil_date ((unix_second t + zone t) div 86400)) \<in> {0..9999}
     \<and> \<bar>zone t\<bar> < 360000 \<and> zone t mod 60 = 0"

lemma zone_roundtrip:
  assumes "\<bar>off\<bar> < 360000" "off mod 60 = 0"
  shows "zone_value (zone_text off) = off"
proof (cases "off = 0")
  case False
  define minutes where "minutes = \<bar>off\<bar> div 60"
  obtain q where q: "off = 60 * q" using assms(2) by auto
  have "\<bar>off\<bar> = 60 * minutes" "0 < minutes" "minutes < 6000"
    using assms(1) False by (simp_all add: minutes_def q abs_mult)
  define hh mm where "hh = minutes div 60" and "mm = minutes mod 60"
  have hm: "minutes = 60 * hh + mm" by (simp add: hh_def mm_def)
  have "0 \<le> hh" "hh < 100" "0 \<le> mm" "mm < 100"
    using \<open>0 < minutes\<close> \<open>minutes < 6000\<close> unfolding hh_def mm_def by presburger+
  then have "length (append_int 2 hh) = 2" "length (append_int 2 mm) = 2"
    "digits_value (append_int 2 hh) = hh" "digits_value (append_int 2 mm) = mm"
    using append_int_fixed [of _ 1] by (simp_all add: numeral_2_eq_2)
  then have "zone_value (zone_text off) = (if off < 0 then - 1 else 1) * (hh * 3600 + mm * 60)"
    using False \<open>0 < minutes\<close>
    by (simp add: zone_value_def zone_text_def minutes_def [symmetric] Let_def field_value_def
        hh_def [symmetric] mm_def [symmetric])
  then show ?thesis
    using \<open>\<bar>off\<bar> = 60 * minutes\<close> hm by (simp add: abs_if split: if_splits)
qed (simp add: zone_value_def zone_text_def)

lemma rfc3339_roundtrip:
  assumes "printable zone t"
  shows "rfc3339_second (rfc3339 zone t) = unix_second t"
proof -
  define ls where "ls = unix_second t + zone t"
  obtain y m day where date: "civil_date (ls div 86400) = (y, m, day)" by (metis prod_cases3)
  have y: "0 \<le> y" "y < 10 ^ 4" using assms date by (auto simp: printable_def ls_def)
  have md: "0 \<le> m" "m < 100" "0 \<le> day" "day < 100"
    using civil_date_bounds [OF date] by simp_all
  define sec where "sec = ls mod 86400"
  have sec: "0 \<le> sec" "sec < 86400" by (simp_all add: sec_def)
  have clock: "0 \<le> sec div 3600" "sec div 3600 < 100" "0 \<le> sec div 60 mod 60" "sec div 60 mod 60 < 100"
    "0 \<le> sec mod 60" "sec mod 60 < 100"
  proof -
    show "sec div 3600 < 100" using sec(2) by presburger
    show "sec div 60 mod 60 < 100" "sec mod 60 < 100"
      by (rule less_trans [OF pos_mod_bound]; simp)+
  qed (use sec in simp_all)
  have width4: "length (append_int 4 y) = 4" "digits_value (append_int 4 y) = y"
    using append_int_fixed [of y 3] y by (simp_all add: eval_nat_numeral)
  have width2: "length (append_int 2 i) = 2" "digits_value (append_int 2 i) = i"
    if "0 \<le> i" "i < 100" for i
    using append_int_fixed [of i 1] that by (simp_all add: eval_nat_numeral)
  have "rfc3339 zone t = append_int 4 y @ ''-'' @ append_int 2 m @ ''-'' @ append_int 2 day @ ''T''
      @ append_int 2 (sec div 3600) @ '':'' @ append_int 2 (sec div 60 mod 60) @ '':''
      @ append_int 2 (sec mod 60) @ zone_text (zone t)"
    by (simp add: rfc3339_def Let_def rfc3339_date_def rfc3339_clock_def ls_def [symmetric] date
        sec_def [symmetric])
  then have "rfc3339_second (rfc3339 zone t) = days_of_date (y, m, day) * 86400
      + sec div 3600 * 3600 + sec div 60 mod 60 * 60 + sec mod 60 - zone t"
    using zone_roundtrip [of "zone t"] assms width4 width2 [OF md(1,2)] width2 [OF md(3,4)]
      width2 [OF clock(1,2)] width2 [OF clock(3,4)] width2 [OF clock(5,6)]
    by (simp add: rfc3339_second_def field_value_def printable_def)
  also have "days_of_date (y, m, day) = ls div 86400"
    using days_of_civil_date [of "ls div 86400"] date by simp
  also have "ls div 86400 * 86400 + sec div 3600 * 3600 + sec div 60 mod 60 * 60 + sec mod 60 = ls"
  proof -
    have "sec div 3600 * 60 + sec div 60 mod 60 = sec div 60"
      using div_mult_mod_eq [of "sec div 60" 60] zdiv_zmult2_eq [of 60 sec 60] by simp
    moreover have "sec div 60 * 60 + sec mod 60 = sec" by simp
    moreover have "ls div 86400 * 86400 + sec = ls" by (simp add: sec_def)
    ultimately show ?thesis by linarith
  qed
  finally show ?thesis by (simp add: ls_def)
qed

end
