(* ===== verification/Wire.thy ===== *)
theory Wire
  imports Cluster GoTime "HOL-Library.Monad_Syntax"
begin

text \<open>
  The wire format of the API types: the JSON documents the struct tags of agenttask_types.go
  prescribe, with what Go's encoding/json makes of the options \<^verbatim>\<open>omitempty\<close> and \<^verbatim>\<open>omitzero\<close>, and the
  way back. The encodings of the types of other packages (metadata, resource requirements, config
  map selectors, object references, conditions, times) are the parameter \<open>codec\<close>. What a
  server stores and a client reads back is the task up to the seconds of its times.
\<close>

datatype json =
    JNull
  | JBool bool
  | JNumber int
  | JString string
  | JArray "json list"
  | JObject "(string \<times> json) list"

type_synonym fields = "(string \<times> json) list"

subsection \<open>Fields\<close>

text \<open>A field with \<^verbatim>\<open>omitempty\<close>, left out when its value is the zero of its type; a pointer, left
  out when it is nil. A struct is never empty in this sense.\<close>

definition omitempty :: "bool \<Rightarrow> string \<Rightarrow> json \<Rightarrow> fields" where
  "omitempty zero n j = (if zero then [] else [(n, j)])"

definition omitnil :: "string \<Rightarrow> ('a \<Rightarrow> json) \<Rightarrow> 'a option \<Rightarrow> fields" where
  "omitnil n enc p = (case p of None \<Rightarrow> [] | Some x \<Rightarrow> [(n, enc x)])"

text \<open>Reading a field: absent or null, it keeps the zero value.\<close>

fun read_value :: "(json \<Rightarrow> 'a option) \<Rightarrow> 'a \<Rightarrow> json option \<Rightarrow> 'a option" where
  "read_value dec zero None = Some zero"
| "read_value dec zero (Some j) = (if j = JNull then Some zero else dec j)"

definition field :: "(json \<Rightarrow> 'a option) \<Rightarrow> 'a \<Rightarrow> string \<Rightarrow> fields \<Rightarrow> 'a option" where
  "field dec zero n fs = read_value dec zero (map_of fs n)"

definition nillable :: "(json \<Rightarrow> 'a option) \<Rightarrow> json \<Rightarrow> 'a option option" where
  "nillable dec j = map_option Some (dec j)"

fun decode_string :: "json \<Rightarrow> string option" where
  "decode_string (JString s) = Some s"
| "decode_string j = None"

fun decode_bool :: "json \<Rightarrow> bool option" where
  "decode_bool (JBool b) = Some b"
| "decode_bool j = None"

definition encode_int32 :: "int32 \<Rightarrow> json" where
  "encode_int32 x = JNumber (sint x)"

fun decode_int32 :: "json \<Rightarrow> int32 option" where
  "decode_int32 (JNumber i) = (if - (2 ^ 31) \<le> i \<and> i < 2 ^ 31 then Some (word_of_int i) else None)"
| "decode_int32 j = None"

fun decode_list :: "(json \<Rightarrow> 'a option) \<Rightarrow> json \<Rightarrow> 'a list option" where
  "decode_list dec (JArray js) = those (map dec js)"
| "decode_list dec j = None"

fun decode_object :: "(fields \<Rightarrow> 'a option) \<Rightarrow> json \<Rightarrow> 'a option" where
  "decode_object dec (JObject fs) = dec fs"
| "decode_object dec j = None"

lemma map_of_omit [simp]:
  "map_of (omitempty zero n j) m = (if m = n then (if zero then None else Some j) else None)"
  "map_of (omitnil n enc p) m = (if m = n then map_option enc p else None)"
  by (auto simp: omitempty_def omitnil_def split: option.split)

text \<open>The first of two optional values, kept folded so that both are simplified.\<close>

definition first_of :: "'a option \<Rightarrow> 'a option \<Rightarrow> 'a option" where
  "first_of p q = (case p of None \<Rightarrow> q | Some x \<Rightarrow> Some x)"

lemma first_of_simps [simp]:
  "first_of None q = q" "first_of (Some x) q = Some x" "first_of p None = p"
  by (simp_all add: first_of_def split: option.split)

lemma map_of_append_fields: "map_of (fs @ gs) n = first_of (map_of fs n) (map_of gs n)"
  by (simp add: first_of_def map_add_def split: option.split)

subsection \<open>The contract of an encoding\<close>

text \<open>What is encoded is not null and reads back as \<open>norm x\<close>.\<close>

locale wire =
  fixes enc :: "'a \<Rightarrow> json" and dec :: "json \<Rightarrow> 'a option" and norm :: "'a \<Rightarrow> 'a"
    and fit :: "'a \<Rightarrow> bool"
  assumes reads_back: "fit x \<Longrightarrow> dec (enc x) = Some (norm x)"
    and not_null: "fit x \<Longrightarrow> enc x \<noteq> JNull"
begin

lemma value_back: "fit x \<Longrightarrow> read_value dec zero (Some (enc x)) = Some (norm x)"
  by (simp add: reads_back not_null)

lemma omitted_back:
  "\<lbrakk>fit x; b \<Longrightarrow> norm x = zero\<rbrakk>
   \<Longrightarrow> read_value dec zero (if b then None else Some (enc x)) = Some (norm x)"
  by (simp add: reads_back not_null)

lemma pointer_back:
  "pred_option fit p \<Longrightarrow> read_value (nillable dec) None (map_option enc p) = Some (map_option norm p)"
  by (cases p) (simp_all add: nillable_def reads_back not_null)

lemma list_back:
  "list_all fit xs \<Longrightarrow> read_value (decode_list dec) [] (if xs = [] then None else Some (JArray (map enc xs)))
     = Some (map norm xs)"
proof -
  have "list_all fit xs \<Longrightarrow> those (map dec (map enc xs)) = Some (map norm xs)"
    by (induction xs) (simp_all add: reads_back)
  then show "list_all fit xs \<Longrightarrow> read_value (decode_list dec) []
      (if xs = [] then None else Some (JArray (map enc xs))) = Some (map norm xs)"
    by simp
qed

end

interpretation string_wire: wire JString decode_string "\<lambda>s. s" "\<lambda>s. True"
  by unfold_locales simp_all

interpretation bool_wire: wire JBool decode_bool "\<lambda>b. b" "\<lambda>b. True"
  by unfold_locales simp_all

interpretation int32_wire: wire encode_int32 decode_int32 "\<lambda>x. x" "\<lambda>x. True"
  by unfold_locales (use sint_int32_bounds in \<open>simp_all add: encode_int32_def\<close>)

subsection \<open>The parts of other packages\<close>

record codec =
  cd_Meta :: "ObjectMeta \<Rightarrow> json"
  cd_Meta_of :: "json \<Rightarrow> ObjectMeta option"
  cd_Resources :: "ResourceRequirements \<Rightarrow> json"
  cd_Resources_of :: "json \<Rightarrow> ResourceRequirements option"
  cd_Selector :: "ConfigMapKeySelector \<Rightarrow> json"
  cd_Selector_of :: "json \<Rightarrow> ConfigMapKeySelector option"
  cd_Reference :: "ObjectReference \<Rightarrow> json"
  cd_Reference_of :: "json \<Rightarrow> ObjectReference option"
  cd_Condition :: "Condition \<Rightarrow> json"
  cd_Condition_of :: "json \<Rightarrow> Condition option"
  cd_Time :: "instant \<Rightarrow> json"
  cd_Time_of :: "json \<Rightarrow> instant option"

text \<open>A value that its package encodes faithfully; a time, to the second.\<close>

definition faithful :: "('a \<Rightarrow> json) \<Rightarrow> (json \<Rightarrow> 'a option) \<Rightarrow> 'a \<Rightarrow> bool" where
  "faithful enc dec x \<longleftrightarrow> dec (enc x) = Some x \<and> enc x \<noteq> JNull"

definition faithful_time :: "codec \<Rightarrow> instant \<Rightarrow> bool" where
  "faithful_time C x \<longleftrightarrow> cd_Time_of C (cd_Time C x) = Some (whole_seconds x) \<and> cd_Time C x \<noteq> JNull"

interpretation part: wire enc dec "\<lambda>x. x" "faithful enc dec" for enc :: "'a \<Rightarrow> json" and dec
  by unfold_locales (simp_all add: faithful_def)

interpretation time_wire: wire "cd_Time C" "cd_Time_of C" whole_seconds "faithful_time C" for C
  by unfold_locales (simp_all add: faithful_time_def)

subsection \<open>The structs\<close>

definition marshal_ExecutionResult :: "ExecutionResult \<Rightarrow> json" where
  "marshal_ExecutionResult r = JObject (omitempty (er_JSON r = '''') ''json'' (JString (er_JSON r)))"

definition unmarshal_ExecutionResult :: "json \<Rightarrow> ExecutionResult option" where
  "unmarshal_ExecutionResult = decode_object (\<lambda>fs. do {
     j \<leftarrow> field decode_string '''' ''json'' fs;
     Some \<lparr>er_JSON = j\<rparr>
   })"

definition marshal_CodeSource :: "codec \<Rightarrow> CodeSource \<Rightarrow> json" where
  "marshal_CodeSource C c = JObject (
     omitempty (code_Source c = '''') ''source'' (JString (code_Source c))
     @ omitnil ''configMapRef'' (cd_Selector C) (code_ConfigMapRef c))"

definition unmarshal_CodeSource :: "codec \<Rightarrow> json \<Rightarrow> CodeSource option" where
  "unmarshal_CodeSource C = decode_object (\<lambda>fs. do {
     src \<leftarrow> field decode_string '''' ''source'' fs;
     ref \<leftarrow> field (nillable (cd_Selector_of C)) None ''configMapRef'' fs;
     Some \<lparr>code_Source = src, code_ConfigMapRef = ref\<rparr>
   })"

definition marshal_AgentTaskSpec :: "codec \<Rightarrow> AgentTaskSpec \<Rightarrow> json" where
  "marshal_AgentTaskSpec C s = JObject (
     [(''runtimeProfile'', JString (spec_RuntimeProfile s)),
      (''code'', marshal_CodeSource C (spec_Code s)),
      (''resources'', cd_Resources C (spec_Resources s))]
     @ omitempty (spec_TimeoutSeconds s = 0) ''timeoutSeconds'' (encode_int32 (spec_TimeoutSeconds s))
     @ omitempty (spec_Backend s = '''') ''backend'' (JString (spec_Backend s))
     @ omitempty (spec_Tenant s = '''') ''tenant'' (JString (spec_Tenant s))
     @ omitempty (\<not> spec_Canceled s) ''canceled'' (JBool (spec_Canceled s))
     @ omitnil ''ttlSecondsAfterFinished'' encode_int32 (spec_TTLSecondsAfterFinished s))"

definition unmarshal_AgentTaskSpec :: "codec \<Rightarrow> json \<Rightarrow> AgentTaskSpec option" where
  "unmarshal_AgentTaskSpec C = decode_object (\<lambda>fs. do {
     profile \<leftarrow> field decode_string '''' ''runtimeProfile'' fs;
     code \<leftarrow> field (unmarshal_CodeSource C) (spec_Code empty_spec) ''code'' fs;
     resources \<leftarrow> field (cd_Resources_of C) (spec_Resources empty_spec) ''resources'' fs;
     timeout \<leftarrow> field decode_int32 0 ''timeoutSeconds'' fs;
     backend \<leftarrow> field decode_string '''' ''backend'' fs;
     tenant \<leftarrow> field decode_string '''' ''tenant'' fs;
     canceled \<leftarrow> field decode_bool False ''canceled'' fs;
     ttl \<leftarrow> field (nillable decode_int32) None ''ttlSecondsAfterFinished'' fs;
     Some \<lparr>spec_RuntimeProfile = profile, spec_Code = code, spec_Resources = resources,
       spec_TimeoutSeconds = timeout, spec_Backend = backend, spec_Tenant = tenant,
       spec_Canceled = canceled, spec_TTLSecondsAfterFinished = ttl\<rparr>
   })"

definition marshal_AgentTaskStatus :: "codec \<Rightarrow> AgentTaskStatus \<Rightarrow> json" where
  "marshal_AgentTaskStatus C st = JObject (
     omitempty (status_Phase st = '''') ''phase'' (JString (status_Phase st))
     @ [(''podRef'', cd_Reference C (status_PodRef st))]
     @ omitnil ''result'' marshal_ExecutionResult (status_Result st)
     @ omitempty (status_Conditions st = []) ''conditions''
         (JArray (map (cd_Condition C) (status_Conditions st)))
     @ omitempty (status_ExitCode st = 0) ''exitCode'' (encode_int32 (status_ExitCode st))
     @ omitempty (status_Reason st = '''') ''reason'' (JString (status_Reason st))
     @ omitempty (status_Message st = '''') ''message'' (JString (status_Message st))
     @ omitnil ''startTime'' (cd_Time C) (status_StartTime st)
     @ omitnil ''completionTime'' (cd_Time C) (status_CompletionTime st))"

definition unmarshal_AgentTaskStatus :: "codec \<Rightarrow> json \<Rightarrow> AgentTaskStatus option" where
  "unmarshal_AgentTaskStatus C = decode_object (\<lambda>fs. do {
     phase \<leftarrow> field decode_string '''' ''phase'' fs;
     ref \<leftarrow> field (cd_Reference_of C) empty_ref ''podRef'' fs;
     result \<leftarrow> field (nillable unmarshal_ExecutionResult) None ''result'' fs;
     conditions \<leftarrow> field (decode_list (cd_Condition_of C)) [] ''conditions'' fs;
     code \<leftarrow> field decode_int32 0 ''exitCode'' fs;
     reason \<leftarrow> field decode_string '''' ''reason'' fs;
     message \<leftarrow> field decode_string '''' ''message'' fs;
     start_time \<leftarrow> field (nillable (cd_Time_of C)) None ''startTime'' fs;
     completion \<leftarrow> field (nillable (cd_Time_of C)) None ''completionTime'' fs;
     Some \<lparr>status_Phase = phase, status_PodRef = ref, status_Result = result,
       status_Conditions = conditions, status_ExitCode = code, status_Reason = reason,
       status_Message = message, status_StartTime = start_time, status_CompletionTime = completion\<rparr>
   })"

text \<open>\<open>type_meta\<close> are the fields of the inlined \<^verbatim>\<open>metav1.TypeMeta\<close>, which the client fills in.\<close>

definition marshal_AgentTask :: "codec \<Rightarrow> fields \<Rightarrow> AgentTask \<Rightarrow> json" where
  "marshal_AgentTask C type_meta t = JObject (type_meta
     @ omitempty (task_Meta t = empty_meta) ''metadata'' (cd_Meta C (task_Meta t))
     @ [(''spec'', marshal_AgentTaskSpec C (task_Spec t))]
     @ omitempty (task_Status t = empty_status) ''status'' (marshal_AgentTaskStatus C (task_Status t)))"

definition unmarshal_AgentTask :: "codec \<Rightarrow> json \<Rightarrow> AgentTask option" where
  "unmarshal_AgentTask C = decode_object (\<lambda>fs. do {
     m \<leftarrow> field (cd_Meta_of C) empty_meta ''metadata'' fs;
     s \<leftarrow> field (unmarshal_AgentTaskSpec C) empty_spec ''spec'' fs;
     st \<leftarrow> field (unmarshal_AgentTaskStatus C) empty_status ''status'' fs;
     Some \<lparr>task_Meta = m, task_Spec = s, task_Status = st\<rparr>
   })"

subsection \<open>The structs keep the contract\<close>

definition code_fits :: "codec \<Rightarrow> CodeSource \<Rightarrow> bool" where
  "code_fits C c \<longleftrightarrow> pred_option (faithful (cd_Selector C) (cd_Selector_of C)) (code_ConfigMapRef c)"

definition spec_fits :: "codec \<Rightarrow> AgentTaskSpec \<Rightarrow> bool" where
  "spec_fits C s \<longleftrightarrow> code_fits C (spec_Code s) \<and> faithful (cd_Resources C) (cd_Resources_of C) (spec_Resources s)"

definition status_fits :: "codec \<Rightarrow> AgentTaskStatus \<Rightarrow> bool" where
  "status_fits C st \<longleftrightarrow> faithful (cd_Reference C) (cd_Reference_of C) (status_PodRef st)
     \<and> list_all (faithful (cd_Condition C) (cd_Condition_of C)) (status_Conditions st)
     \<and> pred_option (faithful_time C) (status_StartTime st)
     \<and> pred_option (faithful_time C) (status_CompletionTime st)"

definition fits :: "codec \<Rightarrow> AgentTask \<Rightarrow> bool" where
  "fits C t \<longleftrightarrow> faithful (cd_Meta C) (cd_Meta_of C) (task_Meta t)
     \<and> spec_fits C (task_Spec t) \<and> status_fits C (task_Status t)"

text \<open>Reading a struct is reading its fields.\<close>

lemmas read_fields = field_def map_of_append_fields string_wire.omitted_back bool_wire.omitted_back
  int32_wire.omitted_back int32_wire.pointer_back [of p for p, simplified option.map_ident]
  part.pointer_back [where p = p for p, simplified option.map_ident] time_wire.pointer_back
  part.value_back part.list_back [simplified list.map_ident]

lemma pred_option_True [simp]: "pred_option (\<lambda>x. True) p"
  by (cases p) simp_all

declare map_of_append [simp del] read_value.simps [simp del]

interpretation result_wire: wire marshal_ExecutionResult unmarshal_ExecutionResult "\<lambda>r. r" "\<lambda>r. True"
  by unfold_locales (simp_all add: marshal_ExecutionResult_def unmarshal_ExecutionResult_def read_fields)

interpretation code_wire: wire "marshal_CodeSource C" "unmarshal_CodeSource C" "\<lambda>c. c" "code_fits C" for C
  by unfold_locales
     (simp_all add: marshal_CodeSource_def unmarshal_CodeSource_def code_fits_def read_fields)

interpretation spec_wire: wire "marshal_AgentTaskSpec C" "unmarshal_AgentTaskSpec C" "\<lambda>s. s" "spec_fits C" for C
  by unfold_locales
     (simp_all add: marshal_AgentTaskSpec_def unmarshal_AgentTaskSpec_def spec_fits_def read_fields
       code_wire.value_back string_wire.value_back)

interpretation status_wire: wire "marshal_AgentTaskStatus C" "unmarshal_AgentTaskStatus C" stored_status
    "status_fits C" for C
  by unfold_locales
     (simp_all add: marshal_AgentTaskStatus_def unmarshal_AgentTaskStatus_def status_fits_def read_fields
       result_wire.pointer_back option.map_ident stored_status_def)

text \<open>The fields of the inlined type header.\<close>

definition is_type_meta :: "fields \<Rightarrow> bool" where
  "is_type_meta fs \<longleftrightarrow> list_all (\<lambda>nj. (fst nj = ''kind'' \<or> fst nj = ''apiVersion'')
     \<and> decode_string (snd nj) \<noteq> None) fs"

lemma type_meta_other:
  "\<lbrakk>is_type_meta fs; n \<noteq> ''kind''; n \<noteq> ''apiVersion''\<rbrakk> \<Longrightarrow> map_of fs n = None"
  by (induction fs) (auto simp: is_type_meta_def)

definition stored_task :: "AgentTask \<Rightarrow> AgentTask" where
  "stored_task t = t\<lparr>task_Status := stored_status (task_Status t)\<rparr>"

lemma task_reads_back:
  assumes "is_type_meta tm" "fits C t"
  shows "unmarshal_AgentTask C (marshal_AgentTask C tm t) = Some (stored_task t)"
proof -
  have "stored_status empty_status = empty_status"
    by (simp add: stored_status_def empty_status_def)
  then show ?thesis
    using assms
    by (simp add: marshal_AgentTask_def unmarshal_AgentTask_def fits_def read_fields type_meta_other
        part.omitted_back spec_wire.value_back status_wire.omitted_back stored_task_def)
qed

end
