(* ===== verification/CrdSchema.thy ===== *)
theory CrdSchema
  imports Wire ReconcileSafety Replay Lifecycle
begin

text \<open>
  The schema of the custom resource (config/crd/bases/execution.agenttask.io_agenttasks.yaml) as
  data, with what the API server does with a structural schema: it validates a document against
  it and drops the fields it does not name. Every task that a client encodes is valid but for its
  phase, every phase the operator writes is valid, and the server stores what it was sent, with
  one exception: the schema does not know the time to live, so no stored task ever has one.
\<close>

subsection \<open>Structural schemas\<close>

record string_rule =
  sr_Enum :: "string list"
  sr_MinLength :: nat
  sr_MaxLength :: "nat option"
  sr_Pattern :: "string option"
  sr_Format :: "string option"

definition any_string :: string_rule where
  "any_string = \<lparr>sr_Enum = [], sr_MinLength = 0, sr_MaxLength = None, sr_Pattern = None, sr_Format = None\<rparr>"

datatype schema =
    SString string_rule
  | SInteger string "int option"
  | SBoolean
  | SIntOrString string
  | SArray schema
  | SMap schema
  | SObject "(string \<times> schema) list" "string list"

text \<open>Regular expressions and the format of times are checked by the server's libraries.\<close>

record checks =
  ck_Pattern :: "string \<Rightarrow> string \<Rightarrow> bool"
  ck_DateTime :: "string \<Rightarrow> bool"

definition string_ok :: "checks \<Rightarrow> string_rule \<Rightarrow> string \<Rightarrow> bool" where
  "string_ok V r s \<longleftrightarrow> (sr_Enum r = [] \<or> s \<in> set (sr_Enum r)) \<and> sr_MinLength r \<le> length s
     \<and> pred_option (\<lambda>n. length s \<le> n) (sr_MaxLength r)
     \<and> pred_option (\<lambda>p. ck_Pattern V p s) (sr_Pattern r)
     \<and> (sr_Format r = Some ''date-time'' \<longrightarrow> ck_DateTime V s)"

definition integer_ok :: "string \<Rightarrow> int option \<Rightarrow> int \<Rightarrow> bool" where
  "integer_ok format least i \<longleftrightarrow>
     (format = ''int32'' \<longrightarrow> - (2 ^ 31) \<le> i \<and> i < 2 ^ 31)
     \<and> (format = ''int64'' \<longrightarrow> - (2 ^ 63) \<le> i \<and> i < 2 ^ 63)
     \<and> pred_option (\<lambda>m. m \<le> i) least"

fun validate :: "checks \<Rightarrow> schema \<Rightarrow> json \<Rightarrow> bool"
  and validate_fields :: "checks \<Rightarrow> (string \<times> schema) list \<Rightarrow> fields \<Rightarrow> bool"
  and validate_values :: "checks \<Rightarrow> schema \<Rightarrow> fields \<Rightarrow> bool"
  and validate_items :: "checks \<Rightarrow> schema \<Rightarrow> json list \<Rightarrow> bool" where
  "validate V (SString r) (JString s) = string_ok V r s"
| "validate V (SInteger format least) (JNumber i) = integer_ok format least i"
| "validate V SBoolean (JBool b) = True"
| "validate V (SIntOrString p) (JNumber i) = True"
| "validate V (SIntOrString p) (JString s) = ck_Pattern V p s"
| "validate V (SArray s) (JArray js) = validate_items V s js"
| "validate V (SMap s) (JObject fs) = validate_values V s fs"
| "validate V (SObject props req) (JObject fs) =
     (list_all (\<lambda>n. map_of fs n \<noteq> None) req \<and> validate_fields V props fs)"
| "validate V s j = False"
| "validate_fields V props [] = True"
| "validate_fields V props ((n, j) # fs) =
     ((case map_of props n of None \<Rightarrow> True | Some s \<Rightarrow> validate V s j) \<and> validate_fields V props fs)"
| "validate_values V s [] = True"
| "validate_values V s ((n, j) # fs) = (validate V s j \<and> validate_values V s fs)"
| "validate_items V s [] = True"
| "validate_items V s (j # js) = (validate V s j \<and> validate_items V s js)"

text \<open>Pruning keeps the fields the schema names.\<close>

fun prune :: "schema \<Rightarrow> json \<Rightarrow> json"
  and prune_fields :: "(string \<times> schema) list \<Rightarrow> fields \<Rightarrow> fields"
  and prune_values :: "schema \<Rightarrow> fields \<Rightarrow> fields"
  and prune_items :: "schema \<Rightarrow> json list \<Rightarrow> json list" where
  "prune (SArray s) (JArray js) = JArray (prune_items s js)"
| "prune (SMap s) (JObject fs) = JObject (prune_values s fs)"
| "prune (SObject props req) (JObject fs) = JObject (prune_fields props fs)"
| "prune s j = j"
| "prune_fields props [] = []"
| "prune_fields props ((n, j) # fs) =
     (case map_of props n of None \<Rightarrow> [] | Some s \<Rightarrow> [(n, prune s j)]) @ prune_fields props fs"
| "prune_values s [] = []"
| "prune_values s ((n, j) # fs) = (n, prune s j) # prune_values s fs"
| "prune_items s [] = []"
| "prune_items s (j # js) = prune s j # prune_items s js"

text \<open>The root of a resource: the server keeps its type header and its metadata itself.\<close>

definition server_fields :: "string list" where
  "server_fields = [''apiVersion'', ''kind'', ''metadata'']"

fun prune_resource :: "schema \<Rightarrow> json \<Rightarrow> json" where
  "prune_resource (SObject props req) (JObject fs) = JObject (concat (map (\<lambda>(n, j).
     if n \<in> set server_fields then [(n, j)] else prune_fields props [(n, j)]) fs))"
| "prune_resource s j = j"

subsection \<open>The schema of the repository\<close>

definition text_property :: "string \<Rightarrow> string \<times> schema" where
  "text_property n = (n, SString any_string)"

definition time_schema :: schema where
  "time_schema = SString (any_string\<lparr>sr_Format := Some ''date-time''\<rparr>)"

definition selector_schema :: schema where
  "selector_schema = SObject [text_property ''key'', text_property ''name'', (''optional'', SBoolean)] [''key'']"

text \<open>The pattern of a quantity.\<close>

definition quantity_pattern :: string where
  "quantity_pattern = (let number = ''(([0-9]+('' @ [CHR 0x5C] @ ''.[0-9]*)?)|('' @ [CHR 0x5C] @ ''.[0-9]+))'';
      sign = ''('' @ [CHR 0x5C] @ ''+|-)?''
    in ''^'' @ sign @ number @ ''(([KMGTPE]i)|[numkMGTPE]|([eE]'' @ sign @ number @ ''))?$'')"

definition resources_schema :: schema where
  "resources_schema = SObject [
     (''claims'', SArray (SObject [text_property ''name'', text_property ''request''] [''name''])),
     (''limits'', SMap (SIntOrString quantity_pattern)),
     (''requests'', SMap (SIntOrString quantity_pattern))] []"

definition spec_schema :: schema where
  "spec_schema = SObject [
     text_property ''backend'',
     (''canceled'', SBoolean),
     (''code'', SObject [(''configMapRef'', selector_schema), text_property ''source''] []),
     (''resources'', resources_schema),
     text_property ''runtimeProfile'',
     text_property ''tenant'',
     (''timeoutSeconds'', SInteger ''int32'' None)] [''code'', ''runtimeProfile'']"

definition condition_schema :: schema where
  "condition_schema = SObject [
     (''lastTransitionTime'', time_schema),
     (''message'', SString (any_string\<lparr>sr_MaxLength := Some 32768\<rparr>)),
     (''observedGeneration'', SInteger ''int64'' (Some 0)),
     (''reason'', SString (any_string\<lparr>sr_MaxLength := Some 1024, sr_MinLength := 1,
        sr_Pattern := Some ''^[A-Za-z]([A-Za-z0-9_,:]*[A-Za-z0-9_])?$''\<rparr>)),
     (''status'', SString (any_string\<lparr>sr_Enum := [''True'', ''False'', ''Unknown'']\<rparr>)),
     (''type'', SString (any_string\<lparr>sr_MaxLength := Some 316,
        sr_Pattern := Some (''^([a-z0-9]([-a-z0-9]*[a-z0-9])?('' @ [CHR 0x5C]
          @ ''.[a-z0-9]([-a-z0-9]*[a-z0-9])?)*/)?(([A-Za-z0-9][-A-Za-z0-9_.]*)?[A-Za-z0-9])$'')\<rparr>))]
     [''lastTransitionTime'', ''message'', ''reason'', ''status'', ''type'']"

definition phase_enum :: "string list" where
  "phase_enum = [''Pending'', ''Scheduled'', ''Running'', ''Succeeded'', ''Failed'', ''Timeout'', ''Canceled'']"

definition reference_schema :: schema where
  "reference_schema = SObject [text_property ''apiVersion'', text_property ''fieldPath'',
     text_property ''kind'', text_property ''name'', text_property ''namespace'',
     text_property ''resourceVersion'', text_property ''uid''] []"

definition status_schema :: schema where
  "status_schema = SObject [
     (''completionTime'', time_schema),
     (''conditions'', SArray condition_schema),
     (''exitCode'', SInteger ''int32'' None),
     text_property ''message'',
     (''phase'', SString (any_string\<lparr>sr_Enum := phase_enum\<rparr>)),
     (''podRef'', reference_schema),
     text_property ''reason'',
     (''result'', SObject [text_property ''json''] []),
     (''startTime'', time_schema)] []"

definition agenttask_schema :: schema where
  "agenttask_schema = SObject [
     text_property ''apiVersion'',
     text_property ''kind'',
     (''metadata'', SObject [] []),
     (''spec'', spec_schema),
     (''status'', status_schema)] [''spec'']"

subsection \<open>Encoded tasks against the schema\<close>

text \<open>A document is valid and loses nothing.\<close>

definition conforming :: "checks \<Rightarrow> schema \<Rightarrow> json \<Rightarrow> bool" where
  "conforming V s j \<longleftrightarrow> validate V s j \<and> prune s j = j"

text \<open>The parts that other packages encode conform to their part of the schema.\<close>

definition schema_fits :: "checks \<Rightarrow> codec \<Rightarrow> AgentTask \<Rightarrow> bool" where
  "schema_fits V C t \<longleftrightarrow> validate V (SObject [] []) (cd_Meta C (task_Meta t))
     \<and> pred_option (conforming V selector_schema \<circ> cd_Selector C) (code_ConfigMapRef (spec_Code (task_Spec t)))
     \<and> conforming V resources_schema (cd_Resources C (spec_Resources (task_Spec t)))
     \<and> conforming V reference_schema (cd_Reference C (status_PodRef (task_Status t)))
     \<and> list_all (conforming V condition_schema \<circ> cd_Condition C) (status_Conditions (task_Status t))
     \<and> pred_option (conforming V time_schema \<circ> cd_Time C) (status_StartTime (task_Status t))
     \<and> pred_option (conforming V time_schema \<circ> cd_Time C) (status_CompletionTime (task_Status t))"

lemma fields_append [simp]:
  "validate_fields V props (fs @ gs) \<longleftrightarrow> validate_fields V props fs \<and> validate_fields V props gs"
  "prune_fields props (fs @ gs) = prune_fields props fs @ prune_fields props gs"
  by (induction fs) auto

lemma omitted_fields [simp]:
  "validate_fields V props (omitempty zero n j) \<longleftrightarrow>
     zero \<or> pred_option (\<lambda>s. validate V s j) (map_of props n)"
  "validate_fields V props (omitnil n enc p) \<longleftrightarrow>
     pred_option (\<lambda>x. pred_option (\<lambda>s. validate V s (enc x)) (map_of props n)) p"
  by (auto simp: omitempty_def omitnil_def split: option.split)

lemma prune_known:
  "\<lbrakk>map_of props n = Some s; \<not> zero \<Longrightarrow> prune s j = j\<rbrakk>
   \<Longrightarrow> prune_fields props (omitempty zero n j) = omitempty zero n j"
  "\<lbrakk>map_of props n = Some s; pred_option (\<lambda>x. prune s (enc x) = enc x) p\<rbrakk>
   \<Longrightarrow> prune_fields props (omitnil n enc p) = omitnil n enc p"
  by (auto simp: omitempty_def omitnil_def split: option.split)

lemma prune_unknown: "map_of props n = None \<Longrightarrow> prune_fields props (omitnil n enc p) = []"
  by (simp add: omitnil_def split: option.split)

lemma items_map:
  "validate_items V s (map f xs) \<longleftrightarrow> list_all (\<lambda>x. validate V s (f x)) xs"
  "list_all (\<lambda>x. prune s (f x) = f x) xs \<Longrightarrow> prune_items s (map f xs) = map f xs"
  by (induction xs) auto

lemma any_string_ok [simp]: "string_ok V any_string s"
  by (simp add: string_ok_def any_string_def)

lemma int32_ok [simp]: "validate V (SInteger ''int32'' None) (encode_int32 x)"
  using sint_int32_bounds [of x] by (simp add: encode_int32_def integer_ok_def)

lemma phase_ok [simp]:
  "string_ok V (any_string\<lparr>sr_Enum := phase_enum\<rparr>) p \<longleftrightarrow> p \<in> set phase_enum"
  by (simp add: string_ok_def any_string_def phase_enum_def)

lemma result_conforms:
  "validate V (SObject [(''json'', SString any_string)] []) (marshal_ExecutionResult r)"
  "prune (SObject [(''json'', SString any_string)] []) (marshal_ExecutionResult r) = marshal_ExecutionResult r"
  by (simp_all add: marshal_ExecutionResult_def prune_known)

lemma phases_in_enum: "p \<in> set all_phases \<longleftrightarrow> p = '''' \<or> p \<in> set phase_enum"
  by (auto simp: all_phases_def phase_enum_def phase_defs)

text \<open>What that says of validation and of pruning.\<close>

lemma schema_fitsD:
  assumes "schema_fits V C t"
  shows "validate V (SObject [] []) (cd_Meta C (task_Meta t))"
    "pred_option (\<lambda>x. validate V selector_schema (cd_Selector C x)) (code_ConfigMapRef (spec_Code (task_Spec t)))"
    "validate V resources_schema (cd_Resources C (spec_Resources (task_Spec t)))"
    "validate V reference_schema (cd_Reference C (status_PodRef (task_Status t)))"
    "list_all (\<lambda>x. validate V condition_schema (cd_Condition C x)) (status_Conditions (task_Status t))"
    "pred_option (\<lambda>x. validate V time_schema (cd_Time C x)) (status_StartTime (task_Status t))"
    "pred_option (\<lambda>x. validate V time_schema (cd_Time C x)) (status_CompletionTime (task_Status t))"
    "pred_option (\<lambda>x. prune selector_schema (cd_Selector C x) = cd_Selector C x)
       (code_ConfigMapRef (spec_Code (task_Spec t)))"
    "prune resources_schema (cd_Resources C (spec_Resources (task_Spec t))) =
       cd_Resources C (spec_Resources (task_Spec t))"
    "prune reference_schema (cd_Reference C (status_PodRef (task_Status t))) =
       cd_Reference C (status_PodRef (task_Status t))"
    "list_all (\<lambda>x. prune condition_schema (cd_Condition C x) = cd_Condition C x) (status_Conditions (task_Status t))"
    "pred_option (\<lambda>x. prune time_schema (cd_Time C x) = cd_Time C x) (status_StartTime (task_Status t))"
    "pred_option (\<lambda>x. prune time_schema (cd_Time C x) = cd_Time C x) (status_CompletionTime (task_Status t))"
  using assms
  by (auto simp: schema_fits_def conforming_def list_all_iff elim!: option.pred_mono_strong)

text \<open>Without its time to live.\<close>

definition without_ttl :: "AgentTask \<Rightarrow> AgentTask" where
  "without_ttl t = t\<lparr>task_Spec := (task_Spec t)\<lparr>spec_TTLSecondsAfterFinished := None\<rparr>\<rparr>"

lemma spec_validates:
  assumes "schema_fits V C t"
  shows "validate V spec_schema (marshal_AgentTaskSpec C (task_Spec t))"
  by (simp add: spec_schema_def marshal_AgentTaskSpec_def marshal_CodeSource_def text_property_def
      schema_fitsD [OF assms])

lemma spec_prunes:
  assumes "schema_fits V C t"
  shows "prune spec_schema (marshal_AgentTaskSpec C (task_Spec t)) =
    marshal_AgentTaskSpec C (task_Spec (without_ttl t))"
  by (simp add: spec_schema_def marshal_AgentTaskSpec_def marshal_CodeSource_def text_property_def
      schema_fitsD [OF assms] prune_known prune_unknown without_ttl_def encode_int32_def
      omitnil_def [of "''ttlSecondsAfterFinished''" _ None])

lemma status_validates:
  assumes "schema_fits V C t" "task_Phase t \<in> set all_phases"
  shows "validate V status_schema (marshal_AgentTaskStatus C (task_Status t))"
  using assms(2)
  by (simp add: status_schema_def marshal_AgentTaskStatus_def text_property_def schema_fitsD [OF assms(1)]
      items_map phases_in_enum result_conforms)

lemma status_prunes:
  assumes "schema_fits V C t"
  shows "prune status_schema (marshal_AgentTaskStatus C (task_Status t)) = marshal_AgentTaskStatus C (task_Status t)"
  by (simp add: status_schema_def marshal_AgentTaskStatus_def text_property_def schema_fitsD [OF assms]
      items_map prune_known encode_int32_def result_conforms)

subsection \<open>What the server stores\<close>

text \<open>The document a server keeps of a task, and the task that is read back from it.\<close>

definition kept_document :: "codec \<Rightarrow> fields \<Rightarrow> AgentTask \<Rightarrow> json" where
  "kept_document C tm t = prune_resource agenttask_schema (marshal_AgentTask C tm t)"

definition kept_task :: "codec \<Rightarrow> fields \<Rightarrow> AgentTask \<Rightarrow> AgentTask option" where
  "kept_task C tm t = unmarshal_AgentTask C (kept_document C tm t)"

lemma server_fields_kept:
  "is_type_meta tm \<Longrightarrow> concat (map (\<lambda>(n, j). if n \<in> set server_fields then [(n, j)] else prune_fields props [(n, j)]) tm) = tm"
  by (induction tm) (auto simp: is_type_meta_def server_fields_def)

lemma type_meta_validates:
  "is_type_meta tm \<Longrightarrow> validate_fields V [text_property ''apiVersion'', text_property ''kind'', m, s, st] tm"
proof (induction tm)
  case (Cons nj tm)
  obtain n j where nj: "nj = (n, j)" by fastforce
  with Cons show ?case
    by (cases j) (auto simp: is_type_meta_def text_property_def)
qed simp

lemma kept_document_eq:
  assumes "is_type_meta tm" "schema_fits V C t"
  shows "kept_document C tm t = marshal_AgentTask C tm (without_ttl t)"
proof -
  have "task_Meta (without_ttl t) = task_Meta t" "task_Status (without_ttl t) = task_Status t"
    by (simp_all add: without_ttl_def)
  then show ?thesis
    using server_fields_kept [OF assms(1)] spec_prunes [OF assms(2)] status_prunes [OF assms(2)]
    by (simp add: kept_document_def marshal_AgentTask_def agenttask_schema_def text_property_def omitempty_def
        server_fields_def)
qed

lemma task_validates:
  assumes "is_type_meta tm" "schema_fits V C t" "task_Phase t \<in> set all_phases"
  shows "validate V agenttask_schema (marshal_AgentTask C tm t)"
  using type_meta_validates [OF assms(1)] spec_validates [OF assms(2)] status_validates [OF assms(2,3)]
    schema_fitsD(1) [OF assms(2)] type_meta_other [OF assms(1)]
  by (simp add: marshal_AgentTask_def agenttask_schema_def text_property_def map_of_append_fields)

lemma without_ttl_fits:
  "fits C t \<Longrightarrow> fits C (without_ttl t)" "schema_fits V C t \<Longrightarrow> schema_fits V C (without_ttl t)"
  by (simp_all add: without_ttl_def fits_def spec_fits_def schema_fits_def)

text \<open>C17: The server keeps what it is sent, except the time to live. A task in one of the phases
  (or none yet), whose parts from other packages encode faithfully and within their schema, is
  encoded to a document that the schema accepts after pruning and from which the task is read
  back as it was, its times to the second, but without its time to live.\<close>

theorem server_drops_only_ttl:
  assumes "is_type_meta tm" "fits C t" "schema_fits V C t" "task_Phase t \<in> set all_phases"
  shows "validate V agenttask_schema (kept_document C tm t)
     \<and> kept_task C tm t = Some (without_ttl (stored_task t))"
proof -
  have "without_ttl (stored_task t) = stored_task (without_ttl t)" "task_Phase (without_ttl t) = task_Phase t"
    by (simp_all add: without_ttl_def stored_task_def)
  then show ?thesis
    using task_validates [OF assms(1) without_ttl_fits(2) [OF assms(3)]] assms(4)
      task_reads_back [OF assms(1) without_ttl_fits(1) [OF assms(2)]]
    by (simp add: kept_task_def kept_document_eq [OF assms(1,3)])
qed

text \<open>The property at a concrete task and concrete encodings of the library types.\<close>

definition sample_codec :: codec where
  "sample_codec = \<lparr>
     cd_Meta = (\<lambda>m. JObject (omitempty (om_Name m = '''') ''name'' (JString (om_Name m))
       @ omitempty (om_Namespace m = '''') ''namespace'' (JString (om_Namespace m))
       @ omitempty (om_UID m = '''') ''uid'' (JString (om_UID m))
       @ omitempty (om_Finalizers m = []) ''finalizers'' (JArray (map JString (om_Finalizers m))))),
     cd_Meta_of = decode_object (\<lambda>fs. do {
       n \<leftarrow> field decode_string '''' ''name'' fs;
       ns \<leftarrow> field decode_string '''' ''namespace'' fs;
       u \<leftarrow> field decode_string '''' ''uid'' fs;
       f \<leftarrow> field (decode_list decode_string) [] ''finalizers'' fs;
       Some (empty_meta\<lparr>om_Name := n, om_Namespace := ns, om_UID := u, om_Finalizers := f\<rparr>)
     }),
     cd_Resources = (\<lambda>r. JObject []),
     cd_Resources_of = decode_object (\<lambda>fs. Some (spec_Resources empty_spec)),
     cd_Selector = (\<lambda>r. JObject [(''key'', JString (cmks_Key r)), (''name'', JString (cmks_Name r))]),
     cd_Selector_of = decode_object (\<lambda>fs. do {
       k \<leftarrow> field decode_string '''' ''key'' fs;
       n \<leftarrow> field decode_string '''' ''name'' fs;
       Some \<lparr>cmks_Name = n, cmks_Key = k, cmks_Optional = None\<rparr>
     }),
     cd_Reference = (\<lambda>r. JObject (omitempty (ref_Kind r = '''') ''kind'' (JString (ref_Kind r))
       @ omitempty (ref_Namespace r = '''') ''namespace'' (JString (ref_Namespace r))
       @ omitempty (ref_Name r = '''') ''name'' (JString (ref_Name r)))),
     cd_Reference_of = decode_object (\<lambda>fs. do {
       k \<leftarrow> field decode_string '''' ''kind'' fs;
       ns \<leftarrow> field decode_string '''' ''namespace'' fs;
       n \<leftarrow> field decode_string '''' ''name'' fs;
       Some \<lparr>ref_Kind = k, ref_Name = n, ref_Namespace = ns\<rparr>
     }),
     cd_Condition = (\<lambda>c. JObject [(''type'', JString (cond_Type c)), (''status'', JString (cond_Status c)),
       (''reason'', JString (cond_Reason c)), (''message'', JString (cond_Message c))]),
     cd_Condition_of = decode_object (\<lambda>fs. do {
       y \<leftarrow> field decode_string '''' ''type'' fs;
       s \<leftarrow> field decode_string '''' ''status'' fs;
       r \<leftarrow> field decode_string '''' ''reason'' fs;
       m \<leftarrow> field decode_string '''' ''message'' fs;
       Some \<lparr>cond_Type = y, cond_Status = s, cond_Reason = r, cond_Message = m\<rparr>
     }),
     cd_Time = (\<lambda>x. JString (rfc3339 (\<lambda>x. 0) x)),
     cd_Time_of = (\<lambda>j. map_option (\<lambda>s. rfc3339_second s * 1000000000) (decode_string j))\<rparr>"

definition sample_checks :: checks where
  "sample_checks = \<lparr>ck_Pattern = (\<lambda>p s. s \<noteq> ''''), ck_DateTime = (\<lambda>s. length s = 20)\<rparr>"

definition sample_header :: fields where
  "sample_header = [(''kind'', JString ''AgentTask''), (''apiVersion'', JString ''execution.agenttask.io/v1alpha1'')]"

lemma sample_time:
  "rfc3339 (\<lambda>x. 0) 0 = ''1970-01-01T00:00:00Z''" "rfc3339_second ''1970-01-01T00:00:00Z'' = 0"
  by code_simp+

lemma sample_fits:
  "fits sample_codec (sample_at p)" "schema_fits sample_checks sample_codec (sample_at p)"
  by (simp_all add: fits_def spec_fits_def code_fits_def status_fits_def schema_fits_def faithful_def
      faithful_time_def conforming_def sample_codec_def sample_checks_def sample_at_def sample_task_def empty_meta_def
      empty_spec_def empty_status_def field_def read_value.simps sample_time whole_seconds_def
      omitempty_def resources_schema_def reference_schema_def text_property_def time_schema_def string_ok_def
      any_string_def)

theorem server_drops_only_ttl_witness:
  "validate sample_checks agenttask_schema
      (kept_document sample_codec sample_header (sample_at AgentTaskPhaseRunning))
   \<and> kept_task sample_codec sample_header (sample_at AgentTaskPhaseRunning)
      = Some (without_ttl (stored_task (sample_at AgentTaskPhaseRunning)))
   \<and> spec_TTLSecondsAfterFinished (task_Spec (sample_at AgentTaskPhaseRunning)) = Some 10"
  using server_drops_only_ttl [OF _ sample_fits, where tm = sample_header and p1 = AgentTaskPhaseRunning]
  by (simp add: is_type_meta_def sample_header_def all_phases_def)

subsection \<open>The reconciler behind the schema\<close>

text \<open>A server that keeps its tasks in documents of the schema, in front of any environment.\<close>

definition decode_error :: gerror where
  "decode_error = FmtError ''cannot decode the object''"

definition behind_schema :: "codec \<Rightarrow> fields \<Rightarrow> 'w env \<Rightarrow> 'w env" where
  "behind_schema C tm E = E\<lparr>env_GetTask := (\<lambda>k w. case env_GetTask E k w of
     (Inl err, w') \<Rightarrow> (Inl err, w')
   | (Inr t, w') \<Rightarrow> (case kept_task C tm t of
        None \<Rightarrow> (Inl decode_error, w')
      | Some t' \<Rightarrow> (Inr t', w')))\<rparr>"

definition no_ttl :: "AgentTask \<Rightarrow> bool" where
  "no_ttl t \<longleftrightarrow> spec_TTLSecondsAfterFinished (task_Spec t) = None"

lemma pruned_spec_no_ttl:
  "unmarshal_AgentTaskSpec C (prune spec_schema j) = Some s \<Longrightarrow> spec_TTLSecondsAfterFinished s = None"
proof -
  have unknown: "map_of (prune_fields props fs) n = None" if "map_of props n = None" for props n fs
    using that by (induction fs) (auto split: option.split)
  show "unmarshal_AgentTaskSpec C (prune spec_schema j) = Some s \<Longrightarrow> spec_TTLSecondsAfterFinished s = None"
    by (cases j)
       (auto simp: unmarshal_AgentTaskSpec_def spec_schema_def text_property_def field_def unknown
          read_value.simps split: bind_splits)
qed

lemma pruned_spec:
  assumes "prune_resource agenttask_schema (JObject fs) = JObject fs'"
  shows "map_of fs' ''spec'' = map_option (prune spec_schema) (map_of fs ''spec'')"
proof -
  have "map_of (concat (map (\<lambda>(n, j). if n \<in> set server_fields then [(n, j)] else
      prune_fields [text_property ''apiVersion'', text_property ''kind'', (''metadata'', SObject [] []),
        (''spec'', spec_schema), (''status'', status_schema)] [(n, j)]) fs)) ''spec''
      = map_option (prune spec_schema) (map_of fs ''spec'')"
    by (induction fs) (auto simp: server_fields_def text_property_def map_of_append_fields split: option.split)
  then show ?thesis using assms by (simp add: agenttask_schema_def)
qed

lemma kept_no_ttl: "kept_task C tm t = Some t' \<Longrightarrow> no_ttl t'"
proof -
  obtain fs fs' where fs: "marshal_AgentTask C tm t = JObject fs" "kept_document C tm t = JObject fs'"
      "prune_resource agenttask_schema (JObject fs) = JObject fs'"
    by (simp add: marshal_AgentTask_def kept_document_def agenttask_schema_def)
  assume "kept_task C tm t = Some t'"
  then have "field (unmarshal_AgentTaskSpec C) empty_spec ''spec'' fs' = Some (task_Spec t')"
    using fs(2) by (auto simp: kept_task_def unmarshal_AgentTask_def split: bind_splits)
  then have "empty_spec = task_Spec t' \<or> (\<exists>j. unmarshal_AgentTaskSpec C (prune spec_schema j) = Some (task_Spec t'))"
    using pruned_spec [OF fs(3)]
    by (cases "map_of fs ''spec''") (auto simp: field_def read_value.simps split: if_splits)
  then have "spec_TTLSecondsAfterFinished (task_Spec t') = None"
  proof
    assume "empty_spec = task_Spec t'"
    then show ?thesis by (metis empty_spec_def AgentTaskSpec.select_convs(8))
  qed (auto dest: pruned_spec_no_ttl)
  then show "no_ttl t'" by (simp add: no_ttl_def)
qed

lemma read_no_ttl: "fst (env_GetTask (behind_schema C tm E) k w) = Inr t \<Longrightarrow> no_ttl t"
  by (auto simp: behind_schema_def dest: kept_no_ttl split: prod.splits sum.splits option.splits)

fun deletes_task :: "event \<Rightarrow> bool" where
  "deletes_task (Delete_Task t r) = True"
| "deletes_task e = False"

definition fetched_no_ttl :: "'w \<Rightarrow> event list \<Rightarrow> bool" where
  "fetched_no_ttl w h \<longleftrightarrow> (case fetched h of None \<Rightarrow> True | Some t \<Rightarrow> no_ttl t)"

lemma fetched_no_ttl_step:
  assumes "fetched_no_ttl w h" "genuine (behind_schema C tm E) e w"
  shows "fetched_no_ttl w' (h @ [e])"
proof (cases e)
  case (Get_Task k r)
  then show ?thesis using assms read_no_ttl [of C tm E k w]
    by (cases r) (auto simp: fetched_no_ttl_def)
qed (use assms in \<open>simp_all add: fetched_no_ttl_def\<close>)

lemma no_deletion_behind:
  assumes "i < length (worker_log (behind_schema C tm E) reqs w)"
  shows "\<not> deletes_task (worker_log (behind_schema C tm E) reqs w ! i)"
proof (rule replay_steps [where I = fetched_no_ttl and R = "\<lambda>h e w w'. \<not> deletes_task e",
    OF _ worker_log_conforms worker_replays(2)])
  show "fetched_no_ttl w []" by (simp add: fetched_no_ttl_def)
next
  fix w h e
  assume "fetched_no_ttl w h" "reconcile_ok (behind_schema C tm E) h e"
  then show "\<not> deletes_task e"
    by (cases e) (auto simp: reconcile_ok_def fetched_no_ttl_def no_ttl_def)
qed (use assms fetched_no_ttl_step in auto)

lemma results_no_ttl:
  fixes E :: "'w env"
  defines "run \<equiv> \<lambda>C tm req w. run_state (Reconcile (behind_schema C tm E) req) (start w)"
  shows "res_RequeueAfter (fst (fst (run C tm req w))) = 0"
proof -
  have log: "st_log (snd (run C tm req w)) = worker_log (behind_schema C tm E) [req] w"
    by (simp add: worker_log_def run_def State_Monad.bind_def case_prod_unfold)
  have "fetched_no_ttl (replay (behind_schema C tm E) (worker_log (behind_schema C tm E) [req] w) w)
      (worker_log (behind_schema C tm E) [req] w)"
    by (rule replay_invariant [OF _ worker_log_conforms worker_replays(2)])
       (auto simp: fetched_no_ttl_def [of _ "[]"] intro: fetched_no_ttl_step)
  then have "fetched_no_ttl w (st_log (snd (run C tm req w)))"
    by (simp add: log fetched_no_ttl_def)
  moreover have "reconciled (behind_schema C tm E) (fst (run C tm req w)) (snd (run C tm req w))"
    unfolding run_def by (rule Reconcile_reconciled)
  ultimately show ?thesis
    by (cases "fetched (st_log (snd (run C tm req w)))")
       (auto simp: reconciled_def requeue_ok_def fetched_no_ttl_def no_ttl_def no_result_def)
qed

text \<open>C18: The time to live is ignored. Behind the schema of the repository, whatever the
  environment, the encoding of the library types and the queue of requests, the operator never
  deletes a task and no reconcile asks to be called again later: a finished task stays for ever,
  whatever \<open>ttlSecondsAfterFinished\<close> its user asked for.\<close>

theorem time_to_live_ignored:
  "list_all (\<lambda>e. \<not> deletes_task e) (worker_log (behind_schema C tm E) reqs w)
   \<and> res_RequeueAfter (fst (fst (run_state (Reconcile (behind_schema C tm E) req) (start w)))) = 0"
  unfolding list_all_length using no_deletion_behind [of _ C tm E reqs w] results_no_ttl [of C tm E req w] by blast

text \<open>The part of a status document that holds the phase, and its schema.\<close>

definition phase_document :: "AgentTask \<Rightarrow> json" where
  "phase_document t = JObject (omitempty (task_Phase t = '''') ''phase'' (JString (task_Phase t)))"

definition phase_schema :: schema where
  "phase_schema = SObject [(''phase'', SString (any_string\<lparr>sr_Enum := phase_enum\<rparr>))] [''phase'']"

fun writes_valid_phase :: "checks \<Rightarrow> event \<Rightarrow> bool" where
  "writes_valid_phase V (Update_Status t r) = validate V phase_schema (phase_document t)"
| "writes_valid_phase V e = True"

text \<open>C30: The phases written are values of their type: every status the operator writes names a
  phase, and one the schema lists, so the server does not refuse it for its phase.\<close>

theorem written_phases_valid: "list_all (writes_valid_phase V) (worker_log E reqs w)"
proof -
  have valid: "phase_step p q \<Longrightarrow> q \<in> set phase_enum \<and> q \<noteq> ''''" for p q
    by (erule phase_step.cases) (auto simp: phase_enum_def phase_defs)
  have "reconcile_ok E h e \<Longrightarrow> writes_valid_phase V e" for h e
    using valid
    by (cases e) (auto simp: reconcile_ok_def phase_allowed_def phase_schema_def phase_document_def omitempty_def)
  then show ?thesis
    using conforms_nth [OF worker_log_conforms [of E reqs w]] by (auto simp: list_all_length)
qed

end
