(* ===== verification/AgentCtl.thy ===== *)
theory AgentCtl
  imports Lifecycle GoStrings
begin

text \<open>
  The command line tool (cmd/agentctl): the commands run, get, logs and delete as programs
  over the same client as the operator. A command returns the text it writes to standard output
  and its error. What belongs to other packages is a field of \<open>cli\<close>: the file system, the
  Unicode tables, the YAML encoder, the construction of a client set and the log stream of a
  pod's container.
\<close>

record 'w cli =
  cli_env :: "'w env"
  cli_ReadFile :: "string \<Rightarrow> 'w \<Rightarrow> (gerror + string) \<times> 'w"
  cli_unicode_lower :: "string \<Rightarrow> string"
  cli_Marshal :: "AgentTask \<Rightarrow> gerror + string"
  cli_GetConfig :: "'w \<Rightarrow> gerror option \<times> 'w"
  cli_NewForConfig :: "'w \<Rightarrow> gerror option \<times> 'w"
  cli_Stream :: "string \<Rightarrow> string \<Rightarrow> string \<Rightarrow> 'w \<Rightarrow> (gerror + string \<times> gerror option) \<times> 'w"

type_synonym outcome = "string \<times> gerror option"

definition newline :: string where
  "newline = [CHR 0x0A]"

text \<open>A call that leaves no event.\<close>

definition quiet :: "('w \<Rightarrow> 'a \<times> 'w) \<Rightarrow> ('w, 'a) act" where
  "quiet f = State (\<lambda>s. case f (st_world s) of (r, w) \<Rightarrow> (r, s\<lparr>st_world := w\<rparr>))"

lemma wp_quiet [wp_simps]:
  "wp (quiet f) Q s = (case f (st_world s) of (r, w) \<Rightarrow> Q r (s\<lparr>st_world := w\<rparr>))"
  by (simp add: wp_def quiet_def split: prod.splits)

subsection \<open>run\<close>

record RunFlags =
  runImage :: string
  runTimeout :: int32
  runTenant :: string
  runBackend :: string

definition default_run_flags :: RunFlags where
  "default_run_flags = \<lparr>runImage = ''python3.11'', runTimeout = 60, runTenant = '''',
     runBackend = ''''\<rparr>"

definition rootNamespace_default :: string where
  "rootNamespace_default = ''default''"

definition run_name :: "(string \<Rightarrow> string) \<Rightarrow> string \<Rightarrow> string" where
  "run_name unicode filePath =
     (let filename = path_base filePath;
          name = trim_suffix filename (path_ext filename)
      in to_lower unicode (replace_char (CHR ''_'') (CHR ''-'') name))"

definition run_task ::
  "(string \<Rightarrow> string) \<Rightarrow> RunFlags \<Rightarrow> string \<Rightarrow> string \<Rightarrow> string \<Rightarrow> AgentTask" where
  "run_task unicode flags rootNamespace filePath content = \<lparr>
     task_Meta = empty_meta\<lparr>om_GenerateName := run_name unicode filePath @ ''-'',
       om_Namespace := rootNamespace\<rparr>,
     task_Spec = empty_spec\<lparr>spec_RuntimeProfile := runImage flags,
       spec_TimeoutSeconds := runTimeout flags, spec_Tenant := runTenant flags,
       spec_Backend := runBackend flags,
       spec_Code := \<lparr>code_Source = content, code_ConfigMapRef = None\<rparr>\<rparr>,
     task_Status = empty_status\<rparr>"

definition runCmd :: "'w cli \<Rightarrow> RunFlags \<Rightarrow> string \<Rightarrow> string \<Rightarrow> ('w, outcome) act" where
  "runCmd C flags rootNamespace filePath = do {
     f \<leftarrow> quiet (cli_ReadFile C filePath);
     (case f of
        Inl err \<Rightarrow> ret ('''', Some (FmtWrap ''failed to read file: '' err))
      | Inr content \<Rightarrow> do {
          let out = ''Submitting task with code from '' @ filePath @ ''...'' @ newline;
          r \<leftarrow> CreateTask (cli_env C)
            (run_task (cli_unicode_lower C) flags rootNamespace filePath content);
          (case r of
             Inl err \<Rightarrow> ret (out, Some err)
           | Inr task \<Rightarrow> ret (out @ ''AgentTask created: '' @ task_Name task @ newline, None))
        })
   }"

subsection \<open>get, delete, logs\<close>

definition getCmd :: "'w cli \<Rightarrow> string \<Rightarrow> string \<Rightarrow> ('w, outcome) act" where
  "getCmd C rootNamespace name = do {
     r \<leftarrow> GetTask (cli_env C) (NamespacedName rootNamespace name);
     (case r of
        Inl err \<Rightarrow> ret ('''', Some err)
      | Inr task \<Rightarrow>
          (case cli_Marshal C task of
             Inl err \<Rightarrow> ret ('''', Some err)
           | Inr data \<Rightarrow> ret (data @ newline, None)))
   }"

definition delete_target :: "string \<Rightarrow> string \<Rightarrow> AgentTask" where
  "delete_target rootNamespace name = \<lparr>
     task_Meta = empty_meta\<lparr>om_Name := name, om_Namespace := rootNamespace\<rparr>,
     task_Spec = empty_spec, task_Status = empty_status\<rparr>"

definition deleteCmd :: "'w cli \<Rightarrow> string \<Rightarrow> string \<Rightarrow> ('w, outcome) act" where
  "deleteCmd C rootNamespace name = do {
     r \<leftarrow> DeleteTask (cli_env C) (delete_target rootNamespace name);
     (case r of
        Some err \<Rightarrow> ret ('''', Some err)
      | None \<Rightarrow> ret (''AgentTask '' @ name @ '' deleted'' @ newline, None))
   }"

definition logsCmd :: "'w cli \<Rightarrow> string \<Rightarrow> string \<Rightarrow> ('w, outcome) act" where
  "logsCmd C rootNamespace name = do {
     r \<leftarrow> GetTask (cli_env C) (NamespacedName rootNamespace name);
     (case r of
        Inl err \<Rightarrow> ret ('''', Some (FmtWrap ''failed to get task: '' err))
      | Inr task \<Rightarrow>
          (if ref_Name (status_PodRef (task_Status task)) = '''' then
             ret ('''', Some (FmtError (''task '' @ name @ '' has no pod assigned yet (Phase: ''
               @ task_Phase task @ '')'')))
           else do {
             g \<leftarrow> quiet (cli_GetConfig C);
             (case g of
                Some err \<Rightarrow> ret ('''', Some err)
              | None \<Rightarrow> do {
                  c \<leftarrow> quiet (cli_NewForConfig C);
                  (case c of
                     Some err \<Rightarrow> ret ('''', Some err)
                   | None \<Rightarrow> do {
                       l \<leftarrow> quiet (cli_Stream C (ref_Namespace (status_PodRef (task_Status task)))
                         (ref_Name (status_PodRef (task_Status task))) ''task'');
                       (case l of
                          Inl err \<Rightarrow> ret ('''', Some (FmtWrap ''error in opening stream: '' err))
                        | Inr (text, None) \<Rightarrow> ret (text, None)
                        | Inr (text, Some err) \<Rightarrow> ret (text,
                            Some (FmtWrap ''error in copy information from podLogs to stdout: '' err)))
                     })
                })
           }))
   }"

subsection \<open>The commands and the operator\<close>

definition world_after :: "('w, 'a) act \<Rightarrow> 'w \<Rightarrow> 'w" where
  "world_after m w = st_world (snd (run_state m (start w)))"

lemma world_afterI: "wp m (\<lambda>r s. P (st_world s)) (start w) \<Longrightarrow> P (world_after m w)"
  by (simp add: wp_def world_after_def case_prod_unfold)

lemma cluster_create_task [wp_simps]:
  "wp (CreateTask cluster_env t) Q s = (case cl_create_task t (st_world s) of
     (r, w) \<Rightarrow> Q r \<lparr>st_world = w, st_log = st_log s @ [Create_Task t r]\<rparr>)"
  by (simp add: CreateTask_def wp_call cluster_env_def)

text \<open>The name the reference server generates for the next task of a file.\<close>

definition submitted_key :: "'w cli \<Rightarrow> cluster \<Rightarrow> string \<Rightarrow> string \<Rightarrow> NamespacedName" where
  "submitted_key C w ns file = NamespacedName ns
     (run_name (cli_unicode_lower C) file @ ''-'' @ show_nat (length (cl_tasks w)))"

lemma runCmd_cluster:
  assumes "cli_env C = cluster_env" and "cli_ReadFile C file w = (Inr content, w)"
    and "map_of (cl_tasks w) (submitted_key C w ns file) = None"
  shows "\<exists>t. world_after (runCmd C flags ns file) w =
       w\<lparr>cl_tasks := AList.update (submitted_key C w ns file) t (cl_tasks w)\<rparr>
     \<and> object_key (task_Meta t) = submitted_key C w ns file
     \<and> om_Finalizers (task_Meta t) = [] \<and> \<not> deleting t \<and> task_Phase t = ''''
     \<and> task_Spec t = task_Spec (run_task (cli_unicode_lower C) flags ns file content)"
  by (rule world_afterI)
     (use assms in \<open>auto simp: runCmd_def wp_simps Let_def cl_create_task_def created_task_def
        generated_name_def run_task_def store_create_def submitted_key_def object_key_def
        empty_meta_def deleting_def time_is_zero_def empty_status_def intro!: exI\<close>)

lemma run_task_valid:
  "validateAgentTask (run_task u flags ns file content) = None \<longleftrightarrow>
     runImage flags \<in> {''python3.10'', ''python3.11''} \<and> sint (runTimeout flags) \<in> {1..3600}"
  by (auto simp: validateAgentTask_def allowedProfiles_def run_task_def empty_spec_def)


text \<open>\<^verbatim>\<open>agentctl delete\<close> and one reconcile on a quiescent API server remove an
  adopted task and its pod.\<close>

theorem delete_removes_task:
  assumes "cli_env C = cluster_env" and "adopted w (NamespacedName ns name) t" and "\<not> deleting t"
    and "cl_now w \<noteq> zero_time"
  shows "map_of (cl_tasks (after (world_after (deleteCmd C ns name) w) (NamespacedName ns name)))
      (NamespacedName ns name) = None
     \<and> pod_gone (after (world_after (deleteCmd C ns name) w) (NamespacedName ns name)) t"
proof -
  let ?k = "NamespacedName ns name"
  let ?t' = "t\<lparr>task_Meta := (task_Meta t)\<lparr>om_DeletionTimestamp := Some (cl_now w)\<rparr>\<rparr>"
  have w1: "world_after (deleteCmd C ns name) w = w\<lparr>cl_tasks := AList.update ?k ?t' (cl_tasks w)\<rparr>"
    by (rule world_afterI)
       (use assms in \<open>simp add: deleteCmd_def wp_simps adopted_def cl_delete_task_def
          delete_target_def object_key_def empty_meta_def deleting_def Let_def\<close>)
  have "adopted (world_after (deleteCmd C ns name) w) ?k ?t'"
    unfolding w1 by (rule adopted_update)
      (use assms cluster_wfD(1) in \<open>auto simp: adopted_def object_key_def\<close>)
  moreover have "deleting ?t'"
    using assms(4) by (simp add: deleting_def time_is_zero_def)
  ultimately show ?thesis
    using released by (fastforce simp: pod_gone_def pod_key_def)
qed

text \<open>Logs do not outlive the task. Once a task has ended and its pod is gone,
  \<^verbatim>\<open>agentctl logs\<close> fails, for every log service that has no logs of a pod that does
  not exist: the operator releases the pod in the same reconcile that stores the outcome.\<close>

theorem logs_lost_at_the_end:
  assumes "cli_env C = cluster_env" and "cli_GetConfig C w = (None, w)"
    and "cli_NewForConfig C w = (None, w)"
    and logs: "\<And>ns n c. map_of (cl_pods w) (NamespacedName ns n) = None \<Longrightarrow>
      \<exists>e. cli_Stream C ns n c w = (Inl e, w)"
    and fin: "ended t p q w" and key: "object_key (task_Meta t) = NamespacedName ns name"
    and has_ref: "ref_Name (status_PodRef (task_Status t)) \<noteq> ''''"
  shows "\<exists>e. fst (run_state (logsCmd C ns name) (start w)) =
    ('''', Some (FmtWrap ''error in opening stream: '' e))"
proof -
  from fin has_ref obtain t' where stored: "map_of (cl_tasks w) (NamespacedName ns name) = Some t'"
    and ref: "status_PodRef (task_Status t') = status_PodRef (task_Status t)"
    and gone: "map_of (cl_pods w) (pod_key t) = None"
    using key by (auto simp: ended_def pod_gone_def)
  obtain e where "cli_Stream C (ref_Namespace (status_PodRef (task_Status t)))
      (ref_Name (status_PodRef (task_Status t))) ''task'' w = (Inl e, w)"
    using logs [OF gone [unfolded pod_key_def]] by blast
  then have "wp (logsCmd C ns name) (\<lambda>r s. r = ('''', Some (FmtWrap ''error in opening stream: '' e))) (start w)"
    using assms(1-3) has_ref stored ref by (simp add: logsCmd_def wp_simps)
  then show ?thesis
    by (auto simp: wp_def split: prod.splits)
qed

lemma run_name_chars:
  assumes "is_ascii file" and "path_base file \<noteq> ''/''" and "c \<in> set (run_name u file)"
  shows "\<not> is_upper c \<and> c \<noteq> CHR ''_'' \<and> c \<noteq> CHR ''/''"
proof -
  let ?stem = "trim_suffix (path_base file) (path_ext (path_base file))"
  let ?name = "replace_char (CHR ''_'') (CHR ''-'') ?stem"
  have stem: "set ?stem \<subseteq> insert (CHR ''.'') (insert (CHR ''/'') (set file))" "CHR ''/'' \<notin> set ?stem"
    using set_trim_suffix set_path_base path_base_no_slash [OF assms(2)] by blast+
  then have "is_ascii ?name" "CHR ''/'' \<notin> set ?name" "CHR ''_'' \<notin> set ?name"
    using assms(1) by (auto simp: is_ascii_def replace_char_def)
  moreover from this(1) obtain d where "d \<in> set ?name" "c = char_lower d"
    using assms(3) by (auto simp: run_name_def to_lower_def Let_def)
  ultimately show ?thesis
    using char_lower_eq_low [of "CHR ''/''" d] char_lower_eq_low [of "CHR ''_''" d]
    by (auto simp: char_lower_not_upper)
qed

text \<open>The name prefix \<^verbatim>\<open>agentctl run\<close> submits for an ASCII path has no upper-case
  letter, no underscore and no slash, whatever the file is called, and ends in a dash.\<close>

theorem run_name_characters:
  assumes "is_ascii file" and "path_base file \<noteq> ''/''"
  shows "list_all (\<lambda>c. \<not> is_upper c \<and> c \<noteq> CHR ''_'' \<and> c \<noteq> CHR ''/'')
    (om_GenerateName (task_Meta (run_task u flags ns file content)))"
  using run_name_chars [OF assms]
  by (auto simp: run_task_def list_all_iff is_upper_def)

subsection \<open>The properties at a concrete command\<close>

definition sample_cli :: "cluster cli" where
  "sample_cli = \<lparr>
     cli_env = cluster_env,
     cli_ReadFile = (\<lambda>file w. (Inr ''print(1)'', w)),
     cli_unicode_lower = (\<lambda>s. s),
     cli_Marshal = (\<lambda>t. Inr ''''),
     cli_GetConfig = (\<lambda>w. (None, w)),
     cli_NewForConfig = (\<lambda>w. (None, w)),
     cli_Stream = (\<lambda>ns n c w. (case map_of (cl_pods w) (NamespacedName ns n) of
        None \<Rightarrow> Inl not_found
      | Some p \<Rightarrow> Inr ('''', None), w))\<rparr>"

lemma empty_cluster_wf: "cluster_wf empty_cluster" "\<not> cl_sandbox_crd empty_cluster"
  by (simp_all add: cluster_wf_def stored_under_key_def empty_cluster_def)


lemma delete_removes_task_witness:
  "map_of (cl_tasks (after (world_after (deleteCmd sample_cli ''default'' ''sum'')
      (sample_cluster (sample_at AgentTaskPhaseRunning) 0)) (NamespacedName ''default'' ''sum'')))
      (NamespacedName ''default'' ''sum'') = None
   \<and> pod_gone (after (world_after (deleteCmd sample_cli ''default'' ''sum'')
      (sample_cluster (sample_at AgentTaskPhaseRunning) 0)) (NamespacedName ''default'' ''sum''))
      (sample_at AgentTaskPhaseRunning)"
  by (rule delete_removes_task)
     (use sample_adopted in \<open>simp_all add: sample_cli_def sample_key_def zero_time_def\<close>)

lemma logs_lost_at_the_end_witness:
  "\<exists>e. fst (run_state (logsCmd sample_cli ''default'' ''sum'') (start
      (after (sample_cluster (sample_at AgentTaskPhaseRunning) 0) sample_key))) =
    ('''', Some (FmtWrap ''error in opening stream: '' e))"
proof (rule logs_lost_at_the_end)
  show "ended (sample_at AgentTaskPhaseRunning) (sample_pod PodSucceeded)
      (pod_outcome (sample_pod PodSucceeded))
      (after (sample_cluster (sample_at AgentTaskPhaseRunning) 0) sample_key)"
    by (rule finished [OF sample_adopted])
       (simp_all add: overdue_def sample_pod_def)
qed (simp_all add: sample_cli_def sample_key_def, simp_all add: sample_at_def)

lemma run_name_characters_witness:
  "list_all (\<lambda>c. \<not> is_upper c \<and> c \<noteq> CHR ''_'' \<and> c \<noteq> CHR ''/'')
    (om_GenerateName (task_Meta (run_task id default_run_flags ''default'' ''/tmp/My_Script.py'' '''')))"
  by (rule run_name_characters) (simp_all add: is_ascii_def path_base_def is_slash_def)

end
