(* ===== verification/TabWriter.thy ===== *)
theory TabWriter
  imports GoStrings
begin

text \<open>
  The \<^verbatim>\<open>text/tabwriter\<close> of Go's standard library with flags 0, through which the command
  line tool prints its tables: text is split into cells at tabs and into lines at newlines; the
  cells of a column of consecutive lines are padded to one width when the writer is flushed; a
  line of one cell flushes what is buffered. A string is its list of bytes; the width of a text
  is its number of UTF-8 characters.
\<close>

subsection \<open>UTF-8\<close>

definition byte :: "char \<Rightarrow> nat" where
  "byte c = of_char c"

definition in_range :: "nat \<Rightarrow> nat \<Rightarrow> char \<Rightarrow> bool" where
  "in_range lo hi c \<longleftrightarrow> lo \<le> byte c \<and> byte c \<le> hi"

definition continues :: "nat \<Rightarrow> nat \<Rightarrow> nat \<Rightarrow> string \<Rightarrow> bool" where
  "continues n lo hi s \<longleftrightarrow> n \<le> length s \<and> in_range lo hi (s ! 0) \<and> list_all (in_range 128 191) (take (n - 1) (tl s))"

text \<open>The length of the first character: an invalid byte is a character by itself.\<close>

definition rune_length :: "char \<Rightarrow> string \<Rightarrow> nat" where
  "rune_length c s =
     (let b = byte c in
      if 194 \<le> b \<and> b \<le> 223 \<and> continues 1 128 191 s then 2
      else if b = 224 \<and> continues 2 160 191 s then 3
      else if (225 \<le> b \<and> b \<le> 236 \<or> b = 238 \<or> b = 239) \<and> continues 2 128 191 s then 3
      else if b = 237 \<and> continues 2 128 159 s then 3
      else if b = 240 \<and> continues 3 144 191 s then 4
      else if 241 \<le> b \<and> b \<le> 243 \<and> continues 3 128 191 s then 4
      else if b = 244 \<and> continues 3 128 143 s then 4
      else 1)"

function RuneCount :: "string \<Rightarrow> nat" where
  "RuneCount [] = 0"
| "RuneCount (c # s) = Suc (RuneCount (drop (rune_length c s - 1) s))"
  by pat_completeness auto
termination by (relation "measure length") auto

lemma RuneCount_ascii: "is_ascii s \<Longrightarrow> RuneCount s = length s"
proof (induction s)
  case (Cons c s)
  then have "byte c < 128" "is_ascii s" by (simp_all add: is_ascii_def byte_def)
  then show ?case
    using Cons.IH by (simp add: rune_length_def Let_def)
qed simp

lemma RuneCount_le: "RuneCount s \<le> length s"
  by (induction s rule: RuneCount.induct) (simp, fastforce)

subsection \<open>Layout\<close>

record settings =
  minwidth :: nat
  tabwidth :: nat
  padding :: nat
  padchar :: char

record cell =
  cell_text :: string
  cell_width :: int

type_synonym line = "cell list"

definition tab :: char where "tab = CHR 0x09"
definition newline_char :: char where "newline_char = CHR 0x0A"
definition vertical_tab :: char where "vertical_tab = CHR 0x0B"
definition form_feed :: char where "form_feed = CHR 0x0C"
definition escape_char :: char where "escape_char = CHR 0xFF"

text \<open>\<^verbatim>\<open>writePadding\<close>.\<close>

definition pad :: "settings \<Rightarrow> int \<Rightarrow> nat \<Rightarrow> string" where
  "pad S textw cellw =
     (if padchar S = tab then
        (if tabwidth S = 0 then ''''
         else let cellw' = (cellw + tabwidth S - 1) div tabwidth S * tabwidth S;
                  n = nat (int cellw' - textw)
              in replicate ((n + tabwidth S - 1) div tabwidth S) tab)
      else replicate (nat (int cellw - textw)) (padchar S))"

text \<open>\<^verbatim>\<open>writeLines\<close>: the last buffered line gets no newline.\<close>

fun write_cells :: "settings \<Rightarrow> nat list \<Rightarrow> line \<Rightarrow> string" where
  "write_cells S widths [] = ''''"
| "write_cells S [] (c # cs) = cell_text c @ write_cells S [] cs"
| "write_cells S (w # ws) (c # cs) = cell_text c @ pad S (cell_width c) w @ write_cells S ws cs"

definition write_line :: "settings \<Rightarrow> nat list \<Rightarrow> line \<times> bool \<Rightarrow> string" where
  "write_line S widths l = write_cells S widths (fst l) @ (if snd l then '''' else [newline_char])"

definition write_lines :: "settings \<Rightarrow> nat list \<Rightarrow> (line \<times> bool) list \<Rightarrow> string" where
  "write_lines S widths ls = concat (map (write_line S widths) ls)"

text \<open>A line has a cell in a column when another cell follows it.\<close>

definition has_column :: "nat \<Rightarrow> line \<times> bool \<Rightarrow> bool" where
  "has_column j l \<longleftrightarrow> j + 1 < length (fst l)"

definition column_width :: "settings \<Rightarrow> nat \<Rightarrow> (line \<times> bool) list \<Rightarrow> nat" where
  "column_width S j ls =
     fold (\<lambda>l w. max w (nat (cell_width (fst l ! j) + int (padding S)))) ls (minwidth S)"

lemma size_takeWhile: "sum_list (map f (takeWhile P xs)) \<le> (sum_list (map f xs) :: nat)"
  by (induction xs) auto

lemma size_dropWhile: "sum_list (map f (dropWhile P xs)) \<le> (sum_list (map f xs) :: nat)"
  by (induction xs) auto

text \<open>The work left on lines from a column on: fewer with fewer lines, or with fewer columns left.\<close>

definition work :: "nat \<Rightarrow> (line \<times> bool) list \<Rightarrow> nat" where
  "work j ls = sum_list (map (\<lambda>l. Suc (length (fst l) - j)) ls)"

lemma work_block:
  assumes "dropWhile (\<lambda>l. \<not> has_column j l) ls \<noteq> []"
  defines "rest \<equiv> dropWhile (\<lambda>l. \<not> has_column j l) ls"
  shows "work (Suc j) (takeWhile (has_column j) rest) < work j ls"
    and "work j (dropWhile (has_column j) rest) < work j ls"
proof -
  obtain l rest' where rest: "rest = l # rest'"
    using assms(1) unfolding rest_def [symmetric] by (cases rest) auto
  have "has_column j l"
    using hd_dropWhile [OF assms(1)] unfolding rest_def [symmetric] rest by simp
  note rest = rest this
  have le: "work j rest \<le> work j ls"
    unfolding work_def rest_def by (rule size_dropWhile)
  have "work (Suc j) ys \<le> work j ys" for ys
    unfolding work_def by (induction ys) auto
  from this [of "takeWhile (has_column j) rest'"]
  have "work (Suc j) (takeWhile (has_column j) rest') \<le> work j rest'"
    using size_takeWhile order_trans unfolding work_def by blast
  then show "work (Suc j) (takeWhile (has_column j) rest) < work j ls"
    using le rest by (simp add: work_def has_column_def)
  have "work j (dropWhile (has_column j) rest') \<le> work j rest'"
    unfolding work_def by (rule size_dropWhile)
  then show "work j (dropWhile (has_column j) rest) < work j ls"
    using le rest by (simp add: work_def)
qed

text \<open>
  \<^verbatim>\<open>format\<close>: the lines up to the next column block are written with the widths known; the
  block is formatted with one more width; then the lines after it.
\<close>

function format :: "settings \<Rightarrow> nat list \<Rightarrow> (line \<times> bool) list \<Rightarrow> string" where
  "format S widths ls =
     (let j = length widths;
          skipped = takeWhile (\<lambda>l. \<not> has_column j l) ls;
          rest = dropWhile (\<lambda>l. \<not> has_column j l) ls
      in if rest = [] then write_lines S widths ls
         else write_lines S widths skipped
           @ format S (widths @ [column_width S j (takeWhile (has_column j) rest)])
               (takeWhile (has_column j) rest)
           @ format S widths (dropWhile (has_column j) rest))"
  by pat_completeness auto
termination
  by (relation "measure (\<lambda>(S, widths, ls). work (length widths) ls)") (simp_all add: work_block)

declare format.simps [simp del]

subsection \<open>The writer\<close>

record writer =
  w_lines :: "line list"
  w_line :: line
  w_text :: string
  w_width :: int
  w_fresh :: string
  w_escape :: bool
  w_out :: string

definition new_writer :: writer where
  "new_writer = \<lparr>w_lines = [], w_line = [], w_text = '''', w_width = 0, w_fresh = '''',
     w_escape = False, w_out = ''''\<rparr>"

definition append_byte :: "char \<Rightarrow> writer \<Rightarrow> writer" where
  "append_byte c w = w\<lparr>w_text := w_text w @ [c], w_fresh := w_fresh w @ [c]\<rparr>"

definition updateWidth :: "writer \<Rightarrow> writer" where
  "updateWidth w = w\<lparr>w_width := w_width w + int (RuneCount (w_fresh w)), w_fresh := ''''\<rparr>"

definition endEscape :: "writer \<Rightarrow> writer" where
  "endEscape w = (updateWidth w)\<lparr>w_width := w_width (updateWidth w) - 2, w_escape := False\<rparr>"

definition terminateCell :: "writer \<Rightarrow> writer" where
  "terminateCell w = w\<lparr>w_line := w_line w @ [\<lparr>cell_text = w_text w, cell_width = w_width w\<rparr>],
     w_text := '''', w_width := 0, w_fresh := ''''\<rparr>"

definition addLine :: "writer \<Rightarrow> writer" where
  "addLine w = w\<lparr>w_lines := w_lines w @ [w_line w], w_line := []\<rparr>"

definition buffered :: "writer \<Rightarrow> (line \<times> bool) list" where
  "buffered w = map (\<lambda>l. (l, False)) (w_lines w) @ [(w_line w, True)]"

definition Flush :: "settings \<Rightarrow> writer \<Rightarrow> writer" where
  "Flush S w =
     (let w = (if w_text w \<noteq> '''' then terminateCell (if w_escape w then endEscape w else w) else w)
      in new_writer\<lparr>w_out := w_out w @ format S [] (buffered w)\<rparr>)"

definition write_byte :: "settings \<Rightarrow> char \<Rightarrow> writer \<Rightarrow> writer" where
  "write_byte S c w =
     (if w_escape w then
        (let w = append_byte c w in if c = escape_char then endEscape w else w)
      else if c = tab \<or> c = vertical_tab then terminateCell (updateWidth w)
      else if c = newline_char \<or> c = form_feed then
        (let w = terminateCell (updateWidth w) in
         if c = form_feed \<or> length (w_line w) = 1 then Flush S (addLine w) else addLine w)
      else if c = escape_char then (append_byte c (updateWidth w))\<lparr>w_escape := True\<rparr>
      else append_byte c w)"

definition write_string :: "settings \<Rightarrow> string \<Rightarrow> writer \<Rightarrow> writer" where
  "write_string S s w = fold (write_byte S) s w"

text \<open>Print everything and flush.\<close>

definition tabulate :: "settings \<Rightarrow> string \<Rightarrow> string" where
  "tabulate S s = w_out (Flush S (write_string S s new_writer))"

subsection \<open>Nothing is lost\<close>

text \<open>What remains of a text without separators and padding.\<close>

definition ink :: "settings \<Rightarrow> string \<Rightarrow> string" where
  "ink S s = filter (\<lambda>c. c \<notin> {tab, newline_char, vertical_tab, form_feed, padchar S}) s"

lemma ink_simps [simp]:
  "ink S (xs @ ys) = ink S xs @ ink S ys" "ink S [] = []"
  "ink S (replicate n (padchar S)) = []" "ink S (replicate n tab) = []" "ink S [newline_char] = []"
  by (simp_all add: ink_def)

lemma ink_concat: "ink S (concat xss) = concat (map (ink S) xss)"
  by (induction xss) simp_all

lemma ink_pad [simp]: "ink S (pad S tw cw) = []"
  by (simp add: pad_def Let_def)

definition line_text :: "line \<Rightarrow> string" where
  "line_text l = concat (map cell_text l)"

lemma line_text_simps [simp]: "line_text [] = []" "line_text (xs @ ys) = line_text xs @ line_text ys"
  "line_text (c # cs) = cell_text c @ line_text cs"
  by (simp_all add: line_text_def)

lemma ink_cells: "ink S (write_cells S ws cs) = ink S (line_text cs)"
  by (induction S ws cs rule: write_cells.induct) simp_all

definition lines_text :: "(line \<times> bool) list \<Rightarrow> string" where
  "lines_text ls = concat (map (\<lambda>l. line_text (fst l)) ls)"

lemma lines_text_append [simp]: "lines_text (xs @ ys) = lines_text xs @ lines_text ys"
  by (simp add: lines_text_def)

lemma ink_lines: "ink S (write_lines S ws ls) = ink S (lines_text ls)"
  by (induction ls) (simp_all add: write_lines_def write_line_def ink_cells lines_text_def)

lemma ink_format: "ink S (format S ws ls) = ink S (lines_text ls)"
proof (induction S ws ls rule: format.induct)
  case (1 S ws ls)
  let ?j = "length ws"
  let ?skipped = "takeWhile (\<lambda>l. \<not> has_column ?j l) ls"
  let ?rest = "dropWhile (\<lambda>l. \<not> has_column ?j l) ls"
  let ?text = "\<lambda>ls. ink S (lines_text ls)"
  have split: "?text (takeWhile P xs) @ ?text (dropWhile P xs) = ?text xs" for P xs
    using lines_text_append [of "takeWhile P xs" "dropWhile P xs"]
    by (simp only: takeWhile_dropWhile_id ink_simps)
  show ?case
  proof (cases "?rest = []")
    case True
    then show ?thesis
      by (subst format.simps) (simp add: Let_def ink_lines del: dropWhile_eq_Nil_conv)
  next
    case False
    then have "ink S (format S ws ls) = ?text ?skipped @ ?text (takeWhile (has_column ?j) ?rest)
        @ ?text (dropWhile (has_column ?j) ?rest)"
      by (subst format.simps) (simp add: Let_def ink_lines 1 del: dropWhile_eq_Nil_conv)
    then show ?thesis by (simp add: split)
  qed
qed

text \<open>The text a writer has been given: written out, in finished lines, in the line, in the cell.\<close>

definition received :: "writer \<Rightarrow> string" where
  "received w = w_out w @ concat (map line_text (w_lines w)) @ line_text (w_line w) @ w_text w"

lemma received_simps [simp]:
  "received (append_byte c w) = received w @ [c]" "received (updateWidth w) = received w"
  "received (endEscape w) = received w" "received (terminateCell w) = received w"
  "received (addLine w) = received w" "received new_writer = []"
  "received (w\<lparr>w_escape := b\<rparr>) = received w"
  by (simp_all add: received_def append_byte_def updateWidth_def endEscape_def terminateCell_def
      addLine_def new_writer_def)

lemma ink_Flush: "ink S (w_out (Flush S w)) = ink S (received w)"
proof -
  define v where "v = (if w_text w \<noteq> '''' then terminateCell (if w_escape w then endEscape w else w) else w)"
  have "received v = received w" by (simp add: v_def)
  moreover have "w_text v = ''''" by (simp add: v_def terminateCell_def)
  moreover have "w_out (Flush S w) = w_out v @ format S [] (buffered v)"
    by (simp add: Flush_def Let_def v_def [symmetric])
  moreover have "lines_text (buffered v) = concat (map line_text (w_lines v)) @ line_text (w_line v)"
    by (simp add: buffered_def lines_text_def comp_def)
  ultimately show ?thesis
    by (simp add: ink_format received_def [of v] flip: \<open>received v = received w\<close>)
qed

lemma received_Flush: "received (Flush S w) = w_out (Flush S w)"
  by (simp add: Flush_def received_def new_writer_def Let_def)

lemma ink_write_byte: "ink S (received (write_byte S c w)) = ink S (received w) @ ink S [c]"
  by (auto simp: write_byte_def Let_def received_Flush ink_Flush) (simp_all add: ink_def)

lemma ink_tabulate: "ink S (tabulate S s) = ink S s"
proof -
  have "ink S (received (fold (write_byte S) s w)) = ink S (received w) @ ink S s" for w
  proof (induction s arbitrary: w)
    case (Cons c s)
    then show ?case
      using ink_simps(1) [of S "[c]" s] by (simp add: ink_write_byte)
  qed simp
  then show ?thesis
    by (simp add: tabulate_def write_string_def ink_Flush)
qed

subsection \<open>Tables\<close>

text \<open>
  Rows of the same number of fields, none with a separator in it: the columns are as wide as
  their widest field and the padding, and every field but the last of a row is padded to the
  width of its column.
\<close>

definition plain :: "string \<Rightarrow> bool" where
  "plain s \<longleftrightarrow> set s \<inter> {tab, newline_char, vertical_tab, form_feed, escape_char} = {}"

fun layout :: "char \<Rightarrow> nat list \<Rightarrow> string list \<Rightarrow> string" where
  "layout p ws [] = ''''"
| "layout p [] (f # fs) = f @ layout p [] fs"
| "layout p (w # ws) (f # fs) = f @ replicate (w - RuneCount f) p @ layout p ws fs"

definition table_width :: "settings \<Rightarrow> string list list \<Rightarrow> nat \<Rightarrow> nat" where
  "table_width S rows j = Max (insert (minwidth S) ((\<lambda>r. RuneCount (r ! j) + padding S) ` set rows))"

definition table :: "settings \<Rightarrow> nat \<Rightarrow> string list list \<Rightarrow> string" where
  "table S n rows = concat (map (\<lambda>r. layout (padchar S) (map (table_width S rows) [0..<n - 1]) r
     @ [newline_char]) rows)"

definition row_text :: "string list \<Rightarrow> string" where
  "row_text fds = join [tab] fds @ [newline_char]"

definition field_cell :: "string \<Rightarrow> cell" where
  "field_cell f = \<lparr>cell_text = f, cell_width = int (RuneCount f)\<rparr>"

lemma separators_distinct [simp]:
  "newline_char \<noteq> tab" "vertical_tab \<noteq> tab" "form_feed \<noteq> tab" "escape_char \<noteq> tab"
  "tab \<noteq> newline_char" "vertical_tab \<noteq> newline_char" "form_feed \<noteq> newline_char" "escape_char \<noteq> newline_char"
  "newline_char \<noteq> form_feed" "newline_char \<noteq> vertical_tab" "tab \<noteq> form_feed"
  by (simp_all add: tab_def newline_char_def vertical_tab_def form_feed_def escape_char_def)

lemma write_plain:
  "\<lbrakk>plain s; \<not> w_escape w\<rbrakk> \<Longrightarrow> write_string S s w = w\<lparr>w_text := w_text w @ s, w_fresh := w_fresh w @ s\<rparr>"
proof (induction s arbitrary: w)
  case (Cons c s)
  then have "write_byte S c w = append_byte c w" "plain s"
    by (auto simp: write_byte_def plain_def)
  with Cons show ?case
    by (simp add: write_string_def append_byte_def)
qed (simp add: write_string_def)

text \<open>A writer between two cells.\<close>

definition ready_writer :: "writer \<Rightarrow> bool" where
  "ready_writer w \<longleftrightarrow> w_text w = '''' \<and> w_fresh w = '''' \<and> w_width w = 0 \<and> \<not> w_escape w"

lemma write_field:
  assumes "plain f" "ready_writer w" "c = tab"
  shows "write_string S (f @ [c]) w = w\<lparr>w_line := w_line w @ [field_cell f]\<rparr>"
  using write_plain [OF assms(1), of w S] assms(2,3)
  by (simp add: ready_writer_def write_string_def write_byte_def terminateCell_def updateWidth_def
      field_cell_def)

lemma write_string_append: "write_string S (s @ t) w = write_string S t (write_string S s w)"
  by (simp add: write_string_def)

lemma write_row:
  assumes "fds \<noteq> []" "\<forall>f \<in> set fds. plain f" "ready_writer w"
    and "length (w_line w) + length fds \<noteq> 1"
  shows "write_string S (row_text fds) w =
    w\<lparr>w_lines := w_lines w @ [w_line w @ map field_cell fds], w_line := []\<rparr>"
  using assms
proof (induction "[tab]" fds arbitrary: w rule: join.induct)
  case (2 f)
  then have "write_string S f w = w\<lparr>w_text := f, w_fresh := f\<rparr>"
    using write_plain [of f w S] by (simp add: ready_writer_def)
  then show ?case
    using 2 by (simp add: row_text_def write_string_append)
      (simp add: write_string_def write_byte_def ready_writer_def terminateCell_def updateWidth_def
        addLine_def Let_def field_cell_def)
next
  case (3 f g fs)
  let ?w = "w\<lparr>w_line := w_line w @ [field_cell f]\<rparr>"
  have eq: "row_text (f # g # fs) = (f @ [tab]) @ row_text (g # fs)"
    by (simp add: row_text_def)
  have "write_string S (row_text (g # fs)) ?w =
      ?w\<lparr>w_lines := w_lines ?w @ [w_line ?w @ map field_cell (g # fs)], w_line := []\<rparr>"
    using 3 by (intro "3.hyps") (simp_all add: ready_writer_def)
  moreover have "write_string S (f @ [tab]) w = ?w"
    using write_field [of f w tab S] 3 by simp
  ultimately show ?case
    unfolding eq write_string_append [of S "f @ [tab]"] by simp
qed simp

lemma write_rows:
  assumes "\<forall>r \<in> set rows. length r = n \<and> (\<forall>f \<in> set r. plain f)" "2 \<le> n" "ready_writer w" "w_line w = []"
  shows "write_string S (concat (map row_text rows)) w =
    w\<lparr>w_lines := w_lines w @ map (map field_cell) rows\<rparr>"
  using assms
proof (induction rows arbitrary: w)
  case (Cons r rows)
  have "write_string S (row_text r) w = w\<lparr>w_lines := w_lines w @ [map field_cell r]\<rparr>"
  proof -
    have "r \<noteq> []" "length (w_line w) + length r \<noteq> 1" using Cons.prems by auto
    then show ?thesis
      using write_row [of r w S] Cons.prems by (cases w) simp
  qed
  then show ?case
    using Cons by (simp add: write_string_append ready_writer_def)
qed (simp add: write_string_def)

text \<open>One block of lines at a time.\<close>

lemma format_flat:
  "\<forall>l \<in> set ls. \<not> has_column (length ws) l \<Longrightarrow> format S ws ls = write_lines S ws ls"
  by (subst format.simps) (simp add: Let_def)

lemma format_block:
  assumes "block \<noteq> []" "\<forall>l \<in> set block. has_column (length ws) l"
    and "\<forall>l \<in> set (take 1 rest). \<not> has_column (length ws) l"
  shows "format S ws (block @ rest) =
    format S (ws @ [column_width S (length ws) block]) block @ format S ws rest"
proof -
  let ?has = "has_column (length ws)"
  obtain l ls where block: "block = l # ls" "?has l" using assms(1,2) by (cases block) auto
  have "takeWhile (\<lambda>l. \<not> ?has l) (block @ rest) = []" "dropWhile (\<lambda>l. \<not> ?has l) (block @ rest) = block @ rest"
    using block by simp_all
  moreover have "takeWhile ?has (block @ rest) = block" "dropWhile ?has (block @ rest) = rest"
    using assms(2,3) by (cases rest; simp add: takeWhile_append2 dropWhile_append2)+
  ultimately show ?thesis
    using assms(1) by (subst format.simps) (simp only: Let_def append_is_Nil_conv write_lines_def, simp)
qed

text \<open>Formatting lines of one length.\<close>

lemma format_uniform:
  "\<lbrakk>\<forall>l \<in> set ls. length (fst l) = n; length ws < n\<rbrakk> \<Longrightarrow>
   format S ws ls = write_lines S (ws @ map (\<lambda>j. column_width S j ls) [length ws..<n - 1]) ls"
proof (induction "n - length ws" arbitrary: ws)
  case (Suc m)
  show ?case
  proof (cases "length ws + 1 < n")
    case True
    then have has: "\<forall>l \<in> set ls. has_column (length ws) l"
      using Suc.prems by (simp add: has_column_def)
    show ?thesis
    proof (cases "ls = []")
      case True
      then show ?thesis by (simp add: format_flat write_lines_def)
    next
      case False
      then have "format S ws ls = format S (ws @ [column_width S (length ws) ls]) ls"
        using format_block [OF False has, of "[]" S] by (simp add: format_flat write_lines_def)
      also have "\<dots> = write_lines S (ws @ column_width S (length ws) ls
          # map (\<lambda>j. column_width S j ls) [Suc (length ws)..<n - 1]) ls"
        using Suc.hyps(1) [of "ws @ [column_width S (length ws) ls]"] Suc.hyps(2) Suc.prems True by simp
      finally show ?thesis
        using True by (simp add: upt_conv_Cons)
    qed
  next
    case False
    then show ?thesis
      using Suc.prems by (subst format_flat) (auto simp: has_column_def)
  qed
qed simp

lemma column_width_Max:
  "column_width S j ls = Max (insert (minwidth S) ((\<lambda>l. nat (cell_width (fst l ! j) + int (padding S))) ` set ls))"
proof -
  have "fold (\<lambda>l w. max w (f l)) ls m = fold max (map f ls) m"
    for f :: "line \<times> bool \<Rightarrow> nat" and m
    by (induction ls arbitrary: m) (simp_all add: max.commute)
  then have "fold (\<lambda>l w. max w (f l)) ls m = Max (insert m (f ` set ls))"
    for f :: "line \<times> bool \<Rightarrow> nat" and m
    using Max.set_eq_fold [of m "map f ls"] by simp
  then show ?thesis by (simp add: column_width_def)
qed

lemma write_cells_layout:
  "padchar S \<noteq> tab \<Longrightarrow> write_cells S ws (map field_cell r) = layout (padchar S) ws r"
  by (induction "padchar S" ws r rule: layout.induct) (simp_all add: field_cell_def pad_def)

lemma table_lines:
  assumes "\<forall>r \<in> set rows. length r = n" "2 \<le> n" "padchar S \<noteq> tab"
  shows "format S [] (map (\<lambda>l. (l, False)) (map (map field_cell) rows) @ [([], True)]) = table S n rows"
proof -
  let ?ls = "map (\<lambda>r. (map field_cell r, False)) rows"
  have width: "column_width S j ?ls = table_width S rows j" if "j < n" for j
    using assms(1) that
    by (auto simp: column_width_Max table_width_def image_image field_cell_def nat_int_add
        intro!: arg_cong [of _ _ Max] image_cong)
  have "write_lines S (map (\<lambda>j. column_width S j ?ls) [0..<n - 1]) ?ls = table S n rows"
    using assms(2,3) width
  proof -
    have "map (\<lambda>j. column_width S j ?ls) [0..<n - 1] = map (table_width S rows) [0..<n - 1]"
      using width by (intro map_cong) auto
    from this [symmetric] show ?thesis
      unfolding table_def using assms(3)
      by (simp only:) (simp add: write_lines_def write_line_def write_cells_layout comp_def)
  qed
  then have rows: "format S [] ?ls = table S n rows"
    using format_uniform [of ?ls n "[]" S] assms by simp
  have last: "format S ws [([], True)] = ''''" for ws
    by (subst format.simps) (simp add: has_column_def write_lines_def write_line_def)
  show ?thesis
  proof (cases rows)
    case Nil
    then show ?thesis by (simp add: last table_def)
  next
    case (Cons r rows')
    have has: "\<forall>l \<in> set ?ls. has_column 0 l"
      using assms(1,2) by (auto simp: has_column_def)
    moreover have "?ls \<noteq> []" using Cons by simp
    ultimately have "format S [] (?ls @ rest) = format S [column_width S 0 ?ls] ?ls @ format S [] rest"
      if "rest = [] \<or> rest = [([], True)]" for rest
      using format_block [of ?ls "[]" rest S] that by (auto simp: has_column_def)
    from this [of "[]"] this [of "[([], True)]"] show ?thesis
      using rows last by (simp add: comp_def format_flat write_lines_def)
  qed
qed

lemma tabulate_table:
  assumes "\<forall>r \<in> set rows. length r = n \<and> (\<forall>f \<in> set r. plain f)" "2 \<le> n" "padchar S \<noteq> tab"
  shows "tabulate S (concat (map row_text rows)) = table S n rows"
proof -
  have "ready_writer new_writer" by (simp add: ready_writer_def new_writer_def)
  then have "write_string S (concat (map row_text rows)) new_writer
      = new_writer\<lparr>w_lines := map (map field_cell) rows\<rparr>"
    using write_rows [OF assms(1,2)] by (simp add: new_writer_def)
  then show ?thesis
    using table_lines [of rows n S] assms
    by (simp add: tabulate_def Flush_def buffered_def new_writer_def)
qed

end
