(* ===== verification/Reports.thy ===== *)
theory Reports
  imports AgentCtl TabWriter GoTime "HOL-Library.List_Lexorder" "HOL-Library.Char_ord"
begin

text \<open>
  The commands list and describe of the command line tool (cmd/agentctl/cmd/list.go and
  describe.go): the text each writes to its tab writer, and the report the tab writer makes of
  it on standard output. The ages and durations are worded by
  \<^verbatim>\<open>duration.HumanDuration\<close> of k8s.io/apimachinery, a parameter, like the offset of
  the local time zone.
\<close>

record 'w reports = "'w cli" +
  rp_HumanDuration :: "duration \<Rightarrow> string"
  rp_zone :: "instant \<Rightarrow> int"
  rp_New :: "'w \<Rightarrow> gerror option \<times> 'w"

subsection \<open>The root command\<close>

text \<open>The hook cobra runs before a command, and the process's exit status, given what cobra's
  \<^verbatim>\<open>Execute\<close> returns.\<close>

definition PersistentPreRunE :: "'w reports \<Rightarrow> ('w, gerror option) act" where
  "PersistentPreRunE R = do {
     g \<leftarrow> quiet (cli_GetConfig R);
     (case g of
        Some err \<Rightarrow> ret (Some err)
      | None \<Rightarrow> do {
          c \<leftarrow> quiet (rp_New R);
          (case c of Some err \<Rightarrow> ret (Some err) | None \<Rightarrow> ret None)
        })
   }"

definition Execute :: "('w, gerror option) act \<Rightarrow> ('w, nat) act" where
  "Execute rootCmd_Execute = do {
     err \<leftarrow> rootCmd_Execute;
     (case err of Some e \<Rightarrow> ret 1 | None \<Rightarrow> ret 0)
   }"

text \<open>The hook makes no request.\<close>

lemma prerun_silent: "wp (PersistentPreRunE R) (\<lambda>r s'. st_log s' = st_log s) s"
  by (auto simp: PersistentPreRunE_def wp_simps split: prod.splits option.splits)

subsection \<open>Formatting verbs\<close>

text \<open>\<^verbatim>\<open>%d\<close> of a signed integer, and \<^verbatim>\<open>%v\<close> of a map of strings, whose
  entries come in the order of their keys.\<close>

definition show_int :: "int \<Rightarrow> string" where
  "show_int i = (if i < 0 then CHR ''-'' # show_nat (nat (- i)) else show_nat (nat i))"

definition show_map :: "(string \<rightharpoonup> string) \<Rightarrow> string" where
  "show_map m = ''map['' @ join '' '' (map (\<lambda>k. k @ '':'' @ the (m k)) (sorted_list_of_set (dom m)))
     @ '']''"

subsection \<open>list\<close>

definition list_settings :: settings where
  "list_settings = \<lparr>minwidth = 0, tabwidth = 0, padding = 3, padchar = CHR '' ''\<rparr>"

definition list_header :: "string list" where
  "list_header = [''NAME'', ''PHASE'', ''REASON'', ''AGE'', ''POD'']"

definition list_age :: "'w reports \<Rightarrow> AgentTask \<Rightarrow> ('w, string) act" where
  "list_age R task =
     (if om_CreationTimestamp (task_Meta task) = zero_time then ret ''Unknown''
      else do {
        now \<leftarrow> Now (cli_env R);
        ret (rp_HumanDuration R (time_sub now (om_CreationTimestamp (task_Meta task))))
      })"

definition list_row :: "AgentTask \<Rightarrow> string \<Rightarrow> string list" where
  "list_row task age =
     (let Phase = task_Phase task;
          Phase' = (if Phase = '''' then ''Pending'' else Phase)
      in [task_Name task, Phase', status_Reason (task_Status task), age,
          ref_Name (status_PodRef (task_Status task))])"

fun list_rows :: "'w reports \<Rightarrow> AgentTask list \<Rightarrow> ('w, string) act" where
  "list_rows R [] = ret ''''"
| "list_rows R (task # tasks) = do {
     age \<leftarrow> list_age R task;
     rest \<leftarrow> list_rows R tasks;
     ret (row_text (list_row task age) @ rest)
   }"

definition listCmd :: "'w reports \<Rightarrow> string \<Rightarrow> ('w, outcome) act" where
  "listCmd R rootNamespace = do {
     r \<leftarrow> ListTasks (cli_env R) rootNamespace;
     (case r of
        Inl err \<Rightarrow> ret ('''', Some err)
      | Inr taskList \<Rightarrow> do {
          rows \<leftarrow> list_rows R (list_Items taskList);
          ret (tabulate list_settings (row_text list_header @ rows), None)
        })
   }"

subsection \<open>describe\<close>

definition describe_settings :: settings where
  "describe_settings = \<lparr>minwidth = 0, tabwidth = 8, padding = 1, padchar = tab\<rparr>"

text \<open>A line of a label, a tab and a value; a line that is printed only for a text that is not
  empty; a heading.\<close>

definition entry :: "string \<Rightarrow> string \<Rightarrow> string" where
  "entry label v = label @ '':'' @ [tab] @ v @ [newline_char]"

definition entry_unless_empty :: "string \<Rightarrow> string \<Rightarrow> string" where
  "entry_unless_empty label v = (if v = '''' then '''' else entry label v)"

definition heading :: "string \<Rightarrow> string" where
  "heading label = [newline_char] @ label @ '':'' @ [newline_char]"

definition describe_times :: "'w reports \<Rightarrow> AgentTaskStatus \<Rightarrow> string" where
  "describe_times R status =
     (case status_StartTime status of None \<Rightarrow> ''''
        | Some t \<Rightarrow> entry ''  Start Time'' (rfc3339 (rp_zone R) t))
     @ (case status_CompletionTime status of None \<Rightarrow> ''''
        | Some c \<Rightarrow> entry ''  Completion Time'' (rfc3339 (rp_zone R) c)
            @ (case status_StartTime status of None \<Rightarrow> ''''
               | Some t \<Rightarrow> entry ''  Duration'' (rp_HumanDuration R (time_sub c t))))"

definition describe_text :: "'w reports \<Rightarrow> AgentTask \<Rightarrow> string" where
  "describe_text R task =
     entry ''Name'' (task_Name task)
     @ entry ''Namespace'' (task_Namespace task)
     @ entry ''Labels'' (show_map (om_Labels (task_Meta task)))
     @ entry ''Annotations'' (show_map (om_Annotations (task_Meta task)))
     @ heading ''Status''
     @ entry_unless_empty ''  Reason'' (status_Reason (task_Status task))
     @ entry_unless_empty ''  Message'' (status_Message (task_Status task))
     @ describe_times R (task_Status task)
     @ heading ''Execution''
     @ entry_unless_empty ''  Pod Name'' (ref_Name (status_PodRef (task_Status task)))
     @ entry ''  Exit Code'' (show_int (sint (status_ExitCode (task_Status task))))
     @ (case status_Result (task_Status task) of None \<Rightarrow> ''''
        | Some result \<Rightarrow> heading ''Result'' @ entry_unless_empty ''  JSON'' (er_JSON result))"

definition describeCmd :: "'w reports \<Rightarrow> string \<Rightarrow> string \<Rightarrow> ('w, outcome) act" where
  "describeCmd R rootNamespace name = do {
     r \<leftarrow> GetTask (cli_env R) (NamespacedName rootNamespace name);
     (case r of
        Inl err \<Rightarrow> ret ('''', Some err)
      | Inr task \<Rightarrow> ret (tabulate describe_settings (describe_text R task), None))
   }"


subsection \<open>What the reports show\<close>

text \<open>The age of a task when the clock reads an instant; the rows of tasks with the readings of
  the clock, which is read for the tasks with a creation time only.\<close>

definition age_at :: "'w reports \<Rightarrow> AgentTask \<Rightarrow> instant \<Rightarrow> string" where
  "age_at R task now =
     (if om_CreationTimestamp (task_Meta task) = zero_time then ''Unknown''
      else rp_HumanDuration R (time_sub now (om_CreationTimestamp (task_Meta task))))"

definition rows_at :: "'w reports \<Rightarrow> AgentTask list \<Rightarrow> instant list \<Rightarrow> string list list" where
  "rows_at R tasks nows = map (\<lambda>(task, now). list_row task (age_at R task now)) (zip tasks nows)"

definition clock_log :: "AgentTask list \<Rightarrow> instant list \<Rightarrow> event list" where
  "clock_log tasks nows = map (Read_Clock \<circ> snd)
     (filter (\<lambda>(task, now). om_CreationTimestamp (task_Meta task) \<noteq> zero_time) (zip tasks nows))"

lemma rows_at_simps [simp]:
  "rows_at R [] nows = []"
  "rows_at R (task # tasks) (now # nows) = list_row task (age_at R task now) # rows_at R tasks nows"
  by (simp_all add: rows_at_def)

lemma clock_log_simps [simp]:
  "clock_log [] nows = []"
  "clock_log (task # tasks) (now # nows) =
     (if om_CreationTimestamp (task_Meta task) = zero_time then [] else [Read_Clock now])
       @ clock_log tasks nows"
  by (simp_all add: clock_log_def)

lemma list_age_read:
  "wp (list_age R task) (\<lambda>age s'. \<exists>now. age = age_at R task now
     \<and> st_log s' = st_log s @ clock_log [task] [now]) s"
  by (auto simp: list_age_def Now_def wp_simps age_at_def clock_log_def split: prod.splits)

lemma list_rows_written:
  "wp (list_rows (R :: 'w reports) tasks) (\<lambda>out s'. \<exists>nows. length nows = length tasks
     \<and> out = concat (map row_text (rows_at R tasks nows))
     \<and> st_log s' = st_log s @ clock_log tasks nows) s"
proof (induction tasks arbitrary: s)
  case Nil
  then show ?case by (simp add: wp_simps)
next
  case (Cons task tasks)
  show ?case
    unfolding list_rows.simps wp_bind
  proof (rule wp_conseq [OF list_age_read [of R task s]], elim exE conjE)
    fix age now and s1 :: "'w st"
    assume age: "age = age_at R task now" and log: "st_log s1 = st_log s @ clock_log [task] [now]"
    show "wp (list_rows R tasks) (\<lambda>rest. wp (ret (row_text (list_row task age) @ rest))
       (\<lambda>out s'. \<exists>nows. length nows = length (task # tasks)
         \<and> out = concat (map row_text (rows_at R (task # tasks) nows))
         \<and> st_log s' = st_log s @ clock_log (task # tasks) nows)) s1"
      by (rule wp_conseq [OF Cons.IH [of s1]], elim exE conjE, unfold wp_return)
         (rule_tac x = "now # nows" in exI, simp add: age log)
  qed
qed

text \<open>A task whose printed fields hold no separator of the tab writer.\<close>

definition plain_task :: "AgentTask \<Rightarrow> bool" where
  "plain_task task \<longleftrightarrow> plain (task_Name task) \<and> plain (task_Phase task)
     \<and> plain (status_Reason (task_Status task)) \<and> plain (ref_Name (status_PodRef (task_Status task)))"

lemma plain_literals:
  "\<forall>f \<in> set list_header. plain f" "plain ''Unknown''" "plain ''Pending''"
  by (simp_all add: list_header_def plain_def tab_def newline_char_def vertical_tab_def
      form_feed_def escape_char_def)

lemma rows_at_plain:
  assumes "\<forall>task \<in> set tasks. plain_task task" "\<And>d. plain (rp_HumanDuration R d)"
    "row \<in> set (rows_at R tasks nows)"
  shows "length row = 5 \<and> (\<forall>f \<in> set row. plain f)"
  using assms plain_literals(2,3)
  by (auto simp: rows_at_def list_row_def age_at_def plain_task_def Let_def dest!: set_zip_leftD)

text \<open>C34: \<^verbatim>\<open>agentctl list\<close> prints an aligned table. Whatever the environment answers, when
  the command succeeds it has made one list request and read the clock once for each task with a
  creation time, and, if no printed field holds a tab or another separator, its output is the
  header and one row for each task of the answer, in order, each column as wide as its widest
  field and three blanks: the tab writer's column blocks compute this table.\<close>

theorem list_prints_a_table:
  assumes "run_state (listCmd R ns) (start w) = ((out, None), s)"
    and "\<And>d. plain (rp_HumanDuration R d)"
  shows "\<exists>taskList nows. length nows = length (list_Items taskList)
     \<and> st_log s = List_Tasks ns (Inr taskList) # clock_log (list_Items taskList) nows
     \<and> ((\<forall>task \<in> set (list_Items taskList). plain_task task) \<longrightarrow>
          out = table list_settings 5 (list_header # rows_at R (list_Items taskList) nows))"
proof -
  have "wp (listCmd R ns) (\<lambda>(out, err) s. err = None \<longrightarrow> (\<exists>taskList nows.
      length nows = length (list_Items taskList)
     \<and> st_log s = List_Tasks ns (Inr taskList) # clock_log (list_Items taskList) nows
     \<and> out = tabulate list_settings (concat (map row_text
          (list_header # rows_at R (list_Items taskList) nows))))) (start w)"
    unfolding listCmd_def ListTasks_def
  proof (intro wp_intro, goal_cases)
    case (2 r w' taskList)
    show ?case
      by (rule wp_conseq [OF list_rows_written]) (use 2 in \<open>auto simp: wp_simps\<close>)
  qed simp
  from wp_runD [OF this assms(1)] obtain taskList nows where
    run: "length nows = length (list_Items taskList)"
      "st_log s = List_Tasks ns (Inr taskList) # clock_log (list_Items taskList) nows"
    and out: "out = tabulate list_settings (concat (map row_text
          (list_header # rows_at R (list_Items taskList) nows)))"
    by auto
  have "out = table list_settings 5 (list_header # rows_at R (list_Items taskList) nows)"
    if "\<forall>task \<in> set (list_Items taskList). plain_task task"
    unfolding out
    by (rule tabulate_table)
       (use rows_at_plain [OF that assms(2)] plain_literals(1) in
         \<open>auto simp: list_header_def list_settings_def tab_def\<close>)
  with run show ?thesis by blast
qed

text \<open>\<^verbatim>\<open>agentctl describe\<close> loses no text. Its output is the text of the report with
  only tabs, line breaks and padding moved: every other character of every field is printed, in
  order, whatever the fields hold.\<close>

theorem describe_loses_nothing:
  assumes "env_GetTask (cli_env R) (NamespacedName ns name) w = (Inr task, w')"
  shows "\<exists>out. fst (run_state (describeCmd R ns name) (start w)) = (out, None)
     \<and> ink describe_settings out = ink describe_settings (describe_text R task)"
proof -
  have "wp (describeCmd R ns name) (\<lambda>r s. r = (tabulate describe_settings (describe_text R task), None))
      (start w)"
    by (simp add: describeCmd_def GetTask_def wp_simps assms)
  then show ?thesis
    by (auto simp: wp_def ink_tabulate split: prod.splits)
qed

lemma text_around:
  "\<exists>before after. a1 @ a2 @ a3 @ a4 @ a5 @ a6 @ a7 @ x @ y @ rest = before @ x @ y @ (after :: string)"
  by (rule exI [of _ "a1 @ a2 @ a3 @ a4 @ a5 @ a6 @ a7"], rule exI [of _ rest]) simp

text \<open>The times \<^verbatim>\<open>agentctl describe\<close> prints read back. For every task with a start
  time and a completion time in a year of four digits, in a zone of whole minutes, the report
  holds a start line and a completion line whose texts denote the seconds of the two instants.\<close>

theorem describe_times_read_back:
  assumes "status_StartTime (task_Status task) = Some t"
    and "status_CompletionTime (task_Status task) = Some c"
    and "printable (rp_zone R) t" and "printable (rp_zone R) c"
  shows "\<exists>before started completed after. describe_text R task = before
       @ entry ''  Start Time'' started @ entry ''  Completion Time'' completed @ after
     \<and> rfc3339_second started = unix_second t \<and> rfc3339_second completed = unix_second c"
proof -
  have "\<exists>before after. describe_text R task = before
       @ entry ''  Start Time'' (rfc3339 (rp_zone R) t)
       @ entry ''  Completion Time'' (rfc3339 (rp_zone R) c) @ after"
    unfolding describe_text_def describe_times_def assms(1,2) option.case append_assoc
    by (rule text_around)
  with rfc3339_roundtrip [OF assms(3)] rfc3339_roundtrip [OF assms(4)] show ?thesis by blast
qed

text \<open>\<^verbatim>\<open>agentctl describe\<close> does not show the phase of a task: two tasks that differ in
  their phase only have the same report.\<close>

theorem describe_hides_phase:
  "describe_text R (task\<lparr>task_Status := (task_Status task)\<lparr>status_Phase := p\<rparr>\<rparr>) = describe_text R task"
  by (simp add: describe_text_def describe_times_def split: option.split)

subsection \<open>The properties at a concrete report\<close>

definition sample_reports :: "cluster reports" where
  "sample_reports = cli.extend sample_cli
     \<lparr>rp_HumanDuration = (\<lambda>d. show_int (sint d div 1000000000) @ ''s''), rp_zone = (\<lambda>t. 7200), rp_New = (\<lambda>w. (None, w))\<rparr>"

definition sample_world :: cluster where
  "sample_world = sample_cluster (sample_at AgentTaskPhaseRunning) 5000000000"

lemma plain_digits: "plain (show_nat n)"
proof (induction n rule: show_nat.induct)
  case (1 n)
  have "plain [''0123456789'' ! (m mod 10)]" for m :: nat
  proof -
    have "''0123456789'' ! (m mod 10) \<in> set ''0123456789''" by (rule nth_mem) simp
    then show ?thesis
      by (auto simp: plain_def tab_def newline_char_def vertical_tab_def form_feed_def escape_char_def)
  qed
  from this [of n] 1 show ?case
    by (subst show_nat.simps) (auto simp: plain_def)
qed

lemma sample_reports_simps:
  "cli_env sample_reports = cluster_env" "plain (rp_HumanDuration sample_reports d)"
  "rp_zone sample_reports = (\<lambda>t. 7200)"
proof -
  show "plain (rp_HumanDuration sample_reports d)"
    using plain_digits
    by (simp add: sample_reports_def cli.defs show_int_def plain_def tab_def newline_char_def
        vertical_tab_def form_feed_def escape_char_def)
qed (simp_all add: sample_reports_def cli.defs sample_cli_def)

lemma sample_list:
  "run_state (listCmd sample_reports ''default'') (start sample_world) = ((out, err), s) \<Longrightarrow>
     err = None \<and> hd (st_log s) = List_Tasks ''default'' (Inr \<lparr>list_Items = [sample_at AgentTaskPhaseRunning]\<rparr>)"
proof -
  have "wp (listCmd sample_reports ''default'') (\<lambda>(out, err) s. err = None \<and> hd (st_log s) =
      List_Tasks ''default'' (Inr \<lparr>list_Items = [sample_at AgentTaskPhaseRunning]\<rparr>)) (start sample_world)"
    by (simp add: listCmd_def ListTasks_def list_age_def Now_def wp_simps sample_reports_simps
        cluster_env_def cl_list_tasks_def sample_world_def sample_cluster_def sample_key_def)
  then show "run_state (listCmd sample_reports ''default'') (start sample_world) = ((out, err), s) \<Longrightarrow>
     err = None \<and> hd (st_log s) = List_Tasks ''default'' (Inr \<lparr>list_Items = [sample_at AgentTaskPhaseRunning]\<rparr>)"
    by (auto dest: wp_runD)
qed

lemma list_prints_a_table_witness:
  "\<exists>nows. length nows = 1 \<and> fst (run_state (listCmd sample_reports ''default'') (start sample_world)) =
     (table list_settings 5 (list_header # rows_at sample_reports [sample_at AgentTaskPhaseRunning] nows), None)"
proof -
  obtain out err s where run: "run_state (listCmd sample_reports ''default'') (start sample_world) = ((out, err), s)"
    by (metis prod.exhaust)
  note sample = sample_list [OF run]
  have plain: "plain_task (sample_at AgentTaskPhaseRunning)"
    by (simp add: plain_task_def plain_def sample_at_def phase_defs tab_def newline_char_def
        vertical_tab_def form_feed_def escape_char_def empty_status_def)
  from list_prints_a_table [of sample_reports "''default''" sample_world out s] run sample
  show ?thesis
    using plain by (auto simp: sample_reports_simps)
qed

lemma describe_loses_nothing_witness:
  "\<exists>out. fst (run_state (describeCmd sample_reports ''default'' ''sum'') (start sample_world)) = (out, None)
     \<and> ink describe_settings out =
         ink describe_settings (describe_text sample_reports (sample_at AgentTaskPhaseRunning))"
  by (rule describe_loses_nothing)
     (simp add: sample_reports_simps cluster_env_def sample_world_def sample_key_def [symmetric])

lemma describe_times_read_back_witness:
  "\<exists>before started completed after. describe_text sample_reports (sample_at AgentTaskPhaseRunning) = before
       @ entry ''  Start Time'' started @ entry ''  Completion Time'' completed @ after
     \<and> rfc3339_second started = 0 \<and> rfc3339_second completed = 0"
proof -
  have "printable (rp_zone sample_reports) 0"
    by (simp add: printable_def sample_reports_simps unix_second_def civil_date_def year_and_day_def
        month_and_day_def days_before_def leap_year_def Let_def)
  from describe_times_read_back [OF _ _ this this, of "sample_at AgentTaskPhaseRunning"] show ?thesis
    by (simp add: sample_at_def unix_second_def)
qed

end
