(* ===== verification/CommandTree.thy ===== *)
theory CommandTree
  imports Reports
begin

text \<open>
  The command tree of agentctl as data (cmd/agentctl/cmd): each command with its use line, its
  rule for arguments, its flags and its function, put together by the init functions of the
  package in the order of its files; and the process, from the command line to its exit status.
  How cobra reads a command line is the parameter \<open>cobra\<close>, how pflag reads an integer the
  parameter \<open>ParseInt32\<close>.
\<close>

subsection \<open>Flags\<close>

text \<open>The package variables the flags set.\<close>

record vars =
  v_run :: RunFlags
  v_rootNamespace :: string

definition zero_vars :: vars where
  "zero_vars = \<lparr>v_run = \<lparr>runImage = '''', runTimeout = 0, runTenant = '''', runBackend = ''''\<rparr>,
     v_rootNamespace = ''''\<rparr>"

text \<open>A flag: the variable it sets with its default.\<close>

datatype flag_var =
    StringVar "string \<Rightarrow> vars \<Rightarrow> vars" string
  | Int32Var "int32 \<Rightarrow> vars \<Rightarrow> vars" int32

record flag_decl =
  fl_Name :: string
  fl_Shorthand :: string
  fl_Var :: flag_var
  fl_Usage :: string

text \<open>Registering a flag stores its default, parsing it the value given.\<close>

fun store_default :: "flag_var \<Rightarrow> vars \<Rightarrow> vars" where
  "store_default (StringVar put_in d) v = put_in d v"
| "store_default (Int32Var put_in d) v = put_in d v"

fun store_value :: "(string \<Rightarrow> int32 option) \<Rightarrow> flag_var \<Rightarrow> string \<Rightarrow> vars \<Rightarrow> vars option" where
  "store_value ParseInt32 (StringVar put_in d) x v = Some (put_in x v)"
| "store_value ParseInt32 (Int32Var put_in d) x v = map_option (\<lambda>n. put_in n v) (ParseInt32 x)"

text \<open>The flags given on a command line, by name, in their order; an unknown one is refused.\<close>

fun store_given :: "(string \<Rightarrow> int32 option) \<Rightarrow> flag_decl list \<Rightarrow> (string \<times> string) list \<Rightarrow> vars \<Rightarrow> vars option" where
  "store_given ParseInt32 flags [] v = Some v"
| "store_given ParseInt32 flags ((name, x) # given) v =
     (case find (\<lambda>f. fl_Name f = name) flags of
        None \<Rightarrow> None
      | Some f \<Rightarrow> (case store_value ParseInt32 (fl_Var f) x v of
          None \<Rightarrow> None
        | Some v' \<Rightarrow> store_given ParseInt32 flags given v'))"

definition run_flags :: "flag_decl list" where
  "run_flags = [
     \<lparr>fl_Name = ''profile'', fl_Shorthand = '''',
       fl_Var = StringVar (\<lambda>x v. v\<lparr>v_run := (v_run v)\<lparr>runImage := x\<rparr>\<rparr>) ''python3.11'',
       fl_Usage = ''Runtime profile to use''\<rparr>,
     \<lparr>fl_Name = ''timeout'', fl_Shorthand = '''',
       fl_Var = Int32Var (\<lambda>x v. v\<lparr>v_run := (v_run v)\<lparr>runTimeout := x\<rparr>\<rparr>) 60,
       fl_Usage = ''Timeout in seconds''\<rparr>,
     \<lparr>fl_Name = ''tenant'', fl_Shorthand = '''',
       fl_Var = StringVar (\<lambda>x v. v\<lparr>v_run := (v_run v)\<lparr>runTenant := x\<rparr>\<rparr>) '''',
       fl_Usage = ''Tenant identifier''\<rparr>,
     \<lparr>fl_Name = ''backend'', fl_Shorthand = '''',
       fl_Var = StringVar (\<lambda>x v. v\<lparr>v_run := (v_run v)\<lparr>runBackend := x\<rparr>\<rparr>) '''',
       fl_Usage = ''Execution backend (auto, pod, sandbox)''\<rparr>]"

definition root_flags :: "flag_decl list" where
  "root_flags = [
     \<lparr>fl_Name = ''namespace'', fl_Shorthand = ''n'',
       fl_Var = StringVar (\<lambda>x v. v\<lparr>v_rootNamespace := x\<rparr>) ''default'',
       fl_Usage = ''Kubernetes namespace''\<rparr>]"

subsection \<open>Commands\<close>

datatype arg_rule = AnyArgs | ExactArgs nat

fun accepts :: "arg_rule \<Rightarrow> string list \<Rightarrow> bool" where
  "accepts AnyArgs args = True"
| "accepts (ExactArgs n) args = (length args = n)"

text \<open>A command's function returns nothing when it indexes past its arguments and panics.\<close>

record 'w command =
  cm_Use :: string
  cm_Short :: string
  cm_Long :: string
  cm_Args :: arg_rule
  cm_RunE :: "'w reports \<Rightarrow> vars \<Rightarrow> string list \<Rightarrow> ('w, outcome) act option"
  cm_Flags :: "flag_decl list"

fun first_arg :: "(string \<Rightarrow> 'a) \<Rightarrow> string list \<Rightarrow> 'a option" where
  "first_arg run [] = None"
| "first_arg run (x # xs) = Some (run x)"

definition run_command :: "'w command" where
  "run_command = \<lparr>cm_Use = ''run [file]'', cm_Short = ''Run a python script as an AgentTask'',
     cm_Long = ''Create an AgentTask from a local python file.'' @ newline
       @ ''Example: agentctl run my_script.py'',
     cm_Args = ExactArgs 1,
     cm_RunE = (\<lambda>R v. first_arg (runCmd (cli.truncate R) (v_run v) (v_rootNamespace v))),
     cm_Flags = []\<rparr>"

definition list_command :: "'w command" where
  "list_command = \<lparr>cm_Use = ''list'', cm_Short = ''List all AgentTasks'', cm_Long = '''', cm_Args = AnyArgs,
     cm_RunE = (\<lambda>R v args. Some (listCmd R (v_rootNamespace v))), cm_Flags = []\<rparr>"

definition get_command :: "'w command" where
  "get_command = \<lparr>cm_Use = ''get [name]'', cm_Short = ''Get details of an AgentTask'',
     cm_Long = '''', cm_Args = ExactArgs 1,
     cm_RunE = (\<lambda>R v. first_arg (getCmd (cli.truncate R) (v_rootNamespace v))), cm_Flags = []\<rparr>"

definition describe_command :: "'w command" where
  "describe_command = \<lparr>cm_Use = ''describe [name]'',
     cm_Short = ''Show details of a specific AgentTask'', cm_Long = '''', cm_Args = ExactArgs 1,
     cm_RunE = (\<lambda>R v. first_arg (describeCmd R (v_rootNamespace v))), cm_Flags = []\<rparr>"

definition delete_command :: "'w command" where
  "delete_command = \<lparr>cm_Use = ''delete [name]'', cm_Short = ''Delete an AgentTask'',
     cm_Long = '''', cm_Args = ExactArgs 1,
     cm_RunE = (\<lambda>R v. first_arg (deleteCmd (cli.truncate R) (v_rootNamespace v))), cm_Flags = []\<rparr>"

definition logs_command :: "'w command" where
  "logs_command = \<lparr>cm_Use = ''logs [name]'', cm_Short = ''Get logs from the AgentTask execution'',
     cm_Long = '''', cm_Args = ExactArgs 1,
     cm_RunE = (\<lambda>R v. first_arg (logsCmd (cli.truncate R) (v_rootNamespace v))), cm_Flags = []\<rparr>"

subsection \<open>The tree the init functions build\<close>

record 'w tree =
  tr_Use :: string
  tr_Short :: string
  tr_Long :: string
  tr_PersistentFlags :: "flag_decl list"
  tr_Commands :: "'w command list"

type_synonym 'w package = "'w tree \<times> vars"

definition AddCommand :: "'w command \<Rightarrow> 'w package \<Rightarrow> 'w package" where
  "AddCommand c pkg = (case pkg of (T, v) \<Rightarrow> (T\<lparr>tr_Commands := tr_Commands T @ [c]\<rparr>, v))"

definition root_command :: "'w tree" where
  "root_command = \<lparr>tr_Use = ''agentctl'', tr_Short = ''CLI tool for managing AgentTasks'',
     tr_Long = ''agentctl helps you interact with AgentTasks.'' @ newline
       @ ''You can run, list, get details, and fetch logs for your tasks directly from the command line.'',
     tr_PersistentFlags = [], tr_Commands = []\<rparr>"

definition init_delete :: "'w package \<Rightarrow> 'w package" where
  "init_delete = AddCommand delete_command"

definition init_describe :: "'w package \<Rightarrow> 'w package" where
  "init_describe = AddCommand describe_command"

definition init_get :: "'w package \<Rightarrow> 'w package" where
  "init_get = AddCommand get_command"

definition init_list :: "'w package \<Rightarrow> 'w package" where
  "init_list = AddCommand list_command"

definition init_logs :: "'w package \<Rightarrow> 'w package" where
  "init_logs = AddCommand logs_command"

definition init_root :: "'w package \<Rightarrow> 'w package" where
  "init_root pkg = (case pkg of (T, v) \<Rightarrow>
     (T\<lparr>tr_PersistentFlags := tr_PersistentFlags T @ root_flags\<rparr>, fold (store_default \<circ> fl_Var) root_flags v))"

definition init_run :: "'w package \<Rightarrow> 'w package" where
  "init_run pkg = (case AddCommand (run_command\<lparr>cm_Flags := run_flags\<rparr>) pkg of (T, v) \<Rightarrow>
     (T, fold (store_default \<circ> fl_Var) run_flags v))"

text \<open>The init functions run in the order of the file names.\<close>

definition package :: "'w package" where
  "package = init_run (init_root (init_logs (init_list (init_get (init_describe (init_delete
     (root_command, zero_vars)))))))"

subsection \<open>The process\<close>

text \<open>What cobra makes of a command line: a command with the flags given and its arguments, a
  help text, or an error it prints itself.\<close>

datatype 'w decision =
    Invoke "'w command" "(string \<times> string) list" "string list"
  | Help
  | Refuse gerror

type_synonym 'w cobra = "'w tree \<Rightarrow> string list \<Rightarrow> 'w decision"

text \<open>Cobra invokes a command of the tree only, and only with arguments its rule accepts.\<close>

definition documented :: "'w cobra \<Rightarrow> bool" where
  "documented cobra \<longleftrightarrow> (\<forall>T argv c given args. cobra T argv = Invoke c given args \<longrightarrow>
     c \<in> set (tr_Commands T) \<and> accepts (cm_Args c) args)"

definition flag_error :: gerror where
  "flag_error = FmtError ''invalid argument for flag''"

text \<open>
  \<^verbatim>\<open>rootCmd.Execute\<close>: the flags are stored, the hook builds the client, the command runs. A
  panic is no outcome.
\<close>

definition rootCmd_Execute ::
  "'w reports \<Rightarrow> 'w cobra \<Rightarrow> (string \<Rightarrow> int32 option) \<Rightarrow> string list \<Rightarrow> ('w, outcome option) act" where
  "rootCmd_Execute R cobra ParseInt32 argv = (case package of (T, v) \<Rightarrow>
     (case cobra T argv of
        Help \<Rightarrow> ret (Some ('''', None))
      | Refuse err \<Rightarrow> ret (Some ('''', Some err))
      | Invoke c given args \<Rightarrow>
          (case store_given ParseInt32 (cm_Flags c @ tr_PersistentFlags T) given v of
             None \<Rightarrow> ret (Some ('''', Some flag_error))
           | Some v' \<Rightarrow> do {
               p \<leftarrow> PersistentPreRunE R;
               (case p of
                  Some err \<Rightarrow> ret (Some ('''', Some err))
                | None \<Rightarrow> (case cm_RunE c R v' args of
                    None \<Rightarrow> ret None
                  | Some m \<Rightarrow> do { r \<leftarrow> m; ret (Some r) }))
             })))"

text \<open>The process: its standard output and its exit status, 2 when it panics.\<close>

definition agentctl ::
  "'w reports \<Rightarrow> 'w cobra \<Rightarrow> (string \<Rightarrow> int32 option) \<Rightarrow> string list \<Rightarrow> ('w, string \<times> nat) act" where
  "agentctl R cobra ParseInt32 argv = do {
     r \<leftarrow> rootCmd_Execute R cobra ParseInt32 argv;
     (case r of
        None \<Rightarrow> ret ('''', 2)
      | Some (out, err) \<Rightarrow> do {
          status \<leftarrow> Execute (ret err);
          ret (out, status)
        })
   }"

subsection \<open>What a command does\<close>

text \<open>A request about tasks: its namespace, and whether the server refused it.\<close>

fun asks_in :: "event \<Rightarrow> string option" where
  "asks_in (Get_Task k r) = Some (nn_Namespace k)"
| "asks_in (List_Tasks ns r) = Some ns"
| "asks_in (Create_Task t r) = Some (task_Namespace t)"
| "asks_in (Delete_Task t r) = Some (task_Namespace t)"
| "asks_in e = None"

fun refused :: "event \<Rightarrow> bool" where
  "refused (Get_Task k (Inl e)) = True"
| "refused (List_Tasks ns (Inl e)) = True"
| "refused (Create_Task t (Inl e)) = True"
| "refused (Delete_Task t (Some e)) = True"
| "refused e = False"

text \<open>The history of a command: one request in the namespace, then readings of the clock, where a
  refused request is reported as an error; or no request and an error.\<close>

definition one_request :: "string \<Rightarrow> event list \<Rightarrow> outcome \<Rightarrow> event list \<Rightarrow> bool" where
  "one_request ns h r h' \<longleftrightarrow> h' = h \<and> snd r \<noteq> None
     \<or> (\<exists>e ticks. h' = h @ e # map Read_Clock ticks \<and> asks_in e = Some ns \<and> (refused e \<longrightarrow> snd r \<noteq> None))"

lemma one_requestI:
  "\<lbrakk>asks_in e = Some ns; refused e \<longrightarrow> snd r \<noteq> None\<rbrakk> \<Longrightarrow> one_request ns h r (h @ [e])"
  unfolding one_request_def by (intro disjI2 exI [of _ e] exI [of _ "[]"]) simp

lemma no_request: "snd r \<noteq> None \<Longrightarrow> one_request ns h r h"
  by (simp add: one_request_def)

definition exit_status :: "gerror option \<Rightarrow> nat" where
  "exit_status err = (case err of Some e \<Rightarrow> 1 | None \<Rightarrow> 0)"

definition accounted :: "string \<Rightarrow> event list \<Rightarrow> nat \<Rightarrow> bool" where
  "accounted ns h status \<longleftrightarrow> status \<le> 1 \<and> (h = [] \<or> (\<exists>e ticks. h = e # map Read_Clock ticks
     \<and> asks_in e = Some ns \<and> (refused e \<longrightarrow> status = 1)))"

text \<open>The contract the commands share.\<close>

locale task_command =
  fixes run :: "string \<Rightarrow> ('w, outcome) act"
  assumes asks_once: "wp (run ns) (\<lambda>r s'. one_request ns (st_log s) r (st_log s')) s"
begin

text \<open>As the first thing a process does, it leaves one request at most and an exit status that
  tells a refusal.\<close>

lemma exits:
  "st_log s = [] \<Longrightarrow> wp (run ns) (\<lambda>x s'. accounted ns (st_log s') (exit_status (snd x))) s"
  by (intro wp_conseq [OF asks_once]) (auto simp: one_request_def accounted_def exit_status_def split: option.splits)

end

interpretation run: task_command "\<lambda>ns. runCmd C flags ns path" for C flags path
  by unfold_locales
     (auto simp: runCmd_def wp_simps Let_def CreateTask_def run_task_def empty_meta_def
        split: prod.split sum.split intro!: one_requestI no_request)

interpretation get: task_command "\<lambda>ns. getCmd C ns name" for C name
  by unfold_locales
     (auto simp: getCmd_def wp_simps GetTask_def split: prod.split sum.split intro!: one_requestI)

interpretation delete: task_command "\<lambda>ns. deleteCmd C ns name" for C name
  by unfold_locales
     (auto simp: deleteCmd_def wp_simps DeleteTask_def delete_target_def empty_meta_def
        split: prod.split option.split intro!: one_requestI)

interpretation describe: task_command "\<lambda>ns. describeCmd R ns name" for R name
  by unfold_locales
     (auto simp: describeCmd_def wp_simps GetTask_def split: prod.split sum.split intro!: one_requestI)

interpretation logs: task_command "\<lambda>ns. logsCmd C ns name" for C name
  by unfold_locales
     (auto simp: logsCmd_def wp_simps GetTask_def split: prod.split sum.split option.split
        intro!: one_requestI)

lemma list_rows_ticks:
  "wp (list_rows R ts) (\<lambda>r s'. \<exists>ticks. st_log s' = st_log s @ map Read_Clock ticks) s"
proof (induction ts arbitrary: s)
  case Nil
  show ?case by (simp add: wp_simps)
next
  case (Cons t ts)
  have age: "wp (list_age R t) (\<lambda>r s'. \<exists>ticks. st_log s' = st_log s @ map Read_Clock ticks) s"
    by (auto simp: list_age_def wp_simps Now_def split: prod.split intro: exI [of _ "[x]" for x])
  show ?case
    by (simp, intro wp_bindI wp_conseq [OF age] wp_conseq [OF Cons.IH] wp_returnI)
       (metis append.assoc map_append)
qed

interpretation list: task_command "listCmd R" for R
  by unfold_locales
     (auto simp: listCmd_def wp_simps ListTasks_def one_request_def split: prod.split sum.split
        intro!: wp_conseq [OF list_rows_ticks])

subsection \<open>The process keeps the contract\<close>

text \<open>The variables before the command line is read.\<close>

definition package_vars :: vars where
  "package_vars = \<lparr>v_run = default_run_flags, v_rootNamespace = rootNamespace_default\<rparr>"

lemma package_eval:
  "tr_Commands (fst package) = [delete_command, describe_command, get_command, list_command,
     logs_command, run_command\<lparr>cm_Flags := run_flags\<rparr>]"
  "tr_PersistentFlags (fst package) = root_flags"
  "snd package = package_vars"
  by (simp_all add: package_def package_vars_def init_run_def init_root_def init_logs_def init_list_def init_get_def
      init_describe_def init_delete_def AddCommand_def root_command_def zero_vars_def root_flags_def
      run_flags_def default_run_flags_def rootNamespace_default_def)

lemmas command_defs = delete_command_def describe_command_def get_command_def list_command_def
  logs_command_def run_command_def

text \<open>A command of the tree, with arguments its rule accepts, has a function that keeps the contract.\<close>

lemma first_arg_one: "length args = 1 \<Longrightarrow> \<exists>x. first_arg run args = Some (run x)"
  by (cases args) auto

lemma command_runs:
  assumes "c \<in> set (tr_Commands (fst package))" "accepts (cm_Args c) args"
  shows "\<exists>m. cm_RunE c R v args = Some m \<and> (\<forall>s. st_log s = [] \<longrightarrow>
     wp m (\<lambda>x s'. accounted (v_rootNamespace v) (st_log s') (exit_status (snd x))) s)"
proof -
  note exits = run.exits get.exits delete.exits describe.exits logs.exits list.exits
  from assms consider "c = list_command"
    | "length args = 1" "c \<in> {delete_command, describe_command, get_command, logs_command,
        run_command\<lparr>cm_Flags := run_flags\<rparr>}"
    by (auto simp: package_eval command_defs)
  then show ?thesis
  proof cases
    case 1
    then show ?thesis by (simp add: list_command_def exits)
  next
    case 2
    then obtain x where args: "args = [x]" by (cases args) auto
    show ?thesis using 2(2) unfolding args
      by (elim insertE emptyE) (simp_all add: command_defs exits)
  qed
qed

lemma Execute_status [wp_simps]:
  "wp (Execute (ret err)) Q s = Q (exit_status err) s"
  by (cases err) (simp_all add: Execute_def exit_status_def wp_simps)

lemma agentctl_accounts:
  assumes "documented cobra"
  shows "wp (agentctl R cobra ParseInt32 argv) (\<lambda>(out, status) s.
     case cobra (fst package) argv of
       Invoke c given args \<Rightarrow> (case store_given ParseInt32 (cm_Flags c @ root_flags) given package_vars of
           None \<Rightarrow> st_log s = [] \<and> status = 1
         | Some v \<Rightarrow> accounted (v_rootNamespace v) (st_log s) status)
     | Help \<Rightarrow> st_log s = [] \<and> status = 0
     | Refuse err \<Rightarrow> st_log s = [] \<and> status = 1) (start w)"
proof (cases "cobra (fst package) argv")
  case (Invoke c given args)
  then have "c \<in> set (tr_Commands (fst package))" "accepts (cm_Args c) args"
    using assms by (auto simp: documented_def)
  note runs = command_runs [OF this]
  show ?thesis
  proof (cases "store_given ParseInt32 (cm_Flags c @ root_flags) given package_vars")
    case None
    then show ?thesis
      using Invoke by (simp add: agentctl_def rootCmd_Execute_def case_prod_unfold package_eval(2,3) wp_simps
          exit_status_def)
  next
    case (Some v)
    obtain m where m: "cm_RunE c R v args = Some m"
        "\<And>s. st_log s = [] \<Longrightarrow>
           wp m (\<lambda>x s'. accounted (v_rootNamespace v) (st_log s') (exit_status (snd x))) s"
      using runs [of R v] by blast
    have "agentctl R cobra ParseInt32 argv = do {
       p \<leftarrow> PersistentPreRunE R;
       r \<leftarrow> (case p of Some err \<Rightarrow> ret (Some ('''', Some err)) | None \<Rightarrow> do { r \<leftarrow> m; ret (Some r) });
       (case r of
          None \<Rightarrow> ret ('''', 2)
        | Some (out, err) \<Rightarrow> do { status \<leftarrow> Execute (ret err); ret (out, status) }) }"
      using Invoke Some m(1)
      by (simp add: agentctl_def rootCmd_Execute_def case_prod_unfold package_eval(2,3))
    note run = this
    have "wp (agentctl R cobra ParseInt32 argv)
        (\<lambda>r s. accounted (v_rootNamespace v) (st_log s) (snd r)) (start w)"
      unfolding run
      by (intro wp_bindI wp_conseq [OF prerun_silent] wp_case_optionI wp_conseq [OF m(2)] wp_returnI)
         (auto simp: wp_simps accounted_def exit_status_def case_prod_unfold)
    then show ?thesis
      using Invoke Some by (simp add: case_prod_unfold)
  qed
qed (simp_all add: agentctl_def rootCmd_Execute_def case_prod_unfold wp_simps exit_status_def)

text \<open>The namespace a command line chooses: the last one given, or the default.\<close>

fun chosen_namespace :: "(string \<times> string) list \<Rightarrow> string \<Rightarrow> string" where
  "chosen_namespace [] ns = ns"
| "chosen_namespace ((name, x) # given) ns = chosen_namespace given (if name = ''namespace'' then x else ns)"

lemma flags_namespace:
  "\<forall>f \<in> set (run_flags @ root_flags). \<forall>x v v'. store_value ParseInt32 (fl_Var f) x v = Some v' \<longrightarrow>
     v_rootNamespace v' = (if fl_Name f = ''namespace'' then x else v_rootNamespace v)"
  by (auto simp: root_flags_def run_flags_def)

lemma store_namespace:
  assumes "flags \<in> {root_flags, run_flags @ root_flags}" "store_given ParseInt32 flags given v = Some v'"
  shows "v_rootNamespace v' = chosen_namespace given (v_rootNamespace v)"
  using assms(2)
proof (induction given arbitrary: v)
  case (Cons g given)
  obtain name x where g: "g = (name, x)" by fastforce
  from Cons.prems g obtain f v1 where f: "find (\<lambda>f. fl_Name f = name) flags = Some f"
      "store_value ParseInt32 (fl_Var f) x v = Some v1" "store_given ParseInt32 flags given v1 = Some v'"
    by (auto split: option.splits)
  have "fl_Name f = name" "f \<in> set flags"
    using f(1) by (auto simp: find_Some_iff)
  moreover from this have "f \<in> set (run_flags @ root_flags)" using assms(1) by auto
  ultimately have "v_rootNamespace v1 = (if name = ''namespace'' then x else v_rootNamespace v)"
    using bspec [OF flags_namespace] f(2) by blast
  then show ?case using Cons.IH [OF f(3)] by (simp add: g)
qed simp

lemma command_flags:
  "c \<in> set (tr_Commands (fst package)) \<Longrightarrow> cm_Flags c @ root_flags \<in> {root_flags, run_flags @ root_flags}"
  by (auto simp: package_eval command_defs)



subsection \<open>A command line read by its first words\<close>

definition command_name :: "'w command \<Rightarrow> string" where
  "command_name c = takeWhile (\<lambda>x. x \<noteq> CHR '' '') (cm_Use c)"

fun plain_words :: "string list \<Rightarrow> (string \<times> string) list \<times> string list" where
  "plain_words (flag # ns # args) =
     (if flag = ''-n'' then ([(''namespace'', ns)], args) else ([], flag # ns # args))"
| "plain_words args = ([], args)"

fun plain_cobra :: "'w cobra" where
  "plain_cobra T [] = Help"
| "plain_cobra T (name # rest) =
     (case find (\<lambda>c. command_name c = name) (tr_Commands T) of
        None \<Rightarrow> Refuse (FmtError ''unknown command'')
      | Some c \<Rightarrow> (case plain_words rest of (given, args) \<Rightarrow>
          (if accepts (cm_Args c) args then Invoke c given args
           else Refuse (FmtError ''wrong number of arguments''))))"

lemma plain_cobra: "documented plain_cobra"
  unfolding documented_def
proof (intro allI impI)
  fix T :: "'w tree" and argv c given args
  assume "plain_cobra T argv = Invoke c given args"
  then show "c \<in> set (tr_Commands T) \<and> accepts (cm_Args c) args"
    by (cases argv) (auto simp: find_Some_iff split: option.splits prod.splits if_splits)
qed


lemma delete_elsewhere:
  "plain_cobra (fst package) [''delete'', ''-n'', ''team'', ''sum''] =
     Invoke delete_command [(''namespace'', ''team'')] [''sum'']"
  by (simp add: package_eval command_name_def delete_command_def)


end
