(* ===== verification/Registration.thy ===== *)
theory Registration
  imports Startup CommandTree
begin

text \<open>
  What the packages register before main runs: the types of the API group in the builder of
  api/v1alpha1, the schemes of the operator (cmd/main.go) and of agentctl
  (cmd/agentctl/cmd/root.go), and the collectors of the controller package. The registries are
  the libraries'; a registration that fails panics, so the process does not come up.
\<close>

subsection \<open>The types of the API group\<close>

record scheme_builder =
  bd_GroupVersion :: "string \<times> string"
  bd_Types :: "string list"

definition SchemeBuilder :: scheme_builder where
  "SchemeBuilder = \<lparr>bd_GroupVersion = GroupVersion, bd_Types = []\<rparr>"

definition Register :: "string list \<Rightarrow> scheme_builder \<Rightarrow> scheme_builder" where
  "Register objects B = B\<lparr>bd_Types := bd_Types B @ objects\<rparr>"

text \<open>The init function of agenttask_types.go.\<close>

definition init_types :: "scheme_builder \<Rightarrow> scheme_builder" where
  "init_types = Register [''AgentTask'', ''AgentTaskList'']"

text \<open>Adding types of a group version to a scheme is the library's; it may fail.\<close>

type_synonym 's add_types = "string \<times> string \<Rightarrow> string list \<Rightarrow> 's \<Rightarrow> gerror option \<times> 's"

definition AddToScheme :: "'s add_types \<Rightarrow> 's \<Rightarrow> gerror option \<times> 's" where
  "AddToScheme add = (let B = init_types SchemeBuilder in add (bd_GroupVersion B) (bd_Types B))"

subsection \<open>The schemes of the two programs\<close>

text \<open>\<^verbatim>\<open>utilruntime.Must\<close>: nothing is returned when it panics.\<close>

definition Must :: "gerror option \<times> 's \<Rightarrow> 's option" where
  "Must r = (case r of (Some err, s) \<Rightarrow> None | (None, s) \<Rightarrow> Some s)"

text \<open>The init functions of main.go and of root.go, from \<^verbatim>\<open>runtime.NewScheme()\<close>.\<close>

definition operator_scheme :: "('s \<Rightarrow> gerror option \<times> 's) \<Rightarrow> 's add_types \<Rightarrow> 's \<Rightarrow> 's option" where
  "operator_scheme clientgo add new = (case Must (clientgo new) of
     None \<Rightarrow> None
   | Some s \<Rightarrow> Must (AddToScheme add s))"

definition agentctl_scheme :: "('s \<Rightarrow> gerror option \<times> 's) \<Rightarrow> 's add_types \<Rightarrow> 's \<Rightarrow> 's option" where
  "agentctl_scheme clientgo add new = (case Must (clientgo new) of
     None \<Rightarrow> None
   | Some s \<Rightarrow> Must (AddToScheme add s))"

text \<open>
  What the library documents: a registration that succeeds makes the kinds known and forgets
  none; \<^verbatim>\<open>clientgoscheme\<close> knows the kinds of Kubernetes itself.
\<close>

definition registers :: "('s \<Rightarrow> GroupVersionKind set) \<Rightarrow> 's add_types \<Rightarrow> bool" where
  "registers known add \<longleftrightarrow> (\<forall>gv types s s'. add gv types s = (None, s') \<longrightarrow>
     known s' = known s \<union> WithKind gv ` set types)"

definition registers_builtin :: "('s \<Rightarrow> GroupVersionKind set) \<Rightarrow> ('s \<Rightarrow> gerror option \<times> 's) \<Rightarrow> bool" where
  "registers_builtin known clientgo \<longleftrightarrow> (\<forall>s s'. clientgo s = (None, s') \<longrightarrow>
     {WithKind ('''', ''v1'') ''Pod'', WithKind ('''', ''v1'') ''ConfigMap'',
      WithKind (''networking.k8s.io'', ''v1'') ''NetworkPolicy''} \<union> known s \<subseteq> known s')"

text \<open>The kind of the object a request is about, for the requests that name a Go type; sandboxes and
  the resource definition are unstructured and carry their kind themselves.\<close>

fun typed_kind :: "event \<Rightarrow> GroupVersionKind option" where
  "typed_kind (Get_Task k r) = Some (WithKind GroupVersion ''AgentTask'')"
| "typed_kind (List_Tasks ns r) = Some (WithKind GroupVersion ''AgentTaskList'')"
| "typed_kind (Create_Task t r) = Some (WithKind GroupVersion ''AgentTask'')"
| "typed_kind (Update_Task t r) = Some (WithKind GroupVersion ''AgentTask'')"
| "typed_kind (Update_Status t r) = Some (WithKind GroupVersion ''AgentTask'')"
| "typed_kind (Delete_Task t r) = Some (WithKind GroupVersion ''AgentTask'')"
| "typed_kind (Get_Pod k r) = Some (WithKind ('''', ''v1'') ''Pod'')"
| "typed_kind (Create_Pod p r) = Some (WithKind ('''', ''v1'') ''Pod'')"
| "typed_kind (Delete_Pod p r) = Some (WithKind ('''', ''v1'') ''Pod'')"
| "typed_kind (Get_ConfigMap k r) = Some (WithKind ('''', ''v1'') ''ConfigMap'')"
| "typed_kind (Create_ConfigMap c r) = Some (WithKind ('''', ''v1'') ''ConfigMap'')"
| "typed_kind (Get_NetworkPolicy k r) = Some (WithKind (''networking.k8s.io'', ''v1'') ''NetworkPolicy'')"
| "typed_kind (Create_NetworkPolicy np r) = Some (WithKind (''networking.k8s.io'', ''v1'') ''NetworkPolicy'')"
| "typed_kind e = None"

text \<open>A scheme that came up knows the kind of every request the programs make.\<close>

theorem request_kinds_known:
  assumes "registers known add" "registers_builtin known clientgo"
    and "operator_scheme clientgo add new = Some s \<or> agentctl_scheme clientgo add new = Some s"
  shows "set_option (typed_kind e) \<subseteq> known s"
proof -
  obtain s1 where "clientgo new = (None, s1)"
      "add GroupVersion [''AgentTask'', ''AgentTaskList''] s1 = (None, s)"
    using assms(3)
    by (auto simp: operator_scheme_def agentctl_scheme_def Must_def AddToScheme_def init_types_def Register_def
        SchemeBuilder_def Let_def split: option.splits prod.splits)
  then have "known s = known s1 \<union> WithKind GroupVersion ` set [''AgentTask'', ''AgentTaskList'']"
    "{WithKind ('''', ''v1'') ''Pod'', WithKind ('''', ''v1'') ''ConfigMap'',
      WithKind (''networking.k8s.io'', ''v1'') ''NetworkPolicy''} \<subseteq> known s1"
    using assms(1,2) unfolding registers_def registers_builtin_def by blast+
  then show ?thesis by (cases e) auto
qed

subsection \<open>The collectors\<close>

datatype collector_kind = CounterVec | HistogramVec

record collector =
  co_Kind :: collector_kind
  co_Name :: string
  co_Help :: string
  co_Labels :: "string list"

definition tasksTotal :: collector where
  "tasksTotal = \<lparr>co_Kind = CounterVec, co_Name = ''agenttask_total_tasks'',
     co_Help = ''Total number of AgentTasks processed'', co_Labels = [''phase'', ''reason'']\<rparr>"

definition taskDuration :: collector where
  "taskDuration = \<lparr>co_Kind = HistogramVec, co_Name = ''agenttask_duration_seconds'',
     co_Help = ''Time taken for AgentTask to reach terminal state'', co_Labels = [''phase'']\<rparr>"

text \<open>\<^verbatim>\<open>MustRegister\<close>: a name that is taken panics.\<close>

fun MustRegister :: "collector list \<Rightarrow> collector list \<Rightarrow> collector list option" where
  "MustRegister [] reg = Some reg"
| "MustRegister (c # cs) reg =
     (if co_Name c \<in> co_Name ` set reg then None else MustRegister cs (reg @ [c]))"

definition init_metrics :: "collector list \<Rightarrow> collector list option" where
  "init_metrics = MustRegister [tasksTotal, taskDuration]"

text \<open>\<^verbatim>\<open>WithLabelValues\<close>: one value for each label, or a panic.\<close>

definition WithLabelValues :: "collector \<Rightarrow> string list \<Rightarrow> (string \<times> string) list option" where
  "WithLabelValues c vs = (if length vs = length (co_Labels c) then Some (zip (co_Labels c) vs) else None)"

text \<open>The sample a metric event is recorded in.\<close>

fun sample_of :: "event \<Rightarrow> (string \<times> (string \<times> string) list option) option" where
  "sample_of (Counter_Inc phase reason) = Some (co_Name tasksTotal, WithLabelValues tasksTotal [phase, reason])"
| "sample_of (Histogram_Observe phase d) = Some (co_Name taskDuration, WithLabelValues taskDuration [phase])"
| "sample_of e = None"

lemma metrics_come_up:
  "\<lbrakk>co_Name tasksTotal \<notin> co_Name ` set reg; co_Name taskDuration \<notin> co_Name ` set reg\<rbrakk>
   \<Longrightarrow> init_metrics reg = Some (reg @ [tasksTotal, taskDuration])"
  by (simp add: init_metrics_def tasksTotal_def taskDuration_def)

lemma samples_do_not_panic: "sample_of e = Some (n, labels) \<Longrightarrow> labels \<noteq> None"
  by (cases e) (auto simp: WithLabelValues_def tasksTotal_def taskDuration_def)

end
