(* ===== verification/DeepCopy.thy ===== *)
theory DeepCopy
  imports AgentTaskTypes
begin

text \<open>
  The generated deep copies of the API types (api/v1alpha1/zz_generated.deepcopy.go) over an
  explicit heap. A pointer field or the backing array of a slice is an address; a struct is a
  record of its fields; its value is the record of AgentTaskTypes the rest of the development
  works with. The copies of types from other packages (object metadata, resource requirements,
  config map selectors) are parameters that obey the contract \<open>deep_copy\<close>; the copies of this
  program are built from it, and the contract is interpreted on those that obey it.
\<close>

type_synonym addr = nat

datatype 'k cell =
    Int32Cell int32
  | SelectorCell 'k
  | ResultCell ExecutionResult
  | ConditionsCell "Condition list"
  | TimeCell instant

record 'k heap =
  cells :: "addr \<rightharpoonup> 'k cell"
  next_addr :: addr

type_synonym ('k, 's) copier = "'s \<Rightarrow> ('k heap, 's) state"

definition heap_wf :: "'k heap \<Rightarrow> bool" where
  "heap_wf h = (\<forall>a. next_addr h \<le> a \<longrightarrow> cells h a = None)"

text \<open>\<^verbatim>\<open>new(T)\<close> with its first assignment, and an assignment through a pointer.\<close>

definition alloc :: "'k cell \<Rightarrow> ('k heap, addr) state" where
  "alloc c = State (\<lambda>h. (next_addr h,
     h\<lparr>cells := (cells h)(next_addr h \<mapsto> c), next_addr := Suc (next_addr h)\<rparr>))"

definition store_at :: "addr \<Rightarrow> 'k cell \<Rightarrow> 'k heap \<Rightarrow> 'k heap" where
  "store_at a c h = h\<lparr>cells := (cells h)(a \<mapsto> c)\<rparr>"

text \<open>What copying may do to the heap: only allocate.\<close>

definition grows :: "'k heap \<Rightarrow> 'k heap \<Rightarrow> bool" where
  "grows h h' \<longleftrightarrow> heap_wf h' \<and> next_addr h \<le> next_addr h'
     \<and> (\<forall>a < next_addr h. cells h' a = cells h a)"

lemma grows_refl: "heap_wf h \<Longrightarrow> grows h h"
  by (simp add: grows_def)

lemma grows_trans: "\<lbrakk>grows h h'; grows h' h''\<rbrakk> \<Longrightarrow> grows h h''"
  by (auto simp: grows_def)

subsection \<open>The contract of a deep copy\<close>

text \<open>
  \<open>addrs h x\<close> are the addresses reachable from \<open>x\<close>, \<open>val h x\<close> its value (\<open>None\<close> when a pointer
  dangles); both depend only on the cells at those addresses. The copy only allocates, is
  reachable through new addresses only and has the value of the original.
\<close>

locale deep_copy =
  fixes copy :: "('k, 's) copier"
    and addrs :: "'k heap \<Rightarrow> 's \<Rightarrow> addr set"
    and val :: "'k heap \<Rightarrow> 's \<Rightarrow> 'v option"
  assumes reads_local: "(\<forall>a \<in> addrs h x. cells h' a = cells h a) \<Longrightarrow>
      addrs h' x = addrs h x \<and> val h' x = val h x"
    and bounded: "\<lbrakk>heap_wf h; val h x \<noteq> None\<rbrakk> \<Longrightarrow> addrs h x \<subseteq> {..<next_addr h}"
    and copies: "\<lbrakk>heap_wf h; val h x \<noteq> None; run_state (copy x) h = (y, h')\<rbrakk> \<Longrightarrow>
      grows h h' \<and> val h' y = val h x \<and> addrs h' y \<subseteq> {next_addr h..<next_addr h'}"
begin

lemma kept:
  assumes "heap_wf h" "val h x \<noteq> None" "grows h h'"
  shows "val h' x = val h x" and "addrs h' x = addrs h x"
proof -
  have "\<forall>a \<in> addrs h x. cells h' a = cells h a"
    using bounded [OF assms(1,2)] assms(3) by (auto simp: grows_def)
  then show "val h' x = val h x" "addrs h' x = addrs h x"
    using reads_local by blast+
qed

text \<open>Whatever is written through the copy, the original keeps its value.\<close>

lemma independent:
  assumes "heap_wf h" "val h x \<noteq> None" "run_state (copy x) h = (y, h')" "a \<in> addrs h' y"
  shows "val (store_at a c h') x = val h x"
proof -
  have c: "grows h h'" "addrs h' y \<subseteq> {next_addr h..<next_addr h'}"
    using copies [OF assms(1-3)] by blast+
  have k: "addrs h' x = addrs h x" "val h' x = val h x"
    using kept [OF assms(1,2) c(1)] by blast+
  have "\<forall>b \<in> addrs h' x. cells (store_at a c h') b = cells h' b"
    using bounded [OF assms(1,2)] c(2) assms(4) k(1) by (force simp: store_at_def subset_iff)
  then show ?thesis
    using reads_local k by metis
qed

end

subsection \<open>Building copies\<close>

text \<open>Two parts of a struct, copied one after the other.\<close>

definition copy_pair :: "('k, 'a) copier \<Rightarrow> ('k, 'b) copier \<Rightarrow> ('k, 'a \<times> 'b) copier" where
  "copy_pair c1 c2 x = do { y1 \<leftarrow> c1 (fst x); y2 \<leftarrow> c2 (snd x); ret (y1, y2) }"

definition pair_addrs ::
  "('k heap \<Rightarrow> 'a \<Rightarrow> addr set) \<Rightarrow> ('k heap \<Rightarrow> 'b \<Rightarrow> addr set) \<Rightarrow> 'k heap \<Rightarrow> 'a \<times> 'b \<Rightarrow> addr set" where
  "pair_addrs a1 a2 h x = a1 h (fst x) \<union> a2 h (snd x)"

definition pair_val ::
  "('k heap \<Rightarrow> 'a \<Rightarrow> 'v option) \<Rightarrow> ('k heap \<Rightarrow> 'b \<Rightarrow> 'u option) \<Rightarrow> 'k heap \<Rightarrow> 'a \<times> 'b \<Rightarrow> ('v \<times> 'u) option" where
  "pair_val v1 v2 h x = (case v1 h (fst x) of None \<Rightarrow> None | Some a \<Rightarrow>
     (case v2 h (snd x) of None \<Rightarrow> None | Some b \<Rightarrow> Some (a, b)))"

lemma deep_copy_pair:
  fixes c1 :: "('k, 'a) copier" and c2 :: "('k, 'b) copier"
  assumes c1: "deep_copy c1 a1 v1" and c2: "deep_copy c2 a2 v2"
  shows "deep_copy (copy_pair c1 c2) (pair_addrs a1 a2) (pair_val v1 v2)"
proof
  fix h h' :: "'k heap" and x
  assume "\<forall>a \<in> pair_addrs a1 a2 h x. cells h' a = cells h a"
  then show "pair_addrs a1 a2 h' x = pair_addrs a1 a2 h x \<and> pair_val v1 v2 h' x = pair_val v1 v2 h x"
    using deep_copy.reads_local [OF c1, of h "fst x" h'] deep_copy.reads_local [OF c2, of h "snd x" h']
    by (simp add: pair_addrs_def pair_val_def split: option.split)
next
  fix h :: "'k heap" and x
  assume "heap_wf h" "pair_val v1 v2 h x \<noteq> None"
  then show "pair_addrs a1 a2 h x \<subseteq> {..<next_addr h}"
    using deep_copy.bounded [OF c1, of h "fst x"] deep_copy.bounded [OF c2, of h "snd x"]
    by (auto simp: pair_addrs_def pair_val_def split: option.splits)
next
  fix h h2 :: "'k heap" and x y
  assume h: "heap_wf h" "pair_val v1 v2 h x \<noteq> None" "run_state (copy_pair c1 c2 x) h = (y, h2)"
  then obtain y1 y2 h1 where run: "run_state (c1 (fst x)) h = (y1, h1)"
      "run_state (c2 (snd x)) h1 = (y2, h2)" and y: "y = (y1, y2)"
    by (auto simp: copy_pair_def split: prod.splits)
  have v: "v1 h (fst x) \<noteq> None" "v2 h (snd x) \<noteq> None"
    using h(2) by (auto simp: pair_val_def split: option.splits)
  note p1 = deep_copy.copies [OF c1 h(1) v(1) run(1)]
  have wf1: "heap_wf h1" using p1 by (simp add: grows_def)
  have k2: "v2 h1 (snd x) = v2 h (snd x)"
    using deep_copy.kept(1) [OF c2 h(1) v(2)] p1 by blast
  have p2: "grows h1 h2 \<and> v2 h2 y2 = v2 h1 (snd x) \<and> a2 h2 y2 \<subseteq> {next_addr h1..<next_addr h2}"
    using deep_copy.copies [OF c2 wf1 _ run(2)] k2 v(2) by simp
  have k1: "v1 h2 y1 = v1 h1 y1" "a1 h2 y1 = a1 h1 y1"
    using deep_copy.kept [OF c1 wf1, of y1 h2] p1 p2 v(1) by auto
  show "grows h h2 \<and> pair_val v1 v2 h2 y = pair_val v1 v2 h x
      \<and> pair_addrs a1 a2 h2 y \<subseteq> {next_addr h..<next_addr h2}"
    using p1 p2 k1 k2 grows_trans [of h h1 h2]
    by (fastforce simp: y pair_addrs_def pair_val_def grows_def split: option.splits)
qed

text \<open>A struct whose pointers are in the parts \<open>get\<close> selects and \<open>put\<close> replaces.\<close>

lemma deep_copy_struct:
  fixes c :: "('k, 'p) copier"
  assumes c: "deep_copy c a v" and get_put: "\<And>p s. get (put p s) = p"
    and build_put: "\<And>p s. build (put p s) = build s"
  shows "deep_copy (\<lambda>s. do { p \<leftarrow> c (get s); ret (put p s) }) (\<lambda>h s. a h (get s))
    (\<lambda>h s. map_option (build s) (v h (get s)))"
proof
  fix h h' :: "'k heap" and s
  assume "\<forall>b \<in> a h (get s). cells h' b = cells h b"
  then show "a h' (get s) = a h (get s) \<and>
      map_option (build s) (v h' (get s)) = map_option (build s) (v h (get s))"
    using deep_copy.reads_local [OF c] by metis
next
  fix h :: "'k heap" and s
  assume "heap_wf h" "map_option (build s) (v h (get s)) \<noteq> None"
  then show "a h (get s) \<subseteq> {..<next_addr h}"
    using deep_copy.bounded [OF c] by simp
next
  fix h h' :: "'k heap" and s t
  assume h: "heap_wf h" "map_option (build s) (v h (get s)) \<noteq> None"
    and run: "run_state (do { p \<leftarrow> c (get s); ret (put p s) }) h = (t, h')"
  then obtain p where p: "run_state (c (get s)) h = (p, h')" "t = put p s"
    by (auto split: prod.splits)
  then show "grows h h' \<and> map_option (build t) (v h' (get t)) = map_option (build s) (v h (get s))
      \<and> a h' (get t) \<subseteq> {next_addr h..<next_addr h'}"
    using deep_copy.copies [OF c h(1) _ p(1)] h(2) by (simp add: get_put build_put)
qed

text \<open>A pointer to a value without pointers: \<^verbatim>\<open>*out = new(T); **out = **in\<close>.\<close>

definition clone :: "('k, addr option) copier" where
  "clone p = State (\<lambda>h. case p of
     None \<Rightarrow> (None, h)
   | Some a \<Rightarrow> (case cells h a of
       None \<Rightarrow> (Some a, h)
     | Some c \<Rightarrow> (case run_state (alloc c) h of (b, h') \<Rightarrow> (Some b, h'))))"

definition ptr_addrs :: "'k heap \<Rightarrow> addr option \<Rightarrow> addr set" where
  "ptr_addrs h p = set_option p"

definition ptr_val :: "('k cell \<Rightarrow> 'v option) \<Rightarrow> 'k heap \<Rightarrow> addr option \<Rightarrow> 'v option option" where
  "ptr_val f h p = (case p of None \<Rightarrow> Some None | Some a \<Rightarrow>
     (case cells h a of None \<Rightarrow> None | Some c \<Rightarrow> map_option Some (f c)))"

interpretation pointer: deep_copy clone ptr_addrs "ptr_val f" for f
  by unfold_locales
     (auto simp: ptr_addrs_def ptr_val_def clone_def alloc_def grows_def heap_wf_def not_le
       split: option.splits)

text \<open>
  A pointer to a struct of another package: \<^verbatim>\<open>*out = new(T); (*in).DeepCopyInto(*out)\<close>.
\<close>

definition copy_selector :: "('k, 'k) copier \<Rightarrow> ('k, addr option) copier" where
  "copy_selector sel p = State (\<lambda>h. case p of
     None \<Rightarrow> (None, h)
   | Some a \<Rightarrow> (case cells h a of
       Some (SelectorCell k) \<Rightarrow>
         (case run_state (alloc (SelectorCell k)) h of (b, h1) \<Rightarrow>
           (case run_state (sel k) h1 of (k', h2) \<Rightarrow> (Some b, store_at b (SelectorCell k') h2)))
     | _ \<Rightarrow> (Some a, h)))"

definition selector_addrs ::
  "('k heap \<Rightarrow> 'k \<Rightarrow> addr set) \<Rightarrow> 'k heap \<Rightarrow> addr option \<Rightarrow> addr set" where
  "selector_addrs ak h p = (case p of None \<Rightarrow> {} | Some a \<Rightarrow>
     insert a (case cells h a of Some (SelectorCell k) \<Rightarrow> ak h k | _ \<Rightarrow> {}))"

definition selector_val ::
  "('k heap \<Rightarrow> 'k \<Rightarrow> 'v option) \<Rightarrow> 'k heap \<Rightarrow> addr option \<Rightarrow> 'v option option" where
  "selector_val vk h p = (case p of None \<Rightarrow> Some None | Some a \<Rightarrow>
     (case cells h a of Some (SelectorCell k) \<Rightarrow> map_option Some (vk h k) | _ \<Rightarrow> None))"

lemma selector_val_Some:
  "selector_val vk h (Some a) \<noteq> None \<longleftrightarrow>
     (\<exists>k. cells h a = Some (SelectorCell k) \<and> vk h k \<noteq> None)"
  by (auto simp: selector_val_def split: option.splits cell.splits)

lemma deep_copy_selector:
  fixes sel :: "('k, 'k) copier"
  assumes c: "deep_copy sel ak vk"
  shows "deep_copy (copy_selector sel) (selector_addrs ak) (selector_val vk)"
proof
  fix h h' :: "'k heap" and p
  assume "\<forall>a \<in> selector_addrs ak h p. cells h' a = cells h a"
  then show "selector_addrs ak h' p = selector_addrs ak h p \<and> selector_val vk h' p = selector_val vk h p"
    using deep_copy.reads_local [OF c, of h _ h']
    by (auto simp: selector_addrs_def selector_val_def split: option.splits cell.splits)
next
  fix h :: "'k heap" and p
  assume h: "heap_wf h" "selector_val vk h p \<noteq> None"
  show "selector_addrs ak h p \<subseteq> {..<next_addr h}"
  proof (cases p)
    case (Some a)
    obtain k where k: "cells h a = Some (SelectorCell k)" "vk h k \<noteq> None"
      using h(2) unfolding Some selector_val_Some by blast
    have "a < next_addr h"
      by (rule ccontr) (use h(1) k(1) in \<open>simp add: heap_wf_def not_less\<close>)
    then show ?thesis
      using deep_copy.bounded [OF c h(1) k(2)] Some k(1) by (simp add: selector_addrs_def)
  qed (simp add: selector_addrs_def)
next
  fix h h3 :: "'k heap" and p q
  assume h: "heap_wf h" "selector_val vk h p \<noteq> None" "run_state (copy_selector sel p) h = (q, h3)"
  show "grows h h3 \<and> selector_val vk h3 q = selector_val vk h p
      \<and> selector_addrs ak h3 q \<subseteq> {next_addr h..<next_addr h3}"
  proof (cases p)
    case None
    with h show ?thesis
      by (simp add: copy_selector_def selector_val_def selector_addrs_def grows_refl)
  next
    case (Some a)
    obtain k where k: "cells h a = Some (SelectorCell k)" "vk h k \<noteq> None"
      using h(2) unfolding Some selector_val_Some by blast
    let ?b = "next_addr h"
    let ?h1 = "h\<lparr>cells := (cells h)(?b \<mapsto> SelectorCell k), next_addr := Suc ?b\<rparr>"
    obtain k' h2 where sel: "run_state (sel k) ?h1 = (k', h2)" by fastforce
    with h(3) Some k have q: "q = Some ?b" "h3 = store_at ?b (SelectorCell k') h2"
      by (simp_all add: copy_selector_def alloc_def)
    have g1: "grows h ?h1" and wf1: "heap_wf ?h1"
      using h(1) by (auto simp: grows_def heap_wf_def)
    have v1: "vk ?h1 k = vk h k"
      using deep_copy.kept(1) [OF c h(1) k(2) g1] .
    have g2: "grows ?h1 h2" "vk h2 k' = vk h k" "ak h2 k' \<subseteq> {Suc ?b..<next_addr h2}"
      using deep_copy.copies [OF c wf1 _ sel] v1 k(2) by auto
    have "\<forall>x \<in> ak h2 k'. cells h3 x = cells h2 x"
      using g2(3) by (auto simp: q store_at_def)
    then have v3: "ak h3 k' = ak h2 k'" "vk h3 k' = vk h2 k'"
      using deep_copy.reads_local [OF c] by blast+
    have "selector_val vk h3 q = selector_val vk h p"
      using v3 g2(2) Some k by (simp add: selector_val_def q store_at_def)
    moreover have "selector_addrs ak h3 q \<subseteq> {?b..<next_addr h3}"
      using v3 g2 by (auto simp: selector_addrs_def q store_at_def grows_def)
    moreover have "grows h h3"
      using g1 g2(1) by (auto simp: grows_def heap_wf_def q store_at_def)
    ultimately show ?thesis by blast
  qed
qed

subsection \<open>The structs and their generated copies\<close>

record code_struct =
  cd_Source :: string
  cd_ConfigMapRef :: "addr option"

record 'r spec_struct =
  sp_RuntimeProfile :: string
  sp_Code :: code_struct
  sp_Resources :: 'r
  sp_TimeoutSeconds :: int32
  sp_Backend :: string
  sp_Tenant :: string
  sp_Canceled :: bool
  sp_TTLSecondsAfterFinished :: "addr option"

record status_struct =
  ss_Phase :: string
  ss_PodRef :: ObjectReference
  ss_Result :: "addr option"
  ss_Conditions :: "addr option"
  ss_ExitCode :: int32
  ss_Reason :: string
  ss_Message :: string
  ss_StartTime :: "addr option"
  ss_CompletionTime :: "addr option"

record ('m, 'r) task_struct =
  ts_Meta :: 'm
  ts_Spec :: "'r spec_struct"
  ts_Status :: status_struct

text \<open>The deep copies of the types of other packages.\<close>

record ('k, 'm, 'r) copiers =
  lib_Meta :: "('k, 'm) copier"
  lib_Resources :: "('k, 'r) copier"
  lib_Selector :: "('k, 'k) copier"

definition CodeSource_DeepCopyInto :: "('k, 'm, 'r) copiers \<Rightarrow> ('k, code_struct) copier" where
  "CodeSource_DeepCopyInto L x = do {
     p \<leftarrow> copy_selector (lib_Selector L) (cd_ConfigMapRef x);
     ret (x\<lparr>cd_ConfigMapRef := p\<rparr>)
   }"

definition AgentTaskSpec_DeepCopyInto :: "('k, 'm, 'r) copiers \<Rightarrow> ('k, 'r spec_struct) copier" where
  "AgentTaskSpec_DeepCopyInto L x = do {
     c \<leftarrow> CodeSource_DeepCopyInto L (sp_Code x);
     r \<leftarrow> lib_Resources L (sp_Resources x);
     ret (x\<lparr>sp_Code := c, sp_Resources := r\<rparr>)
   }"

definition AgentTaskStatus_DeepCopyInto :: "('k, status_struct) copier" where
  "AgentTaskStatus_DeepCopyInto x = do {
     result \<leftarrow> clone (ss_Result x);
     conditions \<leftarrow> clone (ss_Conditions x);
     start_time \<leftarrow> clone (ss_StartTime x);
     completion \<leftarrow> clone (ss_CompletionTime x);
     ret (x\<lparr>ss_Result := result, ss_Conditions := conditions, ss_StartTime := start_time,
       ss_CompletionTime := completion\<rparr>)
   }"

definition AgentTask_DeepCopyInto :: "('k, 'm, 'r) copiers \<Rightarrow> ('k, ('m, 'r) task_struct) copier" where
  "AgentTask_DeepCopyInto L x = do {
     meta \<leftarrow> lib_Meta L (ts_Meta x);
     spec \<leftarrow> AgentTaskSpec_DeepCopyInto L (ts_Spec x);
     status \<leftarrow> AgentTaskStatus_DeepCopyInto (ts_Status x);
     ret (x\<lparr>ts_Meta := meta, ts_Spec := spec, ts_Status := status\<rparr>)
   }"

text \<open>The copy of a list copies its items in order; a nil slice stays nil.\<close>

fun copy_items :: "('k, 'm, 'r) copiers \<Rightarrow> ('k, ('m, 'r) task_struct list) copier" where
  "copy_items L [] = ret []"
| "copy_items L (x # xs) = do {
     y \<leftarrow> AgentTask_DeepCopyInto L x;
     ys \<leftarrow> copy_items L xs;
     ret (y # ys)
   }"

definition AgentTaskList_DeepCopyInto ::
  "('k, 'm, 'r) copiers \<Rightarrow> ('k, ('m, 'r) task_struct list option) copier" where
  "AgentTaskList_DeepCopyInto L xs = (case xs of
     None \<Rightarrow> ret None
   | Some items \<Rightarrow> do { items' \<leftarrow> copy_items L items; ret (Some items') })"

definition ExecutionResult_DeepCopyInto :: "('k, ExecutionResult) copier" where
  "ExecutionResult_DeepCopyInto x = ret x"

text \<open>
  The \<^verbatim>\<open>DeepCopy\<close> methods: nil for a nil receiver, else a new struct. A pointer to a whole
  struct is an option of the struct; the new one is the value the copy returns.
\<close>

definition AgentTask_DeepCopy ::
  "('k, 'm, 'r) copiers \<Rightarrow> ('k, ('m, 'r) task_struct option) copier" where
  "AgentTask_DeepCopy L p = (case p of
     None \<Rightarrow> ret None
   | Some x \<Rightarrow> do { out \<leftarrow> AgentTask_DeepCopyInto L x; ret (Some out) })"

definition AgentTaskList_DeepCopy ::
  "('k, 'm, 'r) copiers \<Rightarrow> ('k, ('m, 'r) task_struct list option option) copier" where
  "AgentTaskList_DeepCopy L p = (case p of
     None \<Rightarrow> ret None
   | Some xs \<Rightarrow> do { out \<leftarrow> AgentTaskList_DeepCopyInto L xs; ret (Some out) })"

definition AgentTaskSpec_DeepCopy :: "('k, 'm, 'r) copiers \<Rightarrow> ('k, 'r spec_struct option) copier" where
  "AgentTaskSpec_DeepCopy L p = (case p of
     None \<Rightarrow> ret None
   | Some x \<Rightarrow> do { out \<leftarrow> AgentTaskSpec_DeepCopyInto L x; ret (Some out) })"

definition AgentTaskStatus_DeepCopy :: "('k, status_struct option) copier" where
  "AgentTaskStatus_DeepCopy p = (case p of
     None \<Rightarrow> ret None
   | Some x \<Rightarrow> do { out \<leftarrow> AgentTaskStatus_DeepCopyInto x; ret (Some out) })"

definition CodeSource_DeepCopy :: "('k, 'm, 'r) copiers \<Rightarrow> ('k, code_struct option) copier" where
  "CodeSource_DeepCopy L p = (case p of
     None \<Rightarrow> ret None
   | Some x \<Rightarrow> do { out \<leftarrow> CodeSource_DeepCopyInto L x; ret (Some out) })"

definition ExecutionResult_DeepCopy :: "('k, ExecutionResult option) copier" where
  "ExecutionResult_DeepCopy p = (case p of
     None \<Rightarrow> ret None
   | Some x \<Rightarrow> do { out \<leftarrow> ExecutionResult_DeepCopyInto x; ret (Some out) })"

text \<open>
  A \<^verbatim>\<open>runtime.Object\<close> is the nil interface or an interface that holds a pointer of one of
  the two types, which may itself be nil; the two are different values.
\<close>

datatype ('m, 'r) runtime_object =
    NilInterface
  | HoldsTask "('m, 'r) task_struct option"
  | HoldsTaskList "('m, 'r) task_struct list option option"

definition AgentTask_DeepCopyObject ::
  "('k, 'm, 'r) copiers \<Rightarrow> ('m, 'r) task_struct option \<Rightarrow> ('k heap, ('m, 'r) runtime_object) state" where
  "AgentTask_DeepCopyObject L p = do {
     c \<leftarrow> AgentTask_DeepCopy L p;
     ret (if c \<noteq> None then HoldsTask c else NilInterface)
   }"

definition AgentTaskList_DeepCopyObject ::
  "('k, 'm, 'r) copiers \<Rightarrow> ('m, 'r) task_struct list option option
     \<Rightarrow> ('k heap, ('m, 'r) runtime_object) state" where
  "AgentTaskList_DeepCopyObject L p = do {
     c \<leftarrow> AgentTaskList_DeepCopy L p;
     ret (if c \<noteq> None then HoldsTaskList c else NilInterface)
   }"

subsection \<open>Values of the structs\<close>

fun result_of :: "'k cell \<Rightarrow> ExecutionResult option" where
  "result_of (ResultCell r) = Some r"
| "result_of c = None"

fun conditions_of :: "'k cell \<Rightarrow> Condition list option" where
  "conditions_of (ConditionsCell cs) = Some cs"
| "conditions_of c = None"

fun time_of :: "'k cell \<Rightarrow> instant option" where
  "time_of (TimeCell t) = Some t"
| "time_of c = None"

fun int32_of :: "'k cell \<Rightarrow> int32 option" where
  "int32_of (Int32Cell i) = Some i"
| "int32_of c = None"

text \<open>The pointers of a status struct, its addresses and its value.\<close>

type_synonym ptrs4 = "addr option \<times> addr option \<times> addr option \<times> addr option"

definition status_ptrs :: "status_struct \<Rightarrow> ptrs4" where
  "status_ptrs s = (ss_Result s, ss_Conditions s, ss_StartTime s, ss_CompletionTime s)"

fun status_put :: "ptrs4 \<Rightarrow> status_struct \<Rightarrow> status_struct" where
  "status_put (r, c, b, e) s = s\<lparr>ss_Result := r, ss_Conditions := c, ss_StartTime := b,
     ss_CompletionTime := e\<rparr>"

fun status_build :: "status_struct \<Rightarrow> ExecutionResult option \<times> Condition list option
    \<times> instant option \<times> instant option \<Rightarrow> AgentTaskStatus" where
  "status_build s (r, c, b, e) = \<lparr>status_Phase = ss_Phase s, status_PodRef = ss_PodRef s,
     status_Result = r, status_Conditions = (case c of None \<Rightarrow> [] | Some cs \<Rightarrow> cs),
     status_ExitCode = ss_ExitCode s, status_Reason = ss_Reason s,
     status_Message = ss_Message s, status_StartTime = b, status_CompletionTime = e\<rparr>"

definition status_addrs :: "'k heap \<Rightarrow> status_struct \<Rightarrow> addr set" where
  "status_addrs h s = pair_addrs ptr_addrs (pair_addrs ptr_addrs (pair_addrs ptr_addrs ptr_addrs))
     h (status_ptrs s)"

definition status_val :: "'k heap \<Rightarrow> status_struct \<Rightarrow> AgentTaskStatus option" where
  "status_val h s = map_option (status_build s)
     (pair_val (ptr_val result_of) (pair_val (ptr_val conditions_of)
       (pair_val (ptr_val time_of) (ptr_val time_of))) h (status_ptrs s))"

interpretation status: deep_copy AgentTaskStatus_DeepCopyInto status_addrs status_val
proof -
  have parts: "deep_copy (copy_pair clone (copy_pair clone (copy_pair clone clone)))
      (pair_addrs ptr_addrs (pair_addrs ptr_addrs (pair_addrs ptr_addrs ptr_addrs)))
      (pair_val (ptr_val result_of) (pair_val (ptr_val conditions_of)
        (pair_val (ptr_val time_of) (ptr_val time_of))))"
    by (intro deep_copy_pair pointer.deep_copy_axioms)
  have put: "status_ptrs (status_put p s) = p" "status_build (status_put p s) = status_build s"
    for p s
    by (cases p; auto simp: status_ptrs_def fun_eq_iff)+
  have eq: "AgentTaskStatus_DeepCopyInto = (\<lambda>s. do {
      p \<leftarrow> copy_pair clone (copy_pair clone (copy_pair clone clone)) (status_ptrs s);
      ret (status_put p s) })"
    by (rule ext, rule state_ext)
       (simp add: AgentTaskStatus_DeepCopyInto_def copy_pair_def status_ptrs_def split: prod.splits)
  show "deep_copy AgentTaskStatus_DeepCopyInto status_addrs status_val"
    unfolding eq status_addrs_def [abs_def] status_val_def [abs_def]
    by (rule deep_copy_struct [OF parts put])
qed

text \<open>
  The value of a code source. \<open>ak\<close>, \<open>ar\<close> and \<open>am\<close> are the addresses of a selector, of resource
  requirements and of object metadata, \<open>vk\<close>, \<open>vr\<close> and \<open>vm\<close> their values.
\<close>

definition code_addrs :: "('k heap \<Rightarrow> 'k \<Rightarrow> addr set) \<Rightarrow> 'k heap \<Rightarrow> code_struct \<Rightarrow> addr set" where
  "code_addrs ak h s = selector_addrs ak h (cd_ConfigMapRef s)"

definition code_build :: "code_struct \<Rightarrow> ConfigMapKeySelector option \<Rightarrow> CodeSource" where
  "code_build s r = \<lparr>code_Source = cd_Source s, code_ConfigMapRef = r\<rparr>"

definition code_val ::
  "('k heap \<Rightarrow> 'k \<Rightarrow> ConfigMapKeySelector option) \<Rightarrow> 'k heap \<Rightarrow> code_struct \<Rightarrow> CodeSource option" where
  "code_val vk h s = map_option (code_build s) (selector_val vk h (cd_ConfigMapRef s))"

lemma deep_copy_code:
  assumes "deep_copy (lib_Selector L) ak vk"
  shows "deep_copy (CodeSource_DeepCopyInto L) (code_addrs ak) (code_val vk)"
  unfolding CodeSource_DeepCopyInto_def [abs_def] code_addrs_def [abs_def] code_val_def [abs_def]
  by (rule deep_copy_struct [OF deep_copy_selector [OF assms],
        of cd_ConfigMapRef "\<lambda>p x. x\<lparr>cd_ConfigMapRef := p\<rparr>" code_build])
     (simp_all add: code_build_def fun_eq_iff)

text \<open>
  The part of a spec its copy owns: everything but the TTL pointer, which \<^verbatim>\<open>*out = *in\<close> copies
  and nothing replaces.
\<close>

fun spec_build :: "'r spec_struct \<Rightarrow> CodeSource \<times> ResourceRequirements \<Rightarrow> AgentTaskSpec" where
  "spec_build s (c, r) = \<lparr>spec_RuntimeProfile = sp_RuntimeProfile s, spec_Code = c,
     spec_Resources = r, spec_TimeoutSeconds = sp_TimeoutSeconds s, spec_Backend = sp_Backend s,
     spec_Tenant = sp_Tenant s, spec_Canceled = sp_Canceled s,
     spec_TTLSecondsAfterFinished = None\<rparr>"

definition spec_owned_addrs :: "('k heap \<Rightarrow> 'r \<Rightarrow> addr set) \<Rightarrow> ('k heap \<Rightarrow> 'k \<Rightarrow> addr set)
    \<Rightarrow> 'k heap \<Rightarrow> 'r spec_struct \<Rightarrow> addr set" where
  "spec_owned_addrs ar ak h s = pair_addrs (code_addrs ak) ar h (sp_Code s, sp_Resources s)"

definition spec_owned_val :: "('k heap \<Rightarrow> 'r \<Rightarrow> ResourceRequirements option)
    \<Rightarrow> ('k heap \<Rightarrow> 'k \<Rightarrow> ConfigMapKeySelector option)
    \<Rightarrow> 'k heap \<Rightarrow> 'r spec_struct \<Rightarrow> AgentTaskSpec option" where
  "spec_owned_val vr vk h s =
     map_option (spec_build s) (pair_val (code_val vk) vr h (sp_Code s, sp_Resources s))"

lemma deep_copy_spec:
  assumes "deep_copy (lib_Selector L) ak vk" "deep_copy (lib_Resources L) ar vr"
  shows "deep_copy (AgentTaskSpec_DeepCopyInto L) (spec_owned_addrs ar ak) (spec_owned_val vr vk)"
proof -
  have eq: "AgentTaskSpec_DeepCopyInto L = (\<lambda>s. do {
      p \<leftarrow> copy_pair (CodeSource_DeepCopyInto L) (lib_Resources L) (sp_Code s, sp_Resources s);
      ret (s\<lparr>sp_Code := fst p, sp_Resources := snd p\<rparr>) })"
    by (rule ext, rule state_ext)
       (simp add: AgentTaskSpec_DeepCopyInto_def copy_pair_def split: prod.splits)
  show ?thesis
    unfolding eq spec_owned_addrs_def [abs_def] spec_owned_val_def [abs_def]
    by (rule deep_copy_struct [OF deep_copy_pair [OF deep_copy_code [OF assms(1)] assms(2)],
          of "\<lambda>s. (sp_Code s, sp_Resources s)" "\<lambda>p s. s\<lparr>sp_Code := fst p, sp_Resources := snd p\<rparr>"
             spec_build])
       (simp_all add: fun_eq_iff)
qed

text \<open>The part of a task its copy owns.\<close>

definition task_parts :: "('m, 'r) task_struct \<Rightarrow> 'm \<times> 'r spec_struct \<times> status_struct" where
  "task_parts x = (ts_Meta x, ts_Spec x, ts_Status x)"

fun task_build :: "ObjectMeta \<times> AgentTaskSpec \<times> AgentTaskStatus \<Rightarrow> AgentTask" where
  "task_build (m, s, st) = \<lparr>task_Meta = m, task_Spec = s, task_Status = st\<rparr>"

definition task_owned_addrs :: "('k heap \<Rightarrow> 'm \<Rightarrow> addr set) \<Rightarrow> ('k heap \<Rightarrow> 'r \<Rightarrow> addr set)
    \<Rightarrow> ('k heap \<Rightarrow> 'k \<Rightarrow> addr set) \<Rightarrow> 'k heap \<Rightarrow> ('m, 'r) task_struct \<Rightarrow> addr set" where
  "task_owned_addrs am ar ak h x =
     pair_addrs am (pair_addrs (spec_owned_addrs ar ak) status_addrs) h (task_parts x)"

definition task_owned_val :: "('k heap \<Rightarrow> 'm \<Rightarrow> ObjectMeta option)
    \<Rightarrow> ('k heap \<Rightarrow> 'r \<Rightarrow> ResourceRequirements option)
    \<Rightarrow> ('k heap \<Rightarrow> 'k \<Rightarrow> ConfigMapKeySelector option)
    \<Rightarrow> 'k heap \<Rightarrow> ('m, 'r) task_struct \<Rightarrow> AgentTask option" where
  "task_owned_val vm vr vk h x = map_option task_build
     (pair_val vm (pair_val (spec_owned_val vr vk) status_val) h (task_parts x))"

lemma deep_copy_task:
  assumes "deep_copy (lib_Meta L) am vm" "deep_copy (lib_Resources L) ar vr"
    "deep_copy (lib_Selector L) ak vk"
  shows "deep_copy (AgentTask_DeepCopyInto L) (task_owned_addrs am ar ak) (task_owned_val vm vr vk)"
proof -
  let ?put = "\<lambda>p x. x\<lparr>ts_Meta := fst p, ts_Spec := fst (snd p), ts_Status := snd (snd p)\<rparr>"
  have eq: "AgentTask_DeepCopyInto L = (\<lambda>s. do {
      p \<leftarrow> copy_pair (lib_Meta L)
        (copy_pair (AgentTaskSpec_DeepCopyInto L) AgentTaskStatus_DeepCopyInto) (task_parts s);
      ret (?put p s) })"
    by (rule ext, rule state_ext)
       (simp add: AgentTask_DeepCopyInto_def copy_pair_def task_parts_def split: prod.splits)
  show ?thesis
    unfolding eq task_owned_addrs_def [abs_def] task_owned_val_def [abs_def]
    by (rule deep_copy_struct [OF deep_copy_pair [OF assms(1) deep_copy_pair
            [OF deep_copy_spec [OF assms(3,2)] status.deep_copy_axioms]],
          of task_parts ?put "\<lambda>_. task_build"])
       (simp_all add: task_parts_def)
qed

text \<open>The items of a list, each copied.\<close>

definition items_addrs :: "('k heap \<Rightarrow> 'a \<Rightarrow> addr set) \<Rightarrow> 'k heap \<Rightarrow> 'a list \<Rightarrow> addr set" where
  "items_addrs a h xs = (\<Union>x \<in> set xs. a h x)"

fun items_val :: "('k heap \<Rightarrow> 'a \<Rightarrow> 'v option) \<Rightarrow> 'k heap \<Rightarrow> 'a list \<Rightarrow> 'v list option" where
  "items_val v h [] = Some []"
| "items_val v h (x # xs) = (case v h x of None \<Rightarrow> None | Some y \<Rightarrow> map_option (Cons y) (items_val v h xs))"

lemma items_val_Some: "items_val v h xs \<noteq> None \<longleftrightarrow> (\<forall>x \<in> set xs. v h x \<noteq> None)"
  by (induction xs) (auto split: option.splits)

lemma items_kept:
  assumes "deep_copy c a v" "heap_wf h" "items_val v h xs \<noteq> None" "grows h h'"
  shows "items_val v h' xs = items_val v h xs" and "items_addrs a h' xs = items_addrs a h xs"
proof -
  have k: "v h' x = v h x \<and> a h' x = a h x" if "x \<in> set xs" for x
    using deep_copy.kept [OF assms(1,2) _ assms(4)] assms(3) that unfolding items_val_Some by blast
  then show "items_val v h' xs = items_val v h xs"
    by (induction xs) (simp_all split: option.split)
  show "items_addrs a h' xs = items_addrs a h xs"
    using k by (simp add: items_addrs_def)
qed

lemma copy_items_copies:
  assumes c: "deep_copy (AgentTask_DeepCopyInto L) a v"
  shows "\<lbrakk>heap_wf h; items_val v h xs \<noteq> None; run_state (copy_items L xs) h = (ys, h')\<rbrakk> \<Longrightarrow>
    grows h h' \<and> items_val v h' ys = items_val v h xs
      \<and> items_addrs a h' ys \<subseteq> {next_addr h..<next_addr h'}"
proof (induction xs arbitrary: h ys)
  case Nil
  then show ?case by (simp add: items_addrs_def grows_refl)
next
  case (Cons x xs)
  obtain y h1 ys' where run: "run_state (AgentTask_DeepCopyInto L x) h = (y, h1)"
      "run_state (copy_items L xs) h1 = (ys', h')" "ys = y # ys'"
    using Cons.prems(3) by (auto split: prod.splits)
  have v: "v h x \<noteq> None" "items_val v h xs \<noteq> None"
    using Cons.prems(2) by (auto split: option.splits)
  note p1 = deep_copy.copies [OF c Cons.prems(1) v(1) run(1)]
  have wf1: "heap_wf h1" using p1 by (simp add: grows_def)
  have k2: "items_val v h1 xs = items_val v h xs"
    using items_kept(1) [OF c Cons.prems(1) v(2)] p1 by blast
  have p2: "grows h1 h' \<and> items_val v h' ys' = items_val v h xs
      \<and> items_addrs a h' ys' \<subseteq> {next_addr h1..<next_addr h'}"
    using Cons.IH [OF wf1 _ run(2)] k2 v(2) by simp
  have k1: "v h' y = v h x" "a h' y = a h1 y"
    using deep_copy.kept [OF c wf1, of y h'] p1 p2 v(1) by auto
  have "a h' y \<subseteq> {next_addr h..<next_addr h'}" "items_addrs a h' ys' \<subseteq> {next_addr h..<next_addr h'}"
    using p1 p2 k1(2) by (auto simp: grows_def subset_iff)
  then show ?case
    using p1 p2 k1(1) grows_trans by (auto simp: run(3) items_addrs_def split: option.split)
qed

text \<open>The whole value of a task, TTL included.\<close>

abbreviation ttl_ptr :: "('m, 'r) task_struct \<Rightarrow> addr option" where
  "ttl_ptr x \<equiv> sp_TTLSecondsAfterFinished (ts_Spec x)"

definition set_ttl :: "int32 option \<Rightarrow> AgentTask \<Rightarrow> AgentTask" where
  "set_ttl n t = t\<lparr>task_Spec := (task_Spec t)\<lparr>spec_TTLSecondsAfterFinished := n\<rparr>\<rparr>"

definition task_val :: "('k heap \<Rightarrow> 'm \<Rightarrow> ObjectMeta option)
    \<Rightarrow> ('k heap \<Rightarrow> 'r \<Rightarrow> ResourceRequirements option)
    \<Rightarrow> ('k heap \<Rightarrow> 'k \<Rightarrow> ConfigMapKeySelector option)
    \<Rightarrow> 'k heap \<Rightarrow> ('m, 'r) task_struct \<Rightarrow> AgentTask option" where
  "task_val vm vr vk h x = (case ptr_val int32_of h (ttl_ptr x) of None \<Rightarrow> None
     | Some n \<Rightarrow> map_option (set_ttl n) (task_owned_val vm vr vk h x))"

lemma copied_ttl_ptr:
  "run_state (AgentTask_DeepCopyInto L x) h = (y, h') \<Longrightarrow> ttl_ptr y = ttl_ptr x"
  by (auto simp: AgentTask_DeepCopyInto_def AgentTaskSpec_DeepCopyInto_def split: prod.splits)

lemma set_ttl_twice [simp]: "set_ttl m (set_ttl n t) = set_ttl m t"
  by (simp add: set_ttl_def)

lemma task_copied:
  assumes lib: "deep_copy (lib_Meta L) am vm" "deep_copy (lib_Resources L) ar vr"
      "deep_copy (lib_Selector L) ak vk"
    and h: "heap_wf h" "task_val vm vr vk h x = Some t"
      "run_state (AgentTask_DeepCopyInto L x) h = (y, h')"
  shows "task_val vm vr vk h' x = Some t" and "task_val vm vr vk h' y = Some t"
    and "task_owned_addrs am ar ak h' x = task_owned_addrs am ar ak h x"
    and "task_owned_addrs am ar ak h' x \<union> set_option (ttl_ptr x) \<subseteq> {..<next_addr h}"
    and "task_owned_addrs am ar ak h' y \<subseteq> {next_addr h..<next_addr h'}"
proof -
  note c = deep_copy_task [OF lib]
  have v: "task_owned_val vm vr vk h x \<noteq> None" "ptr_val int32_of h (ttl_ptr x) \<noteq> None"
    using h(2) by (auto simp: task_val_def split: option.splits)
  note p = deep_copy.copies [OF c h(1) v(1) h(3)]
  then have g: "grows h h'" by blast
  note k = deep_copy.kept [OF c h(1) v(1) g]
  have t: "ptr_val int32_of h' (ttl_ptr x) = ptr_val int32_of h (ttl_ptr x)"
    by (rule pointer.kept(1) [OF h(1) v(2) g])
  show "task_val vm vr vk h' x = Some t" "task_val vm vr vk h' y = Some t"
    using h(2) p k(1) t copied_ttl_ptr [OF h(3)] by (auto simp: task_val_def split: option.splits)
  show "task_owned_addrs am ar ak h' x = task_owned_addrs am ar ak h x" by (rule k(2))
  show "task_owned_addrs am ar ak h' x \<union> set_option (ttl_ptr x) \<subseteq> {..<next_addr h}"
    using deep_copy.bounded [OF c h(1) v(1)] pointer.bounded [OF h(1) v(2)] k(2)
    by (simp add: ptr_addrs_def)
  show "task_owned_addrs am ar ak h' y \<subseteq> {next_addr h..<next_addr h'}"
    using p by blast
qed

lemma ptr_store:
  "a \<notin> set_option p \<Longrightarrow> ptr_val f (store_at a c h) p = ptr_val f h p"
  by (simp add: ptr_val_def store_at_def split: option.split)

lemma owned_store:
  fixes L :: "('k, 'm, 'r) copiers"
  assumes "deep_copy (lib_Meta L) am vm" "deep_copy (lib_Resources L) ar vr"
      "deep_copy (lib_Selector L) ak vk" "a \<notin> task_owned_addrs am ar ak h x"
  shows "task_owned_val vm vr vk (store_at a c h) x = task_owned_val vm vr vk h x"
proof -
  have "\<forall>b \<in> task_owned_addrs am ar ak h x. cells (store_at a c h) b = cells h b"
    using assms(4) by (auto simp: store_at_def)
  then show ?thesis
    using deep_copy.reads_local [OF deep_copy_task [OF assms(1-3)]] by blast
qed

text \<open>A task with a TTL, a result and a start time, and library copies of flat values.\<close>

definition flat_copiers :: "(ConfigMapKeySelector, ObjectMeta, ResourceRequirements) copiers" where
  "flat_copiers = \<lparr>lib_Meta = ret, lib_Resources = ret, lib_Selector = ret\<rparr>"

definition flat_addrs :: "'k heap \<Rightarrow> 'a \<Rightarrow> addr set" where
  "flat_addrs h x = {}"

definition flat_val :: "'k heap \<Rightarrow> 'a \<Rightarrow> 'a option" where
  "flat_val h x = Some x"

lemma deep_copy_flat: "deep_copy ret flat_addrs flat_val"
  by unfold_locales (auto simp: flat_addrs_def flat_val_def grows_refl)

lemma flat_lib:
  "deep_copy (lib_Meta flat_copiers) flat_addrs flat_val"
  "deep_copy (lib_Resources flat_copiers) flat_addrs flat_val"
  "deep_copy (lib_Selector flat_copiers) flat_addrs flat_val"
  by (simp_all add: flat_copiers_def deep_copy_flat)

definition sample_heap :: "ConfigMapKeySelector heap" where
  "sample_heap = \<lparr>cells = [0 \<mapsto> Int32Cell 60, 1 \<mapsto> ResultCell \<lparr>er_JSON = ''{}''\<rparr>, 2 \<mapsto> TimeCell 5],
     next_addr = 3\<rparr>"

definition sample_struct :: "(ObjectMeta, ResourceRequirements) task_struct" where
  "sample_struct = \<lparr>ts_Meta = empty_meta,
     ts_Spec = \<lparr>sp_RuntimeProfile = ''python3.11'', sp_Code = \<lparr>cd_Source = ''x'', cd_ConfigMapRef = None\<rparr>,
       sp_Resources = spec_Resources empty_spec, sp_TimeoutSeconds = 30, sp_Backend = '''',
       sp_Tenant = '''', sp_Canceled = False, sp_TTLSecondsAfterFinished = Some 0\<rparr>,
     ts_Status = \<lparr>ss_Phase = AgentTaskPhaseSucceeded, ss_PodRef = empty_ref, ss_Result = Some 1,
       ss_Conditions = None, ss_ExitCode = 0, ss_Reason = '''', ss_Message = '''',
       ss_StartTime = Some 2, ss_CompletionTime = None\<rparr>\<rparr>"

lemma sample_heap_wf: "heap_wf sample_heap"
  by (simp add: heap_wf_def sample_heap_def)

lemmas sample_defs = sample_struct_def sample_heap_def task_val_def task_owned_val_def
  task_parts_def pair_val_def flat_val_def spec_owned_val_def code_val_def selector_val_def
  status_val_def status_ptrs_def ptr_val_def code_build_def set_ttl_def

lemma sample_val:
  obtains t where "task_val flat_val flat_val flat_val sample_heap sample_struct = Some t"
    and "task_Spec t = empty_spec\<lparr>spec_RuntimeProfile := ''python3.11'',
       spec_Code := \<lparr>code_Source = ''x'', code_ConfigMapRef = None\<rparr>,
       spec_TimeoutSeconds := 30, spec_TTLSecondsAfterFinished := Some 60\<rparr>"
  by (simp add: sample_defs empty_spec_def)

lemmas sample_run_defs = AgentTask_DeepCopyInto_def AgentTaskSpec_DeepCopyInto_def
  CodeSource_DeepCopyInto_def AgentTaskStatus_DeepCopyInto_def copy_selector_def clone_def alloc_def
  flat_copiers_def

lemma sample_copy:
  obtains y h' where "run_state (AgentTask_DeepCopyInto flat_copiers sample_struct) sample_heap = (y, h')"
    and "next_addr h' = 5" "ss_Result (ts_Status y) = Some 3" "ss_StartTime (ts_Status y) = Some 4"
  by (simp add: sample_struct_def sample_heap_def sample_run_defs)

lemma result_owned:
  "ss_Result (ts_Status y) = Some a \<Longrightarrow> a \<in> task_owned_addrs am ar ak h y"
  by (simp add: task_owned_addrs_def task_parts_def pair_addrs_def status_addrs_def
      status_ptrs_def ptr_addrs_def)

lemma sample_ttl_not_owned:
  "0 \<notin> task_owned_addrs flat_addrs flat_addrs flat_addrs sample_heap sample_struct"
  by (simp add: sample_struct_def task_owned_addrs_def task_parts_def pair_addrs_def
      spec_owned_addrs_def code_addrs_def selector_addrs_def flat_addrs_def status_addrs_def
      status_ptrs_def ptr_addrs_def)

lemma copied_ttl_ptrs:
  "run_state (copy_items L xs) h = (ys, h') \<Longrightarrow> map ttl_ptr ys = map ttl_ptr xs"
  by (induction xs arbitrary: h ys) (auto split: prod.splits dest: copied_ttl_ptr)

text \<open>An interface value never hides a nil pointer.\<close>

fun hides_nil :: "('m, 'r) runtime_object \<Rightarrow> bool" where
  "hides_nil NilInterface = False"
| "hides_nil (HoldsTask p) = (p = None)"
| "hides_nil (HoldsTaskList p) = (p = None)"

lemma deep_copy_objects:
  "fst (run_state (AgentTask_DeepCopyObject L None) h) = NilInterface"
  "fst (run_state (AgentTaskList_DeepCopyObject L None) h) = NilInterface"
  "\<not> hides_nil (fst (run_state (AgentTask_DeepCopyObject L p) h))"
  "\<not> hides_nil (fst (run_state (AgentTaskList_DeepCopyObject L q) h))"
  by (auto simp: AgentTask_DeepCopyObject_def AgentTaskList_DeepCopyObject_def AgentTask_DeepCopy_def
      AgentTaskList_DeepCopy_def split: option.split prod.split)

subsection \<open>The copy of a task\<close>

text \<open>C39: DeepCopy of a task (the objects the informer cache and the webhook hand out) yields a task
  of the same value, and writing anywhere the copy owns (its metadata, code reference, resources,
  result, conditions or times) leaves the original's value as it was.
\<close>

theorem task_copy_isolated:
  assumes "deep_copy (lib_Meta L) am vm" "deep_copy (lib_Resources L) ar vr"
      "deep_copy (lib_Selector L) ak vk"
    and "heap_wf h" "task_val vm vr vk h x = Some t"
      "run_state (AgentTask_DeepCopyInto L x) h = (y, h')"
  shows "task_val vm vr vk h' y = Some t
    \<and> (\<forall>a \<in> task_owned_addrs am ar ak h' y. \<forall>c. task_val vm vr vk (store_at a c h') x = Some t)"
proof (intro conjI ballI allI)
  note k = task_copied [OF assms]
  show "task_val vm vr vk h' y = Some t" by (rule k(2))
  fix a c
  assume "a \<in> task_owned_addrs am ar ak h' y"
  then have "a \<notin> task_owned_addrs am ar ak h' x" "a \<notin> set_option (ttl_ptr x)"
    using k(4,5) by fastforce+
  then show "task_val vm vr vk (store_at a c h') x = Some t"
    using k(1) by (auto simp: task_val_def ptr_store owned_store [OF assms(1-3)] split: option.splits)
qed

lemma task_copy_isolated_witness:
  "\<exists>y h' t. run_state (AgentTask_DeepCopyInto flat_copiers sample_struct) sample_heap = (y, h')
     \<and> task_val flat_val flat_val flat_val h' y = Some t
     \<and> 3 \<in> task_owned_addrs flat_addrs flat_addrs flat_addrs h' y
     \<and> task_val flat_val flat_val flat_val (store_at 3 (ResultCell \<lparr>er_JSON = ''[]''\<rparr>) h') sample_struct = Some t"
proof -
  obtain y h' where y: "run_state (AgentTask_DeepCopyInto flat_copiers sample_struct) sample_heap = (y, h')"
      "ss_Result (ts_Status y) = Some 3"
    by (rule sample_copy)
  obtain t where t: "task_val flat_val flat_val flat_val sample_heap sample_struct = Some t"
    by (rule sample_val)
  have a: "3 \<in> task_owned_addrs flat_addrs flat_addrs flat_addrs h' y"
    using y(2) by (rule result_owned)
  show ?thesis
    using task_copy_isolated [OF flat_lib sample_heap_wf t y(1)] y(1) a by blast
qed

text \<open>C40: The TTL pointer is not copied: the generated code of AgentTaskSpec was not regenerated for
  \<^verbatim>\<open>TTLSecondsAfterFinished\<close>, so writing a new TTL through the copy changes the original too.
\<close>

theorem task_copy_shares_ttl:
  assumes "deep_copy (lib_Meta L) am vm" "deep_copy (lib_Resources L) ar vr"
      "deep_copy (lib_Selector L) ak vk"
    and "heap_wf h" "task_val vm vr vk h x = Some t"
      "run_state (AgentTask_DeepCopyInto L x) h = (y, h')"
    and "ttl_ptr x = Some a" "a \<notin> task_owned_addrs am ar ak h x"
  shows "ttl_ptr y = Some a \<and> task_val vm vr vk (store_at a (Int32Cell n) h') x = Some (set_ttl (Some n) t)"
proof -
  note k = task_copied [OF assms(1-6)]
  have y: "ttl_ptr y = Some a" using copied_ttl_ptr [OF assms(6)] assms(7) by simp
  have "a \<notin> task_owned_addrs am ar ak h' x" using k(3) assms(8) by simp
  note o = owned_store [OF assms(1-3) this]
  have "ptr_val int32_of (store_at a (Int32Cell n) h') (ttl_ptr x) = Some (Some n)"
    using assms(7) by (simp add: ptr_val_def store_at_def)
  then show ?thesis
    using k(1) y by (auto simp: task_val_def o split: option.splits)
qed



lemma task_copy_shares_ttl_witness:
  "\<exists>y h' t. run_state (AgentTask_DeepCopyInto flat_copiers sample_struct) sample_heap = (y, h')
     \<and> task_val flat_val flat_val flat_val sample_heap sample_struct = Some t
     \<and> spec_TTLSecondsAfterFinished (task_Spec t) = Some 60
     \<and> ttl_ptr y = Some 0
     \<and> task_val flat_val flat_val flat_val (store_at 0 (Int32Cell 1) h') sample_struct = Some (set_ttl (Some 1) t)"
proof -
  obtain y h' where y: "run_state (AgentTask_DeepCopyInto flat_copiers sample_struct) sample_heap = (y, h')"
    by (rule sample_copy)
  obtain t where t: "task_val flat_val flat_val flat_val sample_heap sample_struct = Some t"
      "spec_TTLSecondsAfterFinished (task_Spec t) = Some 60"
    by (rule sample_val) simp
  have ttl: "ttl_ptr sample_struct = Some 0"
    by (simp add: sample_struct_def)
  show ?thesis
    using task_copy_shares_ttl [OF flat_lib sample_heap_wf t(1) y ttl sample_ttl_not_owned] y t by blast
qed

text \<open>DeepCopy of a list copies every item in order: each copy has the value of its item, owns
  fresh memory only, and shares its item's TTL pointer; a nil list stays nil.
\<close>

theorem list_copy_in_order:
  assumes "deep_copy (lib_Meta L) am vm" "deep_copy (lib_Resources L) ar vr"
      "deep_copy (lib_Selector L) ak vk"
    and "heap_wf h" "items_val (task_owned_val vm vr vk) h xs = Some ts"
      "run_state (AgentTaskList_DeepCopyInto L (Some xs)) h = (r, h')"
  shows "\<exists>ys. r = Some ys \<and> items_val (task_owned_val vm vr vk) h' ys = Some ts
    \<and> map ttl_ptr ys = map ttl_ptr xs
    \<and> items_addrs (task_owned_addrs am ar ak) h' ys \<subseteq> {next_addr h..<next_addr h'}
    \<and> run_state (AgentTaskList_DeepCopyInto L None) h = (None, h)"
proof -
  obtain ys where run: "run_state (copy_items L xs) h = (ys, h')" and r: "r = Some ys"
    using assms(6) by (auto simp: AgentTaskList_DeepCopyInto_def split: prod.splits)
  have "items_val (task_owned_val vm vr vk) h xs \<noteq> None" using assms(5) by simp
  from copy_items_copies [OF deep_copy_task [OF assms(1-3)] assms(4) this run]
  show ?thesis
    using assms(5) r copied_ttl_ptrs [OF run] by (simp add: AgentTaskList_DeepCopyInto_def)
qed

lemma list_copy_in_order_witness:
  "\<exists>ys h' ts. run_state (AgentTaskList_DeepCopyInto flat_copiers (Some [sample_struct])) sample_heap
       = (Some ys, h')
     \<and> items_val (task_owned_val flat_val flat_val flat_val) h' ys = Some ts \<and> length ts = 1
     \<and> map ttl_ptr ys = [Some 0]"
proof -
  obtain r h' where r: "run_state (AgentTaskList_DeepCopyInto flat_copiers (Some [sample_struct])) sample_heap
       = (r, h')"
    by fastforce
  obtain ts where ts: "items_val (task_owned_val flat_val flat_val flat_val) sample_heap [sample_struct] = Some ts"
      "length ts = 1"
    by (simp add: sample_defs)
  show ?thesis
    using list_copy_in_order [OF flat_lib sample_heap_wf ts(1) r] r ts(2)
    by (auto simp: sample_struct_def)
qed

end
